(* ===== verification/Prelude.thy ===== *)
theory Prelude
  imports Main "HOL-Library.Multiset"
begin

text \<open>
  Shared vocabulary of the development: results with the two ways a Go call can fail to
  return a value, the early-return combinator, and the contract of the many validation
  loops that keep a \<open>seen\<close> set.

  A Go function \<open>f(...) (T, error)\<close> is a HOL function into \<open>T result\<close>: \<open>Inr v\<close> is the
  return \<open>v, nil\<close>, \<open>Inl (Error m)\<close> the return of a non-nil error with message \<open>m\<close>, and
  \<open>Inl Panic\<close> a run-time panic. A function returning only \<open>error\<close> is a \<open>unit result\<close>.
\<close>

section \<open>Results\<close>

datatype fault = Error string | Panic

type_synonym 'a result = "fault + 'a"

abbreviation ok :: "unit result" where "ok \<equiv> Inr ()"

abbreviation fail :: "string \<Rightarrow> 'a result" where "fail m \<equiv> Inl (Error m)"

text \<open>\<open>if err := e; err != nil { return err }; k\<close>\<close>

definition and_then :: "'a result \<Rightarrow> ('a \<Rightarrow> 'b result) \<Rightarrow> 'b result" where
  "and_then r k = (case r of Inl e \<Rightarrow> Inl e | Inr v \<Rightarrow> k v)"

text \<open>\<open>if err != nil { return errors.New(m) }\<close>: the cause is replaced, a panic is not.\<close>

definition or_fail :: "'a result \<Rightarrow> string \<Rightarrow> 'a result" where
  "or_fail r m = (case r of Inl (Error _) \<Rightarrow> fail m | Inl Panic \<Rightarrow> Inl Panic | Inr v \<Rightarrow> Inr v)"

text \<open>\<open>err == nil\<close> as a boolean, for code that only tests the error.\<close>

definition no_error :: "'a result \<Rightarrow> bool result" where
  "no_error r = (case r of Inl (Error _) \<Rightarrow> Inr False | Inl Panic \<Rightarrow> Inl Panic | Inr _ \<Rightarrow> Inr True)"

named_theorems result_iff "when a computation returns normally"

lemma and_then_simps [simp]:
  "and_then (Inr v) k = k v" "and_then (Inl e) k = Inl e"
  by (simp_all add: and_then_def)

lemma or_fail_simps [simp]:
  "or_fail (Inr v) m = Inr v" "or_fail (fail e) m = fail m" "or_fail (Inl Panic) m = Inl Panic"
  by (simp_all add: or_fail_def)

lemma no_error_simps [simp]:
  "no_error (Inr v) = Inr True" "no_error (fail e) = Inr False"
  "no_error (Inl Panic) = Inl Panic"
  by (simp_all add: no_error_def)

lemma and_then_Inr [result_iff]: "and_then r k = Inr y \<longleftrightarrow> (\<exists>x. r = Inr x \<and> k x = Inr y)"
  by (cases r) simp_all

lemma or_fail_Inr [result_iff]: "or_fail r m = Inr v \<longleftrightarrow> r = Inr v"
  by (auto simp: or_fail_def split: sum.splits fault.splits)

lemma no_error_True [result_iff]: "no_error r = Inr True \<longleftrightarrow> (\<exists>v. r = Inr v)"
  by (auto simp: no_error_def split: sum.splits fault.splits)

lemma no_error_not_True: "no_error r = Inr False \<longleftrightarrow> (\<exists>m. r = fail m)"
  by (auto simp: no_error_def split: sum.splits fault.splits)

lemma if_fail_Inr [result_iff]: "(if c then Inl e else r) = Inr v \<longleftrightarrow> \<not> c \<and> r = Inr v"
  by simp

lemma if_ok_Inr [result_iff]: "(if c then r else Inl e) = Inr v \<longleftrightarrow> c \<and> r = Inr v"
  by simp

lemma unit_result_cases: "(r :: unit result) \<noteq> ok \<longleftrightarrow> (\<exists>e. r = Inl e)"
  by (cases r) auto

section \<open>Faults that cannot happen\<close>

text \<open>
  A computation avoids a set of faults when it returns none of them: \<open>{Panic}\<close> for code that
  cannot panic, \<open>range Error\<close> for Go functions without an error result.
\<close>

definition avoids :: "fault set \<Rightarrow> 'a result \<Rightarrow> bool" where
  "avoids F r \<longleftrightarrow> (\<forall>e \<in> F. r \<noteq> Inl e)"

named_theorems avoids_intros "how faults are avoided"

lemma avoids_Inr [avoids_intros]: "avoids F (Inr v)"
  by (simp add: avoids_def)

lemma avoids_fail [avoids_intros]: "avoids {Panic} (fail m)"
  by (simp add: avoids_def)

lemma avoids_panic [avoids_intros]: "avoids (range Error) (Inl Panic)"
  by (auto simp: avoids_def)

lemma avoids_and_then [avoids_intros]:
  "avoids F r \<Longrightarrow> (\<And>v. r = Inr v \<Longrightarrow> avoids F (k v)) \<Longrightarrow> avoids F (and_then r k)"
  by (cases r) (auto simp: avoids_def)

lemma avoids_if [avoids_intros]:
  "(c \<Longrightarrow> avoids F r) \<Longrightarrow> (\<not> c \<Longrightarrow> avoids F q) \<Longrightarrow> avoids F (if c then r else q)"
  by simp

lemma avoids_option [avoids_intros]:
  "(x = None \<Longrightarrow> avoids F r) \<Longrightarrow> (\<And>v. x = Some v \<Longrightarrow> avoids F (q v)) \<Longrightarrow>
     avoids F (case x of None \<Rightarrow> r | Some v \<Rightarrow> q v)"
  by (cases x) simp_all

lemma avoids_or_fail [avoids_intros]: "avoids {Panic} r \<Longrightarrow> avoids {Panic} (or_fail r m)"
  by (auto simp: avoids_def or_fail_def split: sum.splits fault.splits)

lemma avoids_no_error [avoids_intros]: "avoids {Panic} r \<Longrightarrow> avoids F (no_error r)"
  by (auto simp: avoids_def no_error_def split: sum.splits fault.splits)

lemma avoids_no_error_Error [avoids_intros]: "avoids (range Error) (no_error r)"
  by (auto simp: avoids_def no_error_def split: sum.splits fault.splits)

lemma avoids_all: "avoids {Panic} r \<Longrightarrow> avoids (range Error) r \<Longrightarrow> \<exists>v. r = Inr v"
  by (cases r) (metis avoids_def insertI1 rangeI fault.exhaust, simp)

lemma no_panic_iff: "avoids {Panic} r \<longleftrightarrow> r \<noteq> Inl Panic"
  by (simp add: avoids_def)

section \<open>Collecting results\<close>

text \<open>\<open>for\<close> loops that append \<open>f(x)\<close> for each element and stop at the first error.\<close>

fun traverse :: "('a \<Rightarrow> 'b result) \<Rightarrow> 'a list \<Rightarrow> 'b list result" where
  "traverse f [] = Inr []"
| "traverse f (x # xs) = and_then (f x) (\<lambda>y. and_then (traverse f xs) (\<lambda>ys. Inr (y # ys)))"

lemma traverse_Inr [result_iff]: "traverse f xs = Inr ys \<longleftrightarrow> list_all2 (\<lambda>x y. f x = Inr y) xs ys"
  by (induction xs arbitrary: ys) (auto simp: and_then_Inr list_all2_Cons1)

lemma traverse_avoids [avoids_intros]:
  "(\<And>x. x \<in> set xs \<Longrightarrow> avoids F (f x)) \<Longrightarrow> avoids F (traverse f xs)"
  by (induction xs) (auto intro!: avoids_intros)

section \<open>Validation loops with a seen set\<close>

text \<open>
  \<open>for _, x := range xs { if !ok(x) || seen[key(x)] { return err }; seen[key(x)] = true }\<close>.
  Several operations of the SDK run such a loop over features, identifiers, capabilities,
  artifacts, rules or effects. The contract says what one iteration does; the client lemma
  says what a whole loop decides.
\<close>

locale seen_loop =
  fixes loop :: "'k set \<Rightarrow> 'a list \<Rightarrow> unit result"
    and good :: "'a \<Rightarrow> bool"
    and key :: "'a \<Rightarrow> 'k"
  assumes loop_Nil: "loop S [] = ok"
    and loop_Cons: "loop S (x # xs) = ok \<longleftrightarrow>
          good x \<and> key x \<notin> S \<and> loop (insert (key x) S) xs = ok"
begin

lemma loop_iff:
  "loop S xs = ok \<longleftrightarrow> (\<forall>x \<in> set xs. good x) \<and> distinct (map key xs) \<and> key ` set xs \<inter> S = {}"
  by (induction xs arbitrary: S) (auto simp: loop_Nil loop_Cons)

lemma loop_empty_iff: "loop {} xs = ok \<longleftrightarrow> (\<forall>x \<in> set xs. good x) \<and> distinct (map key xs)"
  by (simp add: loop_iff)

text \<open>The verdict does not depend on the order of the elements.\<close>

lemma loop_perm:
  assumes "mset xs = mset ys"
  shows "loop S xs = ok \<longleftrightarrow> loop S ys = ok"
proof -
  have "set xs = set ys" using assms by (rule mset_eq_setD)
  moreover have "distinct (map key xs) = distinct (map key ys)"
    by (rule mset_eq_imp_distinct_iff) (simp add: assms)
  ultimately show ?thesis by (simp add: loop_iff)
qed

end

section \<open>Runs of a state machine\<close>

text \<open>A run performs the steps for a list of events, one after the other.\<close>

inductive run :: "('s \<Rightarrow> 'e \<Rightarrow> 's \<Rightarrow> bool) \<Rightarrow> 's \<Rightarrow> 'e list \<Rightarrow> 's \<Rightarrow> bool" for step where
  run_Nil: "run step s [] s"
| run_Cons: "step s e s1 \<Longrightarrow> run step s1 es s2 \<Longrightarrow> run step s (e # es) s2"

inductive_cases run_NilE [elim!]: "run step s [] s'"
inductive_cases run_ConsE [elim!]: "run step s (e # es) s'"

inductive_simps run_simps: "run step s [] s'" "run step s (e # es) s'"

lemma run_append: "run step s (es @ fs) s' \<longleftrightarrow> (\<exists>s1. run step s es s1 \<and> run step s1 fs s')"
  by (induction es arbitrary: s) (auto simp: run_simps)

end
