(* ===== verification/GoText.thy ===== *)
theory GoText
  imports Prelude
begin

text \<open>
  Go strings as byte lists (type \<open>string\<close>, one \<open>char\<close> per byte), and the library
  functions the SDK applies to them: \<open>strings.TrimSpace\<close>, \<open>strings.HasPrefix\<close>,
  \<open>strings.TrimLeft\<close>/\<open>TrimRight\<close> with a one-character cutset, \<open>utf8.ValidString\<close>,
  \<open>unicode.IsControl\<close>, and the anchored regular expressions of \<open>manifest.go\<close> and
  \<open>protocol.go\<close>.
\<close>

section \<open>Bytes\<close>

definition code :: "char \<Rightarrow> nat" where
  "code c = of_char c"

definition byte :: "nat \<Rightarrow> char" where
  "byte n = char_of n"

lemma code_byte [simp]: "n < 256 \<Longrightarrow> code (byte n) = n"
  by (simp add: code_def byte_def take_bit_eq_mod)

lemma byte_code [simp]: "byte (code c) = c"
  by (simp add: code_def byte_def)

lemma code_less: "code c < 256"
  by (simp add: code_def)

lemma code_inject [simp]: "code c = code d \<longleftrightarrow> c = d"
  by (simp add: code_def)

lemma code_Char [simp]:
  "code (Char b0 b1 b2 b3 b4 b5 b6 b7) = horner_sum of_bool 2 [b0, b1, b2, b3, b4, b5, b6, b7]"
  by (simp add: code_def)

definition between :: "nat \<Rightarrow> nat \<Rightarrow> char \<Rightarrow> bool" where
  "between lo hi c \<longleftrightarrow> lo \<le> code c \<and> code c \<le> hi"

definition is_digit :: "char \<Rightarrow> bool" where
  "is_digit c \<longleftrightarrow> between 0x30 0x39 c"

definition is_lower :: "char \<Rightarrow> bool" where
  "is_lower c \<longleftrightarrow> between 0x61 0x7A c"

definition is_upper :: "char \<Rightarrow> bool" where
  "is_upper c \<longleftrightarrow> between 0x41 0x5A c"

definition digit_char :: "nat \<Rightarrow> char" where
  "digit_char n = byte (0x30 + n)"

definition digit_val :: "char \<Rightarrow> nat" where
  "digit_val c = code c - 0x30"

lemma digit_val_char [simp]: "n < 10 \<Longrightarrow> digit_val (digit_char n) = n"
  by (simp add: digit_val_def digit_char_def)

lemma is_digit_char [simp]: "n < 10 \<Longrightarrow> is_digit (digit_char n)"
  by (simp add: is_digit_def between_def digit_char_def)

lemma digit_char_val [simp]: "is_digit c \<Longrightarrow> digit_char (digit_val c) = c"
  by (auto simp: digit_char_def digit_val_def is_digit_def between_def)

lemma digit_val_less: "is_digit c \<Longrightarrow> digit_val c < 10"
  by (auto simp: digit_val_def is_digit_def between_def)

lemma digit_val_pos: "is_digit c \<Longrightarrow> c \<noteq> CHR ''0'' \<Longrightarrow> digit_val c > 0"
proof -
  assume c: "is_digit c" "c \<noteq> CHR ''0''"
  have "code c \<noteq> code (CHR ''0'')" using c(2) by (simp only: code_inject not_False_eq_True)
  then show ?thesis using c(1) by (simp add: digit_val_def is_digit_def between_def)
qed

section \<open>Decimal text\<close>

fun nat_text :: "nat \<Rightarrow> string" where
  "nat_text n = (if n < 10 then [digit_char n] else nat_text (n div 10) @ [digit_char (n mod 10)])"

declare nat_text.simps [simp del]

definition digits_val :: "string \<Rightarrow> nat" where
  "digits_val s = foldl (\<lambda>a c. 10 * a + digit_val c) 0 s"

text \<open>\<open>strconv.Itoa\<close>, and the zero-padded text of \<open>time\<close>'s \<open>appendInt\<close>.\<close>

definition Itoa :: "int \<Rightarrow> string" where
  "Itoa i = (if i < 0 then CHR ''-'' # nat_text (nat (- i)) else nat_text (nat i))"

definition pad :: "nat \<Rightarrow> nat \<Rightarrow> string" where
  "pad k n = replicate (k - length (nat_text n)) (CHR ''0'') @ nat_text n"

text \<open>\<open>strconv.Atoi\<close>: an optional sign, then decimal digits, within 64 bits.\<close>

definition Atoi :: "string \<Rightarrow> int option" where
  "Atoi s =
     (let (neg, d) = (case s of c # r \<Rightarrow> if c = CHR ''-'' then (True, r)
                                       else if c = CHR ''+'' then (False, r) else (False, s)
                              | [] \<Rightarrow> (False, []));
          v = (if neg then - int (digits_val d) else int (digits_val d))
      in if d \<noteq> [] \<and> list_all is_digit d \<and> - (2 ^ 63) \<le> v \<and> v < 2 ^ 63 then Some v else None)"

lemma digits_val_snoc: "digits_val (s @ [c]) = 10 * digits_val s + digit_val c"
  by (simp add: digits_val_def)

lemma digits_val_Nil [simp]: "digits_val [] = 0"
  by (simp add: digits_val_def)

lemma digits_val_append: "digits_val (s @ t) = digits_val s * 10 ^ length t + digits_val t"
  by (induction t rule: rev_induct) (simp_all add: digits_val_snoc append_assoc [symmetric] del: append_assoc)

lemma digits_val_Cons: "digits_val (c # t) = digit_val c * 10 ^ length t + digits_val t"
  using digits_val_append [of "[c]" t] by (simp add: digits_val_def)

lemma digits_val_zeros [simp]: "digits_val (replicate k (CHR ''0'') @ s) = digits_val s"
  by (induction k) (simp_all add: digits_val_Cons digit_val_def code_def)

lemma nat_text_digits: "nat_text n \<noteq> [] \<and> list_all is_digit (nat_text n)"
proof (induction n rule: nat_text.induct)
  case (1 n)
  then show ?case by (subst (1 2) nat_text.simps) simp
qed

lemma digits_val_nat_text [simp]: "digits_val (nat_text n) = n"
proof (induction n rule: nat_text.induct)
  case (1 n)
  then show ?case by (subst nat_text.simps) (simp add: digits_val_snoc digits_val_Cons)
qed

lemma nat_text_length: "n < 10 ^ k \<Longrightarrow> k > 0 \<Longrightarrow> length (nat_text n) \<le> k"
proof (induction n arbitrary: k rule: nat_text.induct)
  case (1 n)
  show ?case
  proof (cases "n < 10")
    case True
    then show ?thesis using "1.prems" by (subst nat_text.simps) simp
  next
    case False
    then obtain j where k: "k = Suc j" "j > 0"
      using "1.prems" by (cases k; cases "k - 1") auto
    have "n div 10 < 10 ^ j" using "1.prems"(1) k by (simp add: less_mult_imp_div_less)
    with False k have "length (nat_text (n div 10)) \<le> j" using "1.IH" by blast
    then show ?thesis using False k by (subst nat_text.simps) simp
  qed
qed

lemma nat_text_hd: "n > 0 \<Longrightarrow> hd (nat_text n) \<noteq> CHR ''0''"
proof (induction n rule: nat_text.induct)
  case (1 n)
  have z: "digit_char n \<noteq> CHR ''0''" if "n < 10" "n > 0"
    using that digit_val_char [OF that(1)] by (auto simp: digit_val_def code_def)
  show ?case
  proof (cases "n < 10")
    case True
    then show ?thesis using "1.prems" z by (subst nat_text.simps) simp
  next
    case False
    then have "hd (nat_text (n div 10)) \<noteq> CHR ''0''" using "1.IH" by simp
    then show ?thesis using False nat_text_digits [of "n div 10"] by (subst nat_text.simps) simp
  qed
qed

lemma pad_props: "n < 10 ^ k \<Longrightarrow> k > 0 \<Longrightarrow>
    length (pad k n) = k \<and> list_all is_digit (pad k n) \<and> digits_val (pad k n) = n"
  using nat_text_length [of n k] nat_text_digits [of n]
  by (auto simp: pad_def list_all_iff is_digit_def between_def code_def)

lemma Atoi_Itoa: "- (2 ^ 63) \<le> i \<Longrightarrow> i < 2 ^ 63 \<Longrightarrow> Atoi (Itoa i) = Some i"
proof -
  assume b: "- (2 ^ 63) \<le> i" "i < 2 ^ 63"
  obtain c r where cr: "nat_text (nat i) = c # r" "is_digit c"
    using nat_text_digits [of "nat i"] by (cases "nat_text (nat i)") auto
  then have "c \<noteq> CHR ''-''" "c \<noteq> CHR ''+''"
    by (auto simp: is_digit_def between_def code_def)
  then show ?thesis
    using b cr nat_text_digits [of "nat i"] nat_text_digits [of "nat (- i)"]
      digits_val_nat_text [of "nat i"]
    by (auto simp: Atoi_def Itoa_def Let_def)
qed

section \<open>Hexadecimal digits\<close>

definition hex_digit :: "nat \<Rightarrow> char" where
  "hex_digit n = (if n < 10 then byte (0x30 + n) else byte (0x57 + n))"

lemma hex_digit_inject: "m < 16 \<Longrightarrow> n < 16 \<Longrightarrow> hex_digit m = hex_digit n \<Longrightarrow> m = n"
  by (drule arg_cong [where f = code]) (simp add: hex_digit_def del: code_inject split: if_splits)

section \<open>Prefixes and trimming\<close>

definition HasPrefix :: "string \<Rightarrow> string \<Rightarrow> bool" where
  "HasPrefix s p \<longleftrightarrow> take (length p) s = p"

lemma HasPrefix_append: "HasPrefix (p @ s) p"
  by (simp add: HasPrefix_def)

lemma HasPrefix_iff: "HasPrefix s p \<longleftrightarrow> (\<exists>t. s = p @ t)"
  by (auto simp: HasPrefix_def) (metis append_take_drop_id)

text \<open>
  The runes of \<open>unicode.IsSpace\<close> in UTF-8. \<open>strings.TrimSpace\<close> strips them from both
  ends; it decodes the last rune backwards, which for a space rune is to find its encoding
  as a suffix.
\<close>

definition space_runes :: "string list" where
  "space_runes = map (\<lambda>n. [byte n]) [0x09, 0x0A, 0x0B, 0x0C, 0x0D, 0x20]
     @ map (map byte) [[0xC2, 0x85], [0xC2, 0xA0], [0xE1, 0x9A, 0x80]]
     @ map (\<lambda>n. map byte [0xE2, 0x80, n]) ([0x80..<0x8B] @ [0xA8, 0xA9, 0xAF])
     @ map (map byte) [[0xE2, 0x81, 0x9F], [0xE3, 0x80, 0x80]]"

function strip_seqs :: "string list \<Rightarrow> string \<Rightarrow> string" where
  "strip_seqs ws s =
     (case find (\<lambda>w. w \<noteq> [] \<and> HasPrefix s w) ws of
        None \<Rightarrow> s | Some w \<Rightarrow> strip_seqs ws (drop (length w) s))"
  by pat_completeness auto
termination
  by (relation "measure (\<lambda>(ws, s). length s)") (auto simp: find_Some_iff HasPrefix_iff)

declare strip_seqs.simps [simp del]

definition TrimSpace :: "string \<Rightarrow> string" where
  "TrimSpace s = rev (strip_seqs (map rev space_runes) (rev (strip_seqs space_runes s)))"

definition blank :: "string \<Rightarrow> bool" where
  "blank s \<longleftrightarrow> TrimSpace s = []"

lemma strip_seqs_stop:
  "(\<And>w. w \<in> set ws \<Longrightarrow> w \<noteq> [] \<Longrightarrow> \<not> HasPrefix s w) \<Longrightarrow> strip_seqs ws s = s"
  by (subst strip_seqs.simps) (auto simp: find_Some_iff split: option.split)

lemma strip_seqs_Nil [simp]: "strip_seqs ws [] = []"
  by (rule strip_seqs_stop) (simp add: HasPrefix_def)

lemma blank_Nil [simp]: "blank []"
  by (simp add: blank_def TrimSpace_def)

lemma strip_seqs_suffix: "\<exists>p. s = p @ strip_seqs ws s"
proof (induction ws s rule: strip_seqs.induct)
  case (1 ws s)
  show ?case
  proof (cases "find (\<lambda>w. w \<noteq> [] \<and> HasPrefix s w) ws")
    case None
    then show ?thesis by (subst strip_seqs.simps) simp
  next
    case (Some w)
    then obtain p where p: "drop (length w) s = p @ strip_seqs ws (drop (length w) s)"
      using "1.IH" by blast
    have step: "strip_seqs ws s = strip_seqs ws (drop (length w) s)"
      using Some by (simp add: strip_seqs.simps [of ws s])
    have "s = take (length w) s @ drop (length w) s" by simp
    also have "\<dots> = (take (length w) s @ p) @ strip_seqs ws s"
      by (simp only: step append_assoc p [symmetric])
    finally show ?thesis by blast
  qed
qed

text \<open>A string whose first and last byte are printable ASCII is trimmed already.\<close>

definition solid :: "char \<Rightarrow> bool" where
  "solid c \<longleftrightarrow> between 0x21 0x7E c"

lemma hd_last_space_runes:
  "w \<in> set space_runes \<Longrightarrow> w \<noteq> [] \<and> \<not> solid (hd w) \<and> \<not> solid (last w)"
  by (auto simp: space_runes_def solid_def between_def)

lemma strip_seqs_solid:
  assumes "\<And>w. w \<in> set ws \<Longrightarrow> w \<noteq> [] \<Longrightarrow> \<not> solid (hd w)" and "solid (hd s)"
  shows "strip_seqs ws s = s"
  by (rule strip_seqs_stop) (use assms in \<open>fastforce simp: HasPrefix_iff hd_append\<close>)

lemma TrimSpace_solid:
  assumes "s \<noteq> []" "solid (hd s)" "solid (last s)"
  shows "TrimSpace s = s"
proof -
  have "strip_seqs space_runes s = s"
    by (rule strip_seqs_solid) (use assms hd_last_space_runes in auto)
  moreover have "strip_seqs (map rev space_runes) (rev s) = rev s"
    by (rule strip_seqs_solid) (use assms hd_last_space_runes in \<open>auto simp: hd_rev\<close>)
  ultimately show ?thesis by (simp add: TrimSpace_def)
qed

lemma not_blank_solid: "s \<noteq> [] \<Longrightarrow> solid (hd s) \<Longrightarrow> solid (last s) \<Longrightarrow> \<not> blank s"
  by (simp add: blank_def TrimSpace_solid)

text \<open>\<open>strings.TrimLeft(s, "0")\<close> and \<open>strings.TrimRight(s, "0")\<close>.\<close>

definition TrimLeft :: "string \<Rightarrow> char \<Rightarrow> string" where
  "TrimLeft s c = dropWhile (\<lambda>x. x = c) s"

definition TrimRight :: "string \<Rightarrow> char \<Rightarrow> string" where
  "TrimRight s c = rev (dropWhile (\<lambda>x. x = c) (rev s))"

lemma TrimRight_split: "\<exists>k. s = TrimRight s c @ replicate k c"
proof -
  have "takeWhile (\<lambda>x. x = c) r = replicate (length (takeWhile (\<lambda>x. x = c) r)) c" for r
    by (induction r) auto
  then have "rev s = replicate (length (takeWhile (\<lambda>x. x = c) (rev s))) c @ dropWhile (\<lambda>x. x = c) (rev s)"
    by (metis takeWhile_dropWhile_id)
  then have "s = TrimRight s c @ replicate (length (takeWhile (\<lambda>x. x = c) (rev s))) c"
    by (metis TrimRight_def rev_append rev_replicate rev_rev_ident)
  then show ?thesis by blast
qed

section \<open>UTF-8\<close>

definition cont :: "char \<Rightarrow> bool" where
  "cont c \<longleftrightarrow> between 0x80 0xBF c"

text \<open>
  The length of the well-formed UTF-8 sequence at the front of a string, 0 if there is
  none: the first-byte classes and second-byte ranges of \<open>unicode/utf8\<close>.
\<close>

definition rune_size :: "char \<Rightarrow> nat" where
  "rune_size a = (if code a < 0x80 then 1 else if between 0xC2 0xDF a then 2
     else if between 0xE0 0xEF a then 3 else if between 0xF0 0xF4 a then 4 else 0)"

definition second_ok :: "char \<Rightarrow> char \<Rightarrow> bool" where
  "second_ok a b = between
     (if code a = 0xE0 then 0xA0 else if code a = 0xF0 then 0x90 else 0x80)
     (if code a = 0xED then 0x9F else if code a = 0xF4 then 0x8F else 0xBF) b"

definition rune_len :: "string \<Rightarrow> nat" where
  "rune_len s = (case s of
     [] \<Rightarrow> 0
   | a # t \<Rightarrow>
       let k = rune_size a
       in if k = 1 then 1
          else if k \<noteq> 0 \<and> k \<le> length s \<and> second_ok a (hd t) \<and> list_all cont (take (k - 2) (tl t))
          then k else 0)"

fun ValidString :: "string \<Rightarrow> bool" where
  "ValidString [] = True"
| "ValidString (c # s) =
     (let n = rune_len (c # s) in n \<noteq> 0 \<and> ValidString (drop (n - 1) s))"

lemma rune_len_ascii [simp]: "code c < 0x80 \<Longrightarrow> rune_len (c # s) = 1"
  by (simp add: rune_len_def rune_size_def)

lemma rune_size_ge2: "\<not> code c < 0x80 \<Longrightarrow> rune_size c \<noteq> 0 \<Longrightarrow> rune_size c \<ge> 2"
  by (auto simp: rune_size_def split: if_splits)

lemma rune_len_multi: "rune_len (c # cs) \<noteq> 0 \<Longrightarrow> \<not> code c < 0x80 \<Longrightarrow> rune_len (c # cs) \<ge> 2"
  using rune_size_ge2 [of c] by (auto simp: rune_len_def Let_def split: if_splits)

lemma rune_len_length: "rune_len s \<le> length s"
  by (cases s) (simp_all add: rune_len_def Let_def)

text \<open>A complete rune is the same rune whatever follows it.\<close>

lemma rune_len_take:
  assumes "rune_len s \<noteq> 0"
  shows "rune_len (take (rune_len s) s @ t) = rune_len s"
proof -
  from assms obtain a u where s: "s = a # u" by (cases s) (auto simp: rune_len_def)
  show ?thesis
  proof (cases "rune_size a = 1")
    case True
    with s show ?thesis by (simp add: rune_len_def)
  next
    case False
    define k where "k = rune_size a"
    have k: "rune_len s = k" "k \<le> length s" "second_ok a (hd u)" "list_all cont (take (k - 2) (tl u))"
      using assms s False by (auto simp: rune_len_def k_def Let_def split: if_splits)
    have "k \<ge> 2" using rune_size_ge2 [of a] assms k(1) False by (auto simp: k_def rune_size_def)
    then obtain j b v where "k = Suc (Suc j)" "u = b # v"
      using k(2) s by (cases k; cases "k - 1"; cases u) auto
    with k s False show ?thesis
      by (simp add: rune_len_def Let_def k_def [symmetric])
  qed
qed

lemma ValidString_ascii: "list_all (\<lambda>c. code c < 0x80) s \<Longrightarrow> ValidString s"
  by (induction s) auto

text \<open>
  \<open>strings.IndexFunc(s, unicode.IsControl) >= 0\<close> on a valid UTF-8 string: the control
  runes are U+0000-U+001F, U+007F and U+0080-U+009F, the last encoded as C2 80-C2 9F.
\<close>

fun has_control :: "string \<Rightarrow> bool" where
  "has_control [] = False"
| "has_control (c # s) =
     (code c < 0x20 \<or> code c = 0x7F
      \<or> code c = 0xC2 \<and> (case s of b # _ \<Rightarrow> between 0x80 0x9F b | [] \<Rightarrow> False)
      \<or> has_control s)"

section \<open>Anchored patterns\<close>

definition class_match :: "(char \<Rightarrow> bool) \<Rightarrow> (char \<Rightarrow> bool) \<Rightarrow> string \<Rightarrow> bool" where
  "class_match first rest s =
     (case s of [] \<Rightarrow> False | c # cs \<Rightarrow> first c \<and> length cs \<le> 127 \<and> list_all rest cs)"

definition identityPattern :: "string \<Rightarrow> bool" where
  "identityPattern = class_match (\<lambda>c. is_lower c \<or> is_digit c)
     (\<lambda>c. is_lower c \<or> is_digit c \<or> c \<in> set ''._/@:-'')"

definition operationPattern :: "string \<Rightarrow> bool" where
  "operationPattern = class_match (\<lambda>c. is_upper c \<or> is_lower c \<or> is_digit c)
     (\<lambda>c. is_upper c \<or> is_lower c \<or> is_digit c \<or> c \<in> set ''._/:@-'')"

definition executablePattern :: "string \<Rightarrow> bool" where
  "executablePattern = class_match (\<lambda>c. is_lower c \<or> is_digit c)
     (\<lambda>c. is_lower c \<or> is_digit c \<or> c \<in> set ''._-'')"

definition environmentPattern :: "string \<Rightarrow> bool" where
  "environmentPattern = class_match (\<lambda>c. is_upper c \<or> c = CHR ''_'')
     (\<lambda>c. is_upper c \<or> is_digit c \<or> c = CHR ''_'')"

definition is_hex_lower :: "char \<Rightarrow> bool" where
  "is_hex_lower c \<longleftrightarrow> is_digit c \<or> between 0x61 0x66 c"

definition digestPattern :: "string \<Rightarrow> bool" where
  "digestPattern s \<longleftrightarrow> HasPrefix s ''sha256:'' \<and>
     length (drop 7 s) = 64 \<and> list_all is_hex_lower (drop 7 s)"

text \<open>\<open>manifest.go\<close> and \<open>protocol.go\<close> each compile the same digest expression.\<close>

definition authorizationDigestPattern :: "string \<Rightarrow> bool" where
  "authorizationDigestPattern = digestPattern"

lemma digestPattern_intro:
  "length h = 64 \<Longrightarrow> list_all is_hex_lower h \<Longrightarrow> digestPattern (''sha256:'' @ h)"
  by (simp add: digestPattern_def HasPrefix_def)

lemma class_match_all:
  assumes "class_match f r s" "\<And>c. f c \<Longrightarrow> P c" "\<And>c. r c \<Longrightarrow> P c"
  shows "s \<noteq> [] \<and> list_all P s \<and> length s \<le> 128"
  using assms by (auto simp: class_match_def list_all_iff split: list.splits)

lemma special_solid:
  "c \<in> set ''._/@:-'' \<Longrightarrow> solid c" "c \<in> set ''._/:@-'' \<Longrightarrow> solid c"
proof -
  have "\<forall>c \<in> set ''._/@:-''. solid c" "\<forall>c \<in> set ''._/:@-''. solid c" by code_simp+
  then show "c \<in> set ''._/@:-'' \<Longrightarrow> solid c" "c \<in> set ''._/:@-'' \<Longrightarrow> solid c"
    by blast+
qed

lemma alnum_solid: "is_lower c \<or> is_digit c \<or> is_upper c \<Longrightarrow> solid c"
  by (auto simp: is_lower_def is_digit_def is_upper_def solid_def between_def)

lemma identityPattern_solid: "identityPattern s \<Longrightarrow> s \<noteq> [] \<and> list_all solid s"
  unfolding identityPattern_def
  by (drule class_match_all [where P = solid]) (use alnum_solid special_solid in blast)+

lemma operationPattern_solid: "operationPattern s \<Longrightarrow> s \<noteq> [] \<and> list_all solid s"
  unfolding operationPattern_def
  by (drule class_match_all [where P = solid]) (use alnum_solid special_solid in blast)+

lemma executablePattern_solid: "executablePattern s \<Longrightarrow> s \<noteq> [] \<and> list_all solid s"
proof -
  have "solid c" if "is_lower c \<or> is_digit c \<or> c \<in> set ''._-''" for c
    using that alnum_solid special_solid(1) [of c] by auto
  then show "executablePattern s \<Longrightarrow> s \<noteq> [] \<and> list_all solid s"
    unfolding executablePattern_def by (drule_tac class_match_all [where P = solid]) auto
qed

lemma environmentPattern_solid: "environmentPattern s \<Longrightarrow> s \<noteq> [] \<and> list_all solid s"
proof -
  have "solid c" if "is_upper c \<or> is_digit c \<or> c = CHR ''_''" for c
    using that alnum_solid special_solid(1) [of c] by auto
  then show "environmentPattern s \<Longrightarrow> s \<noteq> [] \<and> list_all solid s"
    unfolding environmentPattern_def by (drule_tac class_match_all [where P = solid]) auto
qed

lemma hex_solid: "is_hex_lower c \<Longrightarrow> solid c"
  by (auto simp: is_hex_lower_def is_digit_def between_def solid_def)

lemma is_hex_digit: "n < 16 \<Longrightarrow> is_hex_lower (hex_digit n)"
  by (auto simp: hex_digit_def is_hex_lower_def is_digit_def between_def)

lemma sha_prefix_solid: "list_all solid ''sha256:''"
  by code_simp

lemma digestPattern_solid:
  assumes "digestPattern s"
  shows "s \<noteq> [] \<and> list_all solid s"
proof -
  from assms obtain h where s: "s = ''sha256:'' @ h" and h: "list_all is_hex_lower h"
    by (auto simp: digestPattern_def HasPrefix_iff)
  have "list_all solid h" using h by (auto simp: list_all_iff hex_solid)
  with sha_prefix_solid show ?thesis by (simp only: s list_all_append) simp
qed

lemma solid_list_not_blank: "s \<noteq> [] \<Longrightarrow> list_all solid s \<Longrightarrow> \<not> blank s"
  by (rule not_blank_solid) (auto simp: list_all_iff)

text \<open>Literals are recognised by their top bits, which simplifies fast.\<close>

fun ascii :: "string \<Rightarrow> bool" where
  "ascii [] = True"
| "ascii (c # s) = (\<not> digit7 c \<and> ascii s)"

lemma digit7_code: "\<not> digit7 c \<Longrightarrow> code c < 0x80"
  by (cases c) (auto simp: of_bool_def)

lemma ascii_valid: "ascii s \<Longrightarrow> ValidString s"
proof (rule ValidString_ascii)
  show "ascii s \<Longrightarrow> list_all (\<lambda>c. code c < 0x80) s" by (induction s) (auto intro: digit7_code)
qed

lemma ascii_list: "list_all ascii ss \<Longrightarrow> list_all ValidString ss"
  by (auto simp: list_all_iff intro: ascii_valid)

lemma solid_list_valid: "list_all solid s \<Longrightarrow> ValidString s"
  by (rule ValidString_ascii) (auto simp: list_all_iff solid_def between_def)

lemmas pattern_solid = identityPattern_solid operationPattern_solid executablePattern_solid
  environmentPattern_solid digestPattern_solid

lemma pattern_valid:
  "identityPattern s \<Longrightarrow> ValidString s" "operationPattern s \<Longrightarrow> ValidString s"
  "executablePattern s \<Longrightarrow> ValidString s" "environmentPattern s \<Longrightarrow> ValidString s"
  "digestPattern s \<Longrightarrow> ValidString s"
  using pattern_solid solid_list_valid by blast+

lemma pattern_not_blank:
  "identityPattern s \<Longrightarrow> \<not> blank s" "operationPattern s \<Longrightarrow> \<not> blank s" "digestPattern s \<Longrightarrow> \<not> blank s"
  using pattern_solid solid_list_not_blank by blast+

text \<open>Two solid texts joined by a NUL byte.\<close>

lemma nul_join_inject:
  assumes "CHR 0x00 \<notin> set a" "CHR 0x00 \<notin> set a'" "a @ [CHR 0x00] @ b = a' @ [CHR 0x00] @ b'"
  shows "a = a' \<and> b = b'"
proof -
  have "takeWhile (\<lambda>c. c \<noteq> CHR 0x00) (x @ [CHR 0x00] @ y) = x" if "CHR 0x00 \<notin> set x" for x y :: string
    using that by (induction x) auto
  then show ?thesis using assms by (metis same_append_eq list.inject append_Cons append_Nil)
qed

lemma solid_no_nul: "list_all solid s \<Longrightarrow> CHR 0x00 \<notin> set s"
  by (auto simp: list_all_iff solid_def between_def)

end
