(* ===== verification/Number.thy ===== *)
theory Number
  imports Complex_Main GoText "HOL-Library.Monad_Syntax"
begin

text \<open>
  JSON number literals as text: the grammar of the scanner, the exact rational a literal
  denotes (\<open>math/big\<close>'s \<open>Rat.SetString\<close> on such literals), and the parts of a literal that
  \<open>canonicalDiscoveryNumbers\<close> and \<open>strconv.ParseFloat\<close> work on.
\<close>

section \<open>Number literals\<close>

definition scan_digits :: "string \<Rightarrow> (string \<times> string) option" where
  "scan_digits s = (if takeWhile is_digit s = [] then None
                    else Some (takeWhile is_digit s, dropWhile is_digit s))"

definition scan_sign :: "string \<Rightarrow> string \<times> string" where
  "scan_sign s = (case s of c # r \<Rightarrow> if c = CHR ''-'' then ([c], r) else ([], s) | [] \<Rightarrow> ([], s))"

definition scan_int :: "string \<Rightarrow> (string \<times> string) option" where
  "scan_int s = (case s of
      c # r \<Rightarrow> if c = CHR ''0'' then Some ([c], r) else scan_digits s
    | [] \<Rightarrow> None)"

definition scan_frac :: "string \<Rightarrow> (string \<times> string) option" where
  "scan_frac s = (case s of
      c # r \<Rightarrow> if c = CHR ''.'' then map_option (\<lambda>(d, t). (c # d, t)) (scan_digits r)
               else Some ([], s)
    | [] \<Rightarrow> Some ([], []))"

definition scan_exp :: "string \<Rightarrow> (string \<times> string) option" where
  "scan_exp s = (case s of
      c # r \<Rightarrow>
        if c = CHR ''e'' \<or> c = CHR ''E'' then
          (case r of
             g # t \<Rightarrow> if g = CHR ''+'' \<or> g = CHR ''-''
                      then map_option (\<lambda>(d, u). (c # g # d, u)) (scan_digits t)
                      else map_option (\<lambda>(d, u). (c # d, u)) (scan_digits r)
           | [] \<Rightarrow> None)
        else Some ([], s)
    | [] \<Rightarrow> Some ([], []))"

definition scan_number :: "string \<Rightarrow> (string \<times> string) option" where
  "scan_number s = (let (g, s0) = scan_sign s in do {
     (i, s1) \<leftarrow> scan_int s0;
     (f, s2) \<leftarrow> scan_frac s1;
     (e, s3) \<leftarrow> scan_exp s2;
     Some (g @ i @ f @ e, s3)
   })"

text \<open>\<open>isValidNumber\<close>: the whole text is one number literal.\<close>

definition is_number :: "string \<Rightarrow> bool" where
  "is_number s \<longleftrightarrow> (case scan_number s of Some (l, r) \<Rightarrow> r = [] | None \<Rightarrow> False)"

section \<open>Lengths\<close>

lemma scan_digits_length: "scan_digits s = Some (d, r) \<Longrightarrow> length r < length s"
  by (auto simp: scan_digits_def split: if_splits)
    (metis append_Nil length_append length_greater_0_conv less_add_same_cancel2 takeWhile_dropWhile_id)

lemma scan_sign_length: "length (snd (scan_sign s)) \<le> length s"
  by (auto simp: scan_sign_def split: list.split)

lemma scan_int_length: "scan_int s = Some (d, r) \<Longrightarrow> length r < length s"
  by (auto simp: scan_int_def split: list.splits if_splits dest: scan_digits_length)

lemma scan_frac_length: "scan_frac s = Some (d, r) \<Longrightarrow> length r \<le> length s"
  by (fastforce simp: scan_frac_def split: list.splits if_splits dest: scan_digits_length)

lemma scan_exp_length: "scan_exp s = Some (d, r) \<Longrightarrow> length r \<le> length s"
  by (fastforce simp: scan_exp_def split: list.splits if_splits dest: scan_digits_length)

lemma scan_number_length:
  assumes "scan_number s = Some (l, r)"
  shows "length r < length s"
proof -
  obtain g s0 where g: "scan_sign s = (g, s0)" by fastforce
  from assms g obtain i s1 f s2 e where "scan_int s0 = Some (i, s1)" "scan_frac s1 = Some (f, s2)"
    "scan_exp s2 = Some (e, r)"
    by (auto simp: scan_number_def Let_def split: Option.bind_splits)
  then show ?thesis
    using scan_sign_length [of s] g scan_int_length scan_frac_length scan_exp_length by fastforce
qed

section \<open>A literal in front of other text\<close>

definition stop :: "string \<Rightarrow> bool" where
  "stop r \<longleftrightarrow> r = [] \<or> \<not> is_digit (hd r) \<and> hd r \<notin> {CHR ''.'', CHR ''e'', CHR ''E''}"

named_theorems scan_append "what the scanners split is the input, with or without a suffix"

lemma takeWhile_append_stop:
  "r = [] \<or> \<not> P (hd r) \<Longrightarrow> takeWhile P (s @ r) = takeWhile P s \<and> dropWhile P (s @ r) = dropWhile P s @ r"
  by (induction s) (auto, (cases r; simp)+)

lemma scan_digits_all:
  assumes "list_all is_digit d" "d \<noteq> []" "r = [] \<or> \<not> is_digit (hd r)"
  shows "scan_digits (d @ r) = Some (d, r)"
proof -
  have "takeWhile is_digit (d @ r) = d \<and> dropWhile is_digit (d @ r) = r"
    using assms(1,3) by (induction d) (auto, (cases r; simp)+)
  then show ?thesis using assms(2) by (simp add: scan_digits_def)
qed

lemma scan_digits_append [scan_append]:
  "scan_digits s = Some (d, t) \<Longrightarrow> s = d @ t \<and> d \<noteq> [] \<and> list_all is_digit d"
  by (auto simp: scan_digits_def list_all_iff split: if_splits dest: set_takeWhileD)

lemma scan_digits_stop: "scan_digits s = Some (d, t) \<Longrightarrow> stop r \<Longrightarrow> scan_digits (s @ r) = Some (d, t @ r)"
  using takeWhile_append_stop [of r is_digit s] by (auto simp: scan_digits_def stop_def split: if_splits)

lemma scan_digits_Nil [simp]: "scan_digits [] = None"
  by (simp add: scan_digits_def)

lemma scan_digits_stop_Cons:
  "scan_digits (c # s) = Some (d, t) \<Longrightarrow> stop r \<Longrightarrow> scan_digits (c # s @ r) = Some (d, t @ r)"
  using scan_digits_stop [of "c # s"] by simp

lemma scan_sign_append [scan_append]: "scan_sign s = (g, t) \<Longrightarrow> s = g @ t"
  by (auto simp: scan_sign_def split: list.splits if_splits)

lemma scan_sign_stop: "scan_sign s = (g, t) \<Longrightarrow> s \<noteq> [] \<Longrightarrow> scan_sign (s @ r) = (g, t @ r)"
  by (auto simp: scan_sign_def split: list.splits if_splits)

lemma scan_int_append [scan_append]: "scan_int s = Some (i, t) \<Longrightarrow> s = i @ t \<and> i \<noteq> [] \<and> list_all is_digit i"
  by (auto simp: scan_int_def is_digit_def between_def code_def
      split: list.splits if_splits dest: scan_digits_append)

lemma scan_int_stop: "scan_int s = Some (i, t) \<Longrightarrow> stop r \<Longrightarrow> scan_int (s @ r) = Some (i, t @ r)"
  by (auto simp: scan_int_def split: list.splits if_splits dest: scan_digits_stop)

lemma scan_frac_append [scan_append]:
  "scan_frac s = Some (f, t) \<Longrightarrow> s = f @ t \<and> (f = [] \<or> hd f = CHR ''.'' \<and> tl f \<noteq> []) \<and> list_all is_digit (tl f)"
  by (auto simp: scan_frac_def split: list.splits if_splits dest!: scan_digits_append)

lemma scan_frac_stop:
  assumes "scan_frac s = Some (f, t)" "stop r"
  shows "scan_frac (s @ r) = Some (f, t @ r)"
proof (cases s)
  case Nil
  with assms show ?thesis by (cases r) (auto simp: scan_frac_def stop_def)
next
  case (Cons c u)
  with assms show ?thesis
    by (cases u) (auto simp: scan_frac_def scan_digits_stop scan_digits_stop_Cons split: if_splits)
qed

lemma scan_exp_append [scan_append]: "scan_exp s = Some (e, t) \<Longrightarrow> s = e @ t"
  by (auto simp: scan_exp_def split: list.splits if_splits dest!: scan_digits_append)

lemma scan_exp_stop:
  assumes "scan_exp s = Some (f, t)" "stop r"
  shows "scan_exp (s @ r) = Some (f, t @ r)"
proof (cases s)
  case Nil
  with assms show ?thesis by (cases r) (auto simp: scan_exp_def stop_def)
next
  case (Cons c u)
  with assms show ?thesis
    by (cases u) (auto simp: scan_exp_def scan_digits_stop scan_digits_stop_Cons split: if_splits)
qed

lemma scan_number_Some:
  "scan_number s = Some (l, t) \<longleftrightarrow> (\<exists>g s0 i s1 f s2 e. scan_sign s = (g, s0) \<and> scan_int s0 = Some (i, s1)
     \<and> scan_frac s1 = Some (f, s2) \<and> scan_exp s2 = Some (e, t) \<and> l = g @ i @ f @ e)"
  by (auto simp: scan_number_def Let_def split: prod.splits Option.bind_splits)

lemma scan_number_append [scan_append]: "scan_number s = Some (l, t) \<Longrightarrow> s = l @ t"
  by (auto simp: scan_number_Some dest!: scan_append)

lemma scan_number_stop:
  assumes "scan_number s = Some (l, t)" "stop r"
  shows "scan_number (s @ r) = Some (l, t @ r)"
proof -
  from assms(1) obtain g s0 i s1 f s2 e where *: "scan_sign s = (g, s0)" "scan_int s0 = Some (i, s1)"
      "scan_frac s1 = Some (f, s2)" "scan_exp s2 = Some (e, t)" "l = g @ i @ f @ e"
    by (auto simp: scan_number_Some)
  have "s \<noteq> []" using *(1,2) by (auto simp: scan_sign_def scan_int_def)
  show ?thesis
    unfolding scan_number_Some *(5)
    using scan_sign_stop [OF *(1) \<open>s \<noteq> []\<close>] scan_int_stop [OF *(2) assms(2)]
      scan_frac_stop [OF *(3) assms(2)] scan_exp_stop [OF *(4) assms(2)] by blast
qed

lemma is_number_scan: "is_number l \<longleftrightarrow> scan_number l = Some (l, [])"
  by (auto simp: is_number_def split: option.splits dest: scan_number_append)

lemma scan_number_literal: "is_number l \<Longrightarrow> stop r \<Longrightarrow> scan_number (l @ r) = Some (l, r)"
  using scan_number_stop [of l l "[]" r] by (simp add: is_number_scan)

lemma is_number_hd: "is_number l \<Longrightarrow> l \<noteq> [] \<and> (hd l = CHR ''-'' \<or> is_digit (hd l))"
proof -
  assume "is_number l"
  then obtain g s0 i s1 where "scan_sign l = (g, s0)" "scan_int s0 = Some (i, s1)"
    by (auto simp: is_number_scan scan_number_Some)
  moreover then obtain c j where "i = c # j" "is_digit c" "s0 = i @ s1"
    by (cases i) (auto dest: scan_int_append)
  ultimately show ?thesis
    by (auto simp: scan_sign_def split: list.splits if_splits)
qed

section \<open>The parts and the value of a literal\<close>

text \<open>Sign, integer digits, fraction digits and exponent.\<close>

definition exp_val :: "string \<Rightarrow> int" where
  "exp_val e = (case e of
      c # g # t \<Rightarrow> if g = CHR ''-'' then - int (digits_val t)
                  else if g = CHR ''+'' then int (digits_val t) else int (digits_val (g # t))
    | _ \<Rightarrow> 0)"

definition number_parts :: "string \<Rightarrow> (bool \<times> string \<times> string \<times> int) option" where
  "number_parts s = (let (g, s0) = scan_sign s in do {
     (i, s1) \<leftarrow> scan_int s0;
     (f, s2) \<leftarrow> scan_frac s1;
     (e, s3) \<leftarrow> scan_exp s2;
     (if s3 = [] then Some (g \<noteq> [], i, tl f, exp_val e) else None)
   })"

definition pow10 :: "int \<Rightarrow> rat" where
  "pow10 e = (if e \<ge> 0 then 10 ^ nat e else 1 / 10 ^ nat (- e))"

definition signed :: "bool \<Rightarrow> rat \<Rightarrow> rat" where
  "signed neg x = (if neg then - x else x)"

text \<open>
  \<open>new(big.Rat).SetString(s)\<close>, restricted to number literals: on the texts the SDK passes
  (literals that \<open>decodeParameterJSON\<close> accepted, possibly with white space around them)
  the library succeeds exactly when there is no white space.
\<close>

definition SetString :: "string \<Rightarrow> rat option" where
  "SetString s = do {
     (neg, i, f, e) \<leftarrow> number_parts s;
     Some (signed neg (of_nat (digits_val (i @ f)) * pow10 (e - int (length f))))
   }"

definition IsInt :: "rat \<Rightarrow> bool" where
  "IsInt r \<longleftrightarrow> of_int \<lfloor>r\<rfloor> = r"

text \<open>The shape of a literal, from its parts.\<close>

lemma scan_exp_shape:
  assumes "scan_exp s = Some (ex, [])"
  shows "ex = [] \<or> (\<exists>c t. ex = c # t \<and> (c = CHR ''e'' \<or> c = CHR ''E'') \<and>
           (\<forall>x. Atoi t = Some x \<longrightarrow> x = exp_val ex))"
proof (cases s)
  case (Cons c r)
  show ?thesis
  proof (cases "c = CHR ''e'' \<or> c = CHR ''E''")
    case True
    then obtain g t where r: "r = g # t" using assms Cons by (cases r) (auto simp: scan_exp_def)
    show ?thesis
    proof (cases "g = CHR ''+'' \<or> g = CHR ''-''")
      case sign: True
      then have "ex = c # g # t"
        using assms True Cons r by (auto simp: scan_exp_def dest: scan_digits_append)
      moreover have "Atoi (g # t) = Some x \<Longrightarrow> x = exp_val (c # g # t)" for x
        using sign by (auto simp: Atoi_def exp_val_def Let_def split: if_splits)
      ultimately show ?thesis using True by blast
    next
      case False
      then have "ex = c # g # t"
        using assms True Cons r by (auto simp: scan_exp_def dest: scan_digits_append)
      moreover have "Atoi (g # t) = Some x \<Longrightarrow> x = exp_val (c # g # t)" for x
        using False by (auto simp: Atoi_def exp_val_def Let_def split: if_splits)
      ultimately show ?thesis using True by blast
    qed
  qed (use assms Cons in \<open>auto simp: scan_exp_def\<close>)
qed (use assms in \<open>auto simp: scan_exp_def\<close>)

lemma number_parts_shape:
  assumes "number_parts l = Some (neg, i, f, e)"
  obtains fr ex where "l = (if neg then ''-'' else []) @ i @ fr @ ex"
    "i \<noteq> []" "list_all is_digit i" "list_all is_digit f"
    "fr = [] \<and> f = [] \<or> fr = CHR ''.'' # f" "e = exp_val ex"
    "ex = [] \<or> (\<exists>c t. ex = c # t \<and> (c = CHR ''e'' \<or> c = CHR ''E'') \<and>
       (\<forall>x. Atoi t = Some x \<longrightarrow> x = exp_val ex))"
proof -
  from assms obtain g s0 s1 fr s2 ex where *: "scan_sign l = (g, s0)" "scan_int s0 = Some (i, s1)"
      "scan_frac s1 = Some (fr, s2)" "scan_exp s2 = Some (ex, [])" "neg = (g \<noteq> [])" "f = tl fr" "e = exp_val ex"
    by (auto simp: number_parts_def Let_def split: prod.splits Option.bind_splits if_splits)
  have "g = (if neg then ''-'' else [])"
    using *(1,5) by (auto simp: scan_sign_def split: list.splits if_splits)
  moreover have "fr = [] \<and> f = [] \<or> fr = CHR ''.'' # f"
    using scan_frac_append [OF *(3)] *(6) by (cases fr) auto
  ultimately show ?thesis
    using that [of fr ex] * scan_sign_append [OF *(1)] scan_int_append [OF *(2)] scan_frac_append [OF *(3)]
      scan_exp_append [OF *(4)] scan_exp_shape [OF *(4)] by auto
qed

lemma number_parts_is_number: "is_number s \<longleftrightarrow> number_parts s \<noteq> None"
  by (auto simp: is_number_def scan_number_def number_parts_def Let_def
      split: prod.splits Option.bind_splits)

lemma SetString_is_number: "is_number s \<longleftrightarrow> SetString s \<noteq> None"
  by (auto simp: number_parts_is_number SetString_def split: Option.bind_splits)

end
