(* ===== verification/Float64.thy ===== *)
theory Float64
  imports Number
begin

text \<open>
  \<open>float64\<close> as \<open>encoding/json\<close> uses it: a number literal decoded into \<open>any\<close> is rounded to
  the nearest double (ties to even, overflow is an error: \<open>strconv.ParseFloat\<close>), and a
  double is written with the fewest digits that read back as the same double, in exponent
  form below 1e-6 and from 1e21 on.
\<close>

section \<open>Rounding\<close>

text \<open>A finite double: sign, mantissa below \<open>2 ^ 53\<close>, binary exponent.\<close>

datatype f64 = F64 bool nat int

fun bitlen :: "nat \<Rightarrow> nat" where
  "bitlen n = (if n = 0 then 0 else Suc (bitlen (n div 2)))"

declare bitlen.simps [simp del]

text \<open>The fraction \<open>n / d\<close> scaled by \<open>b\<^sup>-\<^sup>e\<close>.\<close>

definition scale :: "nat \<Rightarrow> int \<Rightarrow> nat \<times> nat \<Rightarrow> nat \<times> nat" where
  "scale b e nd = (if e \<ge> 0 then (fst nd, snd nd * b ^ nat e) else (fst nd * b ^ nat (- e), snd nd))"

definition round_even :: "nat \<times> nat \<Rightarrow> nat" where
  "round_even nd = (let q = fst nd div snd nd; r = fst nd mod snd nd
     in if 2 * r < snd nd \<or> 2 * r = snd nd \<and> even q then q else Suc q)"

definition round_f64 :: "bool \<Rightarrow> nat \<times> nat \<Rightarrow> f64 option" where
  "round_f64 neg nd =
     (if fst nd = 0 then Some (F64 neg 0 (-1074))
      else let e0 = int (bitlen (fst nd)) - int (bitlen (snd nd)) - 53;
               (n, d) = scale 2 e0 nd;
               e1 = max (if n \<ge> 2 ^ 53 * d then e0 + 1 else e0) (-1074);
               q = round_even (scale 2 e1 nd);
               (m, e) = (if q = 2 ^ 53 then (2 ^ 52, e1 + 1) else (q, e1))
           in if e > 971 then None else Some (F64 neg m e))"

definition ParseFloat :: "string \<Rightarrow> f64 option" where
  "ParseFloat s = do {
     (neg, i, f, e) \<leftarrow> number_parts s;
     round_f64 neg (scale 10 (int (length f) - e) (digits_val (i @ f), 1))
   }"

section \<open>Shortest text\<close>

definition magnitude :: "f64 \<Rightarrow> nat \<times> nat" where
  "magnitude x = (case x of F64 _ m e \<Rightarrow> scale 2 (- e) (m, 1))"

text \<open>The position of the decimal point: \<open>10 ^ (p - 1) \<le> n / d < 10 ^ p\<close>.\<close>

definition point :: "nat \<times> nat \<Rightarrow> int" where
  "point nd =
     (if fst nd \<ge> snd nd then int (length (nat_text (fst nd div snd nd)))
      else case find (\<lambda>j. fst nd * 10 ^ j \<ge> snd nd) [1..<400] of
             Some j \<Rightarrow> 1 - int j | None \<Rightarrow> 0)"

text \<open>
  The \<open>n\<close>-digit decimal \<open>c * 10\<^sup>k\<close> nearest to the double, of the two around it, among those
  that read back as it.
\<close>

definition candidate :: "f64 \<Rightarrow> nat \<Rightarrow> (nat \<times> int) option" where
  "candidate x n =
     (let nd = magnitude x; k = point nd - int n; (a, b) = scale 10 k nd; lo = a div b;
          good = (\<lambda>c. round_f64 False (scale 10 (- k) (c, 1))
                     = (case x of F64 _ m e \<Rightarrow> Some (F64 False m e)))
      in if good lo \<and> good (Suc lo) then Some (round_even (a, b), k)
         else if good lo then Some (lo, k)
         else if good (Suc lo) then Some (Suc lo, k) else None)"

text \<open>Seventeen digits always suffice; the exact value is the (unreached) fallback.\<close>

definition shortest :: "f64 \<Rightarrow> nat \<times> int" where
  "shortest x =
     (case find (\<lambda>n. candidate x n \<noteq> None) [1..<18] of
        Some n \<Rightarrow> the (candidate x n)
      | None \<Rightarrow> (case x of F64 _ m e \<Rightarrow>
                   if e \<ge> 0 then (m * 2 ^ nat e, 0) else (m * 5 ^ nat (- e), e)))"

definition fixed_text :: "string \<Rightarrow> int \<Rightarrow> string" where
  "fixed_text ds p =
     (if p \<le> 0 then ''0.'' @ replicate (nat (- p)) (CHR ''0'') @ ds
      else if length ds \<le> nat p then ds @ replicate (nat p - length ds) (CHR ''0'')
      else take (nat p) ds @ ''.'' @ drop (nat p) ds)"

definition exponent_text :: "string \<Rightarrow> int \<Rightarrow> string" where
  "exponent_text ds p =
     take 1 ds @ (if length ds = 1 then [] else CHR ''.'' # drop 1 ds)
     @ (if p - 1 < 0 then ''e-'' else ''e+'') @ nat_text (nat (abs (p - 1)))"

definition float_text :: "f64 \<Rightarrow> string" where
  "float_text x = (case x of F64 neg m e \<Rightarrow>
     (if neg then ''-'' else [])
     @ (if m = 0 then ''0''
        else let (c, k) = shortest x; p = int (length (nat_text c)) + k;
                 ds = TrimRight (nat_text c) (CHR ''0'')
             in if p < -5 \<or> p > 21 then exponent_text ds p else fixed_text ds p))"

end
