(* ===== verification/Json.thy ===== *)
theory Json
  imports Float64
begin

text \<open>
  \<open>encoding/json\<close> as the SDK uses it: the grammar accepted by \<open>json.Valid\<close>,
  \<open>json.Unmarshal\<close> and \<open>json.Decoder\<close>, string literals with their escapes and the
  replacement of invalid UTF-8, and the compact text \<open>json.Marshal\<close> writes.

  A parsed text is a tree of the dynamic types of Go's \<open>any\<close>: \<open>JNumber\<close> is a
  \<open>json.Number\<close> (the literal's text) and \<open>JFloat\<close> a \<open>float64\<close>. The tree of a text keeps
  the members of an object in their order, duplicates included; what a decoder makes of it
  is said by the functions over the tree.
\<close>

section \<open>Trees\<close>

datatype jval =
    JNull
  | JBool bool
  | JNumber string
  | JFloat f64
  | JString string
  | JArray "jval list"
  | JObject "(string \<times> jval) list"

section \<open>String literals\<close>

definition hex_val :: "char \<Rightarrow> nat option" where
  "hex_val c = (if is_digit c then Some (code c - 0x30)
     else if between 0x61 0x66 c then Some (code c - 0x57)
     else if between 0x41 0x46 c then Some (code c - 0x37) else None)"

definition hex4 :: "string \<Rightarrow> nat option" where
  "hex4 s = (case s of
      a # b # c # d # _ \<Rightarrow> do {
        a \<leftarrow> hex_val a; b \<leftarrow> hex_val b; c \<leftarrow> hex_val c; d \<leftarrow> hex_val d;
        Some (((a * 16 + b) * 16 + c) * 16 + d)
      }
    | _ \<Rightarrow> None)"

definition encode_rune :: "nat \<Rightarrow> string" where
  "encode_rune r =
     (if r < 0x80 then [byte r]
      else if r < 0x800 then [byte (0xC0 + r div 64), byte (0x80 + r mod 64)]
      else if r < 0x10000 then
        [byte (0xE0 + r div 4096), byte (0x80 + r div 64 mod 64), byte (0x80 + r mod 64)]
      else [byte (0xF0 + r div 262144), byte (0x80 + r div 4096 mod 64),
            byte (0x80 + r div 64 mod 64), byte (0x80 + r mod 64)])"

definition replacement :: string where
  "replacement = encode_rune 0xFFFD"

definition surrogate :: "nat \<Rightarrow> bool" where
  "surrogate r \<longleftrightarrow> 0xD800 \<le> r \<and> r < 0xE000"

text \<open>A high surrogate followed by \<open>\\uXXXX\<close> with a low one: \<open>utf16.DecodeRune\<close>.\<close>

definition surrogate_pair :: "nat \<Rightarrow> string \<Rightarrow> nat option" where
  "surrogate_pair r s =
     (if r < 0xDC00 then
        (case s of a # b # t \<Rightarrow>
           if a = CHR 0x5C \<and> b = CHR ''u'' then
             (case hex4 t of
                Some r2 \<Rightarrow> if 0xDC00 \<le> r2 \<and> r2 < 0xE000
                            then Some (0x10000 + (r - 0xD800) * 1024 + (r2 - 0xDC00)) else None
              | None \<Rightarrow> None)
           else None
         | _ \<Rightarrow> None)
      else None)"

definition simple_escape :: "char \<Rightarrow> char option" where
  "simple_escape e =
     (if e \<in> {CHR 0x22, CHR 0x5C, CHR ''/''} then Some e
      else if e = CHR ''b'' then Some (CHR 0x08) else if e = CHR ''f'' then Some (CHR 0x0C)
      else if e = CHR ''n'' then Some (CHR 0x0A) else if e = CHR ''r'' then Some (CHR 0x0D)
      else if e = CHR ''t'' then Some (CHR 0x09) else None)"

definition prepend :: "string \<Rightarrow> (string \<times> string) option \<Rightarrow> (string \<times> string) option" where
  "prepend p r = map_option (\<lambda>(s, t). (p @ s, t)) r"

text \<open>The rest of a string literal after its opening quote: its value and what follows.\<close>

fun scan_string :: "string \<Rightarrow> (string \<times> string) option" where
  "scan_string [] = None"
| "scan_string (c # cs) =
     (if c = CHR 0x22 then Some ([], cs)
      else if c = CHR 0x5C then
        (case cs of
           [] \<Rightarrow> None
         | e # es \<Rightarrow>
             if e = CHR ''u'' then
               (case hex4 es of
                  None \<Rightarrow> None
                | Some r \<Rightarrow>
                    if surrogate r then
                      (case surrogate_pair r (drop 4 es) of
                         Some q \<Rightarrow> prepend (encode_rune q) (scan_string (drop 10 es))
                       | None \<Rightarrow> prepend replacement (scan_string (drop 4 es)))
                    else prepend (encode_rune r) (scan_string (drop 4 es)))
             else
               (case simple_escape e of
                  None \<Rightarrow> None
                | Some b \<Rightarrow> prepend [b] (scan_string es)))
      else if code c < 0x20 then None
      else let n = rune_len (c # cs)
           in if n = 0 then prepend replacement (scan_string cs)
              else prepend (take n (c # cs)) (scan_string (drop (n - 1) cs)))"

section \<open>Values\<close>

definition is_ws :: "char \<Rightarrow> bool" where
  "is_ws c \<longleftrightarrow> c \<in> {CHR 0x20, CHR 0x09, CHR 0x0A, CHR 0x0D}"

definition skip_ws :: "string \<Rightarrow> string" where
  "skip_ws s = dropWhile is_ws s"

definition scan_word :: "string \<Rightarrow> 'a \<Rightarrow> string \<Rightarrow> ('a \<times> string) option" where
  "scan_word w v s = (if HasPrefix s w then Some (v, drop (length w) s) else None)"

text \<open>A value that is not an array or object.\<close>

definition scan_scalar :: "string \<Rightarrow> (jval \<times> string) option" where
  "scan_scalar s = (case s of
      [] \<Rightarrow> None
    | c # r \<Rightarrow>
        if c = CHR 0x22 then map_option (\<lambda>(t, u). (JString t, u)) (scan_string r)
        else if c = CHR ''t'' then scan_word ''true'' (JBool True) s
        else if c = CHR ''f'' then scan_word ''false'' (JBool False) s
        else if c = CHR ''n'' then scan_word ''null'' JNull s
        else map_option (\<lambda>(l, u). (JNumber l, u)) (scan_number s))"

text \<open>The member name and colon that precede a member's value.\<close>

definition scan_name :: "string \<Rightarrow> (string \<times> string) option" where
  "scan_name s = do {
     s \<leftarrow> (case skip_ws s of c # r \<Rightarrow> if c = CHR 0x22 then Some r else None | [] \<Rightarrow> None);
     (k, s) \<leftarrow> scan_string s;
     (case skip_ws s of c # r \<Rightarrow> if c = CHR '':'' then Some (k, r) else None | [] \<Rightarrow> None)
   }"

lemma prepend_Some: "prepend p r = Some (v, t) \<longleftrightarrow> (\<exists>u. r = Some (u, t) \<and> v = p @ u)"
  by (cases r) (auto simp: prepend_def)

lemma scan_string_length: "scan_string s = Some (v, r) \<Longrightarrow> length r < length s"
proof (induction s arbitrary: v rule: length_induct)
  case (1 s)
  from "1.prems" obtain c cs where s: "s = c # cs" by (cases s) auto
  have IH: "length r \<le> length cs" if "scan_string t = Some (u, r)" "length t \<le> length cs" for t u
    using "1.IH" that s by (metis less_Suc_eq_le length_Cons less_imp_le_nat order.trans)
  have "r = cs \<or> (\<exists>t u. scan_string t = Some (u, r) \<and> length t \<le> length cs)"
    using "1.prems" unfolding s
    by (fastforce simp: prepend_Some Let_def split: if_splits list.splits option.splits)
  then show ?case using IH by (auto simp: s less_Suc_eq_le)
qed

lemma skip_ws_length: "length (skip_ws s) \<le> length s"
  by (simp add: skip_ws_def length_dropWhile_le)

lemma scan_word_length: "scan_word w v s = Some (x, r) \<Longrightarrow> w \<noteq> [] \<Longrightarrow> length r < length s"
  by (cases w) (auto simp: scan_word_def HasPrefix_iff split: if_splits)

lemma scan_scalar_length: "scan_scalar s = Some (v, r) \<Longrightarrow> length r < length s"
  by (auto simp: scan_scalar_def split: list.splits if_splits
      dest: scan_string_length scan_word_length scan_number_length)

lemma scan_name_length:
  assumes "scan_name s = Some (k, r)"
  shows "length r < length s"
proof -
  from assms obtain s1 s2 where 1: "skip_ws s = CHR 0x22 # s1" and 2: "scan_string s1 = Some (k, s2)"
    and 3: "skip_ws s2 = CHR '':'' # r"
    by (auto simp: scan_name_def split: Option.bind_splits list.splits if_splits)
  show ?thesis
    using 1 3 scan_string_length [OF 2] skip_ws_length [of s] skip_ws_length [of s2] by simp
qed

text \<open>
  A value, the members after the opening brace or a comma, and the elements after the
  opening bracket or a comma. The first argument is how many more arrays and objects may be
  opened (\<open>maxNestingDepth\<close> of the scanner).
\<close>

function (sequential) scan_value :: "nat \<Rightarrow> string \<Rightarrow> (jval \<times> string) option"
  and scan_members :: "nat \<Rightarrow> string \<Rightarrow> ((string \<times> jval) list \<times> string) option"
  and scan_elements :: "nat \<Rightarrow> string \<Rightarrow> (jval list \<times> string) option"
where
  "scan_value d s =
     (case skip_ws s of
        [] \<Rightarrow> None
      | c # r \<Rightarrow>
          if c = CHR ''{'' then
            (if d = 0 then None
             else if HasPrefix (skip_ws r) ''}'' then Some (JObject [], tl (skip_ws r))
             else map_option (\<lambda>(ms, t). (JObject ms, t)) (scan_members (d - 1) r))
          else if c = CHR ''['' then
            (if d = 0 then None
             else if HasPrefix (skip_ws r) '']'' then Some (JArray [], tl (skip_ws r))
             else map_option (\<lambda>(es, t). (JArray es, t)) (scan_elements (d - 1) r))
          else scan_scalar (c # r))"
| "scan_members d s =
     (case scan_name s of
        None \<Rightarrow> None
      | Some (k, s1) \<Rightarrow>
          (case scan_value d s1 of
             None \<Rightarrow> None
           | Some (v, s2) \<Rightarrow>
               (case skip_ws s2 of
                  [] \<Rightarrow> None
                | c # s3 \<Rightarrow>
                    if c = CHR '','' then map_option (\<lambda>(ms, t). ((k, v) # ms, t)) (scan_members d s3)
                    else if c = CHR ''}'' then Some ([(k, v)], s3) else None)))"
| "scan_elements d s =
     (case scan_value d s of
        None \<Rightarrow> None
      | Some (v, s2) \<Rightarrow>
          (case skip_ws s2 of
             [] \<Rightarrow> None
           | c # s3 \<Rightarrow>
               if c = CHR '','' then map_option (\<lambda>(es, t). (v # es, t)) (scan_elements d s3)
               else if c = CHR '']'' then Some ([v], s3) else None))"
  by pat_completeness auto

text \<open>What each of them consumes, as partial facts first: termination rests on them.\<close>

lemma HasPrefix1_length: "HasPrefix (skip_ws r) [c] \<Longrightarrow> length (tl (skip_ws r)) < length r"
  using skip_ws_length [of r] by (auto simp: HasPrefix_iff)

lemma scan_lengths:
  "scan_value_scan_members_scan_elements_dom (Inl (d, s)) \<Longrightarrow>
     (\<forall>v r. scan_value d s = Some (v, r) \<longrightarrow> length r < length s)"
  "scan_value_scan_members_scan_elements_dom (Inr (Inl (d, s))) \<Longrightarrow>
     (\<forall>ms r. scan_members d s = Some (ms, r) \<longrightarrow> length r < length s)"
  "scan_value_scan_members_scan_elements_dom (Inr (Inr (d, s))) \<Longrightarrow>
     (\<forall>es r. scan_elements d s = Some (es, r) \<longrightarrow> length r < length s)"
proof (induction d s and d s and d s rule: scan_value_scan_members_scan_elements.pinduct)
  case (1 d s)
  have "length r < length (skip_ws s)" if "scan_value d s = Some (v, r)" for v r
    using that "1.IH" "1.hyps"
    by (auto simp: scan_value.psimps split: list.splits if_splits dest!: HasPrefix1_length
        scan_scalar_length)
  then show ?case using skip_ws_length [of s] by fastforce
next
  case (2 d s)
  show ?case
  proof (intro allI impI)
    fix ms r
    assume m: "scan_members d s = Some (ms, r)"
    then obtain k s1 v s2 where n: "scan_name s = Some (k, s1)" and v: "scan_value d s1 = Some (v, s2)"
      using "2.hyps" by (auto simp: scan_members.psimps split: option.splits prod.splits)
    obtain c s3 where c: "skip_ws s2 = c # s3"
      using m "2.hyps" n v by (auto simp: scan_members.psimps split: list.splits)
    have len: "length s1 < length s" "length s2 < length s1" "length s3 < length s2"
      using scan_name_length [OF n] "2.IH"(1) [OF n refl] v skip_ws_length [of s2] c by auto
    have "r = s3 \<or> (\<exists>ms'. scan_members d s3 = Some (ms', r))"
      using m "2.hyps" n v c by (auto simp: scan_members.psimps [OF "2.hyps"] split: if_splits)
    then show "length r < length s"
      using len "2.IH"(2) [OF n refl v refl c] m n v c
      by (auto simp: scan_members.psimps [OF "2.hyps"] split: if_splits)
  qed
next
  case (3 d s)
  show ?case
  proof (intro allI impI)
    fix es r
    assume m: "scan_elements d s = Some (es, r)"
    then obtain v s2 where v: "scan_value d s = Some (v, s2)"
      using "3.hyps" by (auto simp: scan_elements.psimps split: option.splits)
    obtain c s3 where c: "skip_ws s2 = c # s3"
      using m "3.hyps" v by (auto simp: scan_elements.psimps split: list.splits)
    have "length s2 < length s" "length s3 < length s2"
      using "3.IH"(1) v skip_ws_length [of s2] c by auto
    then show "length r < length s"
      using "3.IH"(2) [OF v refl c] m v c
      by (auto simp: scan_elements.psimps [OF "3.hyps"] split: if_splits)
  qed
qed

termination scan_value
proof (relation "measure (\<lambda>x. case x of Inl (d, s) \<Rightarrow> 2 * length s
     | Inr (Inl (d, s)) \<Rightarrow> 2 * length s + 1 | Inr (Inr (d, s)) \<Rightarrow> 2 * length s + 1)", goal_cases)
  case (2 d s c r)
  then show ?case using skip_ws_length [of s] by auto
next
  case (3 d s c r)
  then show ?case using skip_ws_length [of s] by auto
next
  case (4 d s p k s1)
  then show ?case using scan_name_length by fastforce
next
  case (5 d s p k s1 q v s2 c s3)
  then show ?case
    using scan_name_length [of s k s1] scan_lengths(1) [of d s1] skip_ws_length [of s2] by auto
next
  case (7 d s p v s2 c s3)
  then show ?case using scan_lengths(1) [of d s] skip_ws_length [of s2] by auto
qed auto

declare scan_value.simps [simp del] scan_members.simps [simp del] scan_elements.simps [simp del]

text \<open>One value with nothing but white space around it.\<close>

definition maxNestingDepth :: nat where
  "maxNestingDepth = 10000"

definition parse_json :: "string \<Rightarrow> jval option" where
  "parse_json s = (case scan_value maxNestingDepth s of
     Some (v, r) \<Rightarrow> if skip_ws r = [] then Some v else None | None \<Rightarrow> None)"

definition json_Valid :: "string \<Rightarrow> bool" where
  "json_Valid s \<longleftrightarrow> parse_json s \<noteq> None"

end
