(* ===== verification/Parameters.thy ===== *)
theory Parameters
  imports Json
begin

text \<open>
  Parameter values in \<open>constraints.go\<close>: the strict decoder \<open>decodeParameterJSON\<close> (no
  duplicate keys, bounded size, nesting and numbers, exact number literals) and the type,
  order and equality tests on decoded values.

  A decoded value is a \<open>jval\<close> without \<open>JFloat\<close>; a Go map is an association list with
  distinct keys, in the order the map happens to be iterated. The decoder's token stream is
  the tree of the text: \<open>readParameterValue\<close> walks it with the checks the code makes at each
  token. A text that the scanner rejects is an error in both.
\<close>

section \<open>The strict decoder\<close>

text \<open>\<open>strings.IndexAny(v, "eE")\<close> and the \<open>strconv.Atoi\<close> of what follows.\<close>

definition exponent_suffix :: "string \<Rightarrow> string option" where
  "exponent_suffix v = (case dropWhile (\<lambda>c. c \<noteq> CHR ''e'' \<and> c \<noteq> CHR ''E'') v of
     [] \<Rightarrow> None | _ # t \<Rightarrow> Some t)"

definition read_number :: "string \<Rightarrow> jval result" where
  "read_number v =
     (if length v > 128 then fail ''numeric parameter exceeds bounds''
      else if (case exponent_suffix v of
                 None \<Rightarrow> False
               | Some t \<Rightarrow> (case Atoi t of None \<Rightarrow> True | Some x \<Rightarrow> x < -128 \<or> x > 128))
      then fail ''numeric exponent exceeds bounds''
      else if SetString v = None then fail ''invalid parameter number''
      else Inr (JNumber v))"

fun readParameterValue :: "jval \<Rightarrow> nat \<Rightarrow> jval result"
  and read_object :: "(string \<times> jval) list \<Rightarrow> (string \<times> jval) list \<Rightarrow> nat \<Rightarrow> (string \<times> jval) list result"
  and read_array :: "jval list \<Rightarrow> nat \<Rightarrow> jval list result"
where
  "readParameterValue token depth =
     (if depth > 16 then fail ''parameter JSON nesting exceeds bounds''
      else case token of
        JNumber v \<Rightarrow> read_number v
      | JObject members \<Rightarrow> and_then (read_object members [] depth) (\<lambda>obj. Inr (JObject obj))
      | JArray elements \<Rightarrow> and_then (read_array elements depth) (\<lambda>arr. Inr (JArray arr))
      | v \<Rightarrow> Inr v)"
| "read_object [] obj depth = Inr obj"
| "read_object ((name, token) # members) obj depth =
     (if name \<in> fst ` set obj then fail ''duplicate parameter key''
      else and_then (readParameterValue token (depth + 1))
             (\<lambda>v. read_object members (obj @ [(name, v)]) depth))"
| "read_array [] depth = Inr []"
| "read_array (token # elements) depth =
     and_then (readParameterValue token (depth + 1))
       (\<lambda>v. and_then (read_array elements depth) (\<lambda>vs. Inr (v # vs)))"

definition decodeParameterJSON :: "string \<Rightarrow> jval result" where
  "decodeParameterJSON raw =
     (if raw = [] \<or> length raw > 64 * 1024 then fail ''parameter JSON exceeds bounds''
      else case parse_json raw of
             None \<Rightarrow> fail ''invalid parameter JSON''
           | Some token \<Rightarrow> readParameterValue token 0)"

section \<open>Tests on decoded values\<close>

text \<open>A Go map has at most one entry per key; the entry is found by \<open>map_of\<close>.\<close>

definition parameterType :: "jval \<Rightarrow> string \<Rightarrow> bool" where
  "parameterType value kind =
     (if kind = ''string'' then (case value of JString _ \<Rightarrow> True | _ \<Rightarrow> False)
      else if kind = ''boolean'' then (case value of JBool _ \<Rightarrow> True | _ \<Rightarrow> False)
      else if kind = ''number'' \<or> kind = ''integer'' then
        (case value of
           JNumber n \<Rightarrow> (case SetString n of
                            Some r \<Rightarrow> kind = ''number'' \<or> IsInt r | None \<Rightarrow> False)
         | _ \<Rightarrow> False)
      else if kind = ''object'' then (case value of JObject _ \<Rightarrow> True | _ \<Rightarrow> False)
      else if kind = ''array'' then (case value of JArray _ \<Rightarrow> True | _ \<Rightarrow> False)
      else False)"

text \<open>\<open>x.Cmp(y)\<close> dereferences the rationals, which are nil when \<open>SetString\<close> failed.\<close>

definition compareNumber :: "string \<Rightarrow> string \<Rightarrow> int result" where
  "compareNumber a b =
     (case (SetString a, SetString b) of
        (Some x, Some y) \<Rightarrow> Inr (if x < y then -1 else if x = y then 0 else 1)
      | _ \<Rightarrow> Inl Panic)"

text \<open>
  Equality of two decoded values. Their literals are all accepted by \<open>SetString\<close>, so the
  comparison of numbers does not panic here.
\<close>

lemma size_member:
  "(k, v) \<in> set ms \<Longrightarrow> size v \<le> size_list (size_prod (\<lambda>_. 0) size) ms"
  "w \<in> set ws \<Longrightarrow> size w \<le> size_list size ws" for v w :: jval
  by (induction ms, auto) (induction ws, auto)

function parameterEqual :: "jval \<Rightarrow> jval \<Rightarrow> bool" where
  "parameterEqual a b =
     (case a of
        JNumber x \<Rightarrow> (case b of JNumber y \<Rightarrow> compareNumber x y = Inr 0 | _ \<Rightarrow> False)
      | JObject x \<Rightarrow>
          (case b of
             JObject y \<Rightarrow> length x = length y \<and>
               list_all (\<lambda>(k, v). case map_of y k of Some w \<Rightarrow> parameterEqual v w | None \<Rightarrow> False) x
           | _ \<Rightarrow> False)
      | JArray x \<Rightarrow>
          (case b of
             JArray y \<Rightarrow> length x = length y \<and> list_all (\<lambda>(v, w). parameterEqual v w) (zip x y)
           | _ \<Rightarrow> False)
      | _ \<Rightarrow> a = b)"
  by pat_completeness auto
termination
  by (relation "measure (\<lambda>(a, b). size a)")
    (auto dest!: size_member set_zip_leftD simp: less_Suc_eq_le)

declare parameterEqual.simps [simp del]

section \<open>What the strict decoder returns\<close>

text \<open>
  Values the decoder lets through: bounded number literals that denote a rational, objects
  with distinct member names, no doubles.
\<close>

definition bounded_number :: "string \<Rightarrow> bool" where
  "bounded_number l \<longleftrightarrow> is_number l \<and> length l \<le> 128 \<and>
     (case exponent_suffix l of None \<Rightarrow> True
      | Some t \<Rightarrow> (case Atoi t of None \<Rightarrow> False | Some x \<Rightarrow> -128 \<le> x \<and> x \<le> 128))"

fun param_value :: "jval \<Rightarrow> bool" where
  "param_value (JNumber l) = bounded_number l"
| "param_value (JFloat _) = False"
| "param_value (JArray vs) = list_all param_value vs"
| "param_value (JObject ms) = (distinct (map fst ms) \<and> list_all (\<lambda>(_, v). param_value v) ms)"
| "param_value v = True"

text \<open>How many levels of members or elements a value has.\<close>

fun levels :: "jval \<Rightarrow> nat" where
  "levels (JArray vs) = foldr (\<lambda>v n. max (Suc (levels v)) n) vs 0"
| "levels (JObject ms) = foldr (\<lambda>(_, v) n. max (Suc (levels v)) n) ms 0"
| "levels v = 0"

lemma levels_containers [simp]:
  "levels (JArray []) = 0" "levels (JObject []) = 0"
  "levels (JArray (v # vs)) = max (Suc (levels v)) (levels (JArray vs))"
  "levels (JObject ((k, v) # ms)) = max (Suc (levels v)) (levels (JObject ms))"
  by simp_all

declare levels.simps(1,2) [simp del]

lemma levels_snoc: "levels (JObject (ms @ [(k, v)])) = max (levels (JObject ms)) (Suc (levels v))"
  by (induction ms) auto

declare readParameterValue.simps [simp del]

text \<open>The scanner yields literals, never doubles.\<close>

fun scanned :: "jval \<Rightarrow> bool" where
  "scanned (JFloat _) = False"
| "scanned (JArray vs) = list_all scanned vs"
| "scanned (JObject ms) = list_all (\<lambda>(_, v). scanned v) ms"
| "scanned v = True"

lemma scan_scalar_scanned: "scan_scalar s = Some (v, r) \<Longrightarrow> scanned v"
  by (auto simp: scan_scalar_def scan_word_def split: list.splits if_splits)

lemma scan_scanned:
  "scan_value d s = Some (v, r) \<Longrightarrow> scanned v"
  "scan_members d s = Some (ms, r) \<Longrightarrow> list_all (\<lambda>(_, v). scanned v) ms"
  "scan_elements d s = Some (es, r) \<Longrightarrow> list_all scanned es"
proof (induction d s and d s and d s arbitrary: v r and ms r and es r
    rule: scan_value_scan_members_scan_elements.induct)
  case (1 d s)
  then obtain c t where c: "skip_ws s = c # t" by (cases "skip_ws s") (auto simp: scan_value.simps [of d s])
  show ?case
    using "1.prems" "1.IH"(1) [OF c] "1.IH"(2) [OF c]
    by (auto simp: scan_value.simps [of d s] c split: if_splits dest: scan_scalar_scanned)
next
  case (2 d s)
  then obtain k s1 w s2 where n: "scan_name s = Some (k, s1)" and w: "scan_value d s1 = Some (w, s2)"
    by (auto simp: scan_members.simps [of d s] split: option.splits)
  from "2.prems" n w obtain c t where c: "skip_ws s2 = c # t"
    by (cases "skip_ws s2") (auto simp: scan_members.simps [of d s])
  show ?case
    using "2.prems" "2.IH"(1) [OF n refl w] "2.IH"(2) [OF n refl w refl c]
    by (auto simp: scan_members.simps [of d s] n w c split: if_splits)
next
  case (3 d s)
  then obtain w s2 where w: "scan_value d s = Some (w, s2)"
    by (auto simp: scan_elements.simps [of d s] split: option.splits)
  from "3.prems" w obtain c t where c: "skip_ws s2 = c # t"
    by (cases "skip_ws s2") (auto simp: scan_elements.simps [of d s])
  show ?case
    using "3.prems" "3.IH"(1) [OF w] "3.IH"(2) [OF w refl c]
    by (auto simp: scan_elements.simps [of d s] w c split: if_splits)
qed

lemma parse_json_scanned: "parse_json s = Some v \<Longrightarrow> scanned v"
  by (auto simp: parse_json_def split: option.splits if_splits dest: scan_scanned(1))

lemma read_number_iff: "read_number l = Inr v \<longleftrightarrow> v = JNumber l \<and> bounded_number l"
  by (auto simp: read_number_def bounded_number_def SetString_is_number split: option.splits)

lemma read_number_no_panic: "read_number l \<noteq> Inl Panic"
  by (simp add: read_number_def)

lemma read_sound:
  "readParameterValue t d = Inr v \<Longrightarrow> scanned t \<Longrightarrow> param_value v \<and> d + levels v \<le> 16"
  "read_object ms obj d = Inr obj' \<Longrightarrow> list_all (\<lambda>(_, t). scanned t) ms \<Longrightarrow>
     param_value (JObject obj) \<Longrightarrow> d \<le> 16 \<Longrightarrow> d + levels (JObject obj) \<le> 16 \<Longrightarrow>
     param_value (JObject obj') \<and> d + levels (JObject obj') \<le> 16"
  "read_array ts d = Inr vs \<Longrightarrow> list_all scanned ts \<Longrightarrow> d \<le> 16 \<Longrightarrow>
     param_value (JArray vs) \<and> d + levels (JArray vs) \<le> 16"
proof (induction t d and ms obj d and ts d arbitrary: v and obj' and vs
    rule: readParameterValue_read_object_read_array.induct)
  case (1 t d)
  show ?case using "1.prems" "1.IH"
    by (cases t) (auto simp: readParameterValue.simps [of _ d] result_iff read_number_iff split: if_splits)
next
  case (3 name t ms obj d)
  then obtain w where w: "readParameterValue t (d + 1) = Inr w" and new: "name \<notin> fst ` set obj"
    and rest: "read_object ms (obj @ [(name, w)]) d = Inr obj'"
    by (auto simp: result_iff split: if_splits)
  have "param_value w" "Suc (d + levels w) \<le> 16" using 3 w new by auto
  then have "param_value (JObject (obj @ [(name, w)]))" "d + levels (JObject (obj @ [(name, w)])) \<le> 16"
    using "3.prems" new by (auto simp: levels_snoc)
  then show ?case using 3 w new rest by auto
qed (auto simp: result_iff)

lemma read_no_panic:
  "readParameterValue t d \<noteq> Inl Panic" "read_object ms obj d \<noteq> Inl Panic" "read_array ts d \<noteq> Inl Panic"
proof (induction t d and ms obj d and ts d rule: readParameterValue_read_object_read_array.induct)
  case (1 t d)
  then show ?case
    by (cases t) (auto simp: readParameterValue.simps [of _ d] and_then_def read_number_no_panic split: sum.splits)
qed (auto simp: and_then_def split: sum.splits)

lemma decode_no_panic: "decodeParameterJSON raw \<noteq> Inl Panic"
  by (auto simp: decodeParameterJSON_def read_no_panic split: option.splits)

lemma decode_sound: "decodeParameterJSON raw = Inr v \<Longrightarrow> param_value v \<and> levels v \<le> 16"
  using read_sound(1) [of _ 0 v] parse_json_scanned
  by (fastforce simp: decodeParameterJSON_def split: if_splits option.splits)

lemma bounded_number_SetString: "bounded_number l \<Longrightarrow> \<exists>x. SetString l = Some x"
  using SetString_is_number [of l] by (auto simp: bounded_number_def)

lemma compareNumber_total: "is_number a \<Longrightarrow> is_number b \<Longrightarrow> \<exists>c. compareNumber a b = Inr c"
  using SetString_is_number [of a] SetString_is_number [of b] by (auto simp: compareNumber_def)

text \<open>Equality of decoded values compares numbers by value and members by name.\<close>

lemma parameterEqual_refl: "param_value v \<Longrightarrow> parameterEqual v v"
proof (induction v rule: param_value.induct)
  case (1 l)
  then show ?case
    using bounded_number_SetString [of l] by (auto simp: parameterEqual.simps compareNumber_def)
next
  case (3 vs)
  then show ?case
    by (subst parameterEqual.simps) (auto simp: list_all_iff in_set_zip)
next
  case (4 ms)
  have "parameterEqual v v" "map_of ms k = Some v" if "(k, v) \<in> set ms" for k v
    using 4 that by (auto simp: list_all_iff)
  then show ?case by (subst parameterEqual.simps) (auto simp: list_all_iff)
qed (simp_all add: parameterEqual.simps)

lemma parameterEqual_type: "parameterEqual v w \<Longrightarrow> kind \<noteq> ''integer'' \<Longrightarrow> parameterType v kind = parameterType w kind"
  by (subst (asm) parameterEqual.simps)
    (auto simp: parameterType_def compareNumber_def split: jval.splits option.splits if_splits)

text \<open>An integer literal may be spelled with an exponent or a zero fraction.\<close>

lemma parameterEqual_integer: "parameterEqual v w \<Longrightarrow> parameterType v ''integer'' = parameterType w ''integer''"
  by (subst (asm) parameterEqual.simps)
    (auto simp: parameterType_def compareNumber_def split: jval.splits option.splits if_splits)

end
