(* ===== verification/JsonText.thy ===== *)
theory JsonText
  imports Json "HOL-Library.Char_ord" "HOL-Library.List_Lexorder"
begin

text \<open>
  The text \<open>json.Marshal\<close> writes: quoted strings with HTML-safe escapes, compact arrays and
  objects, maps with their keys sorted. The main theorem is that this text is unambiguous:
  the scanner reads back the tree it was written from, whatever follows it.
\<close>

section \<open>Writing\<close>

definition ascii_escape :: "char \<Rightarrow> string" where
  "ascii_escape c =
     (if c = CHR 0x22 \<or> c = CHR 0x5C then [CHR 0x5C, c]
      else if c = CHR 0x08 then [CHR 0x5C, CHR ''b''] else if c = CHR 0x0C then [CHR 0x5C, CHR ''f'']
      else if c = CHR 0x0A then [CHR 0x5C, CHR ''n''] else if c = CHR 0x0D then [CHR 0x5C, CHR ''r'']
      else if c = CHR 0x09 then [CHR 0x5C, CHR ''t'']
      else if code c < 0x20 \<or> c \<in> set ''<>&''
           then CHR 0x5C # ''u00'' @ [hex_digit (code c div 16), hex_digit (code c mod 16)]
      else [c])"

text \<open>U+2028 and U+2029 are escaped, an invalid byte becomes \<open>\\ufffd\<close>.\<close>

definition rune_escape :: "string \<Rightarrow> string" where
  "rune_escape w =
     (if w = map byte [0xE2, 0x80, 0xA8] then CHR 0x5C # ''u2028''
      else if w = map byte [0xE2, 0x80, 0xA9] then CHR 0x5C # ''u2029'' else w)"

fun quote_body :: "string \<Rightarrow> string" where
  "quote_body [] = []"
| "quote_body (c # cs) =
     (if code c < 0x80 then ascii_escape c @ quote_body cs
      else let n = rune_len (c # cs)
           in if n = 0 then CHR 0x5C # ''ufffd'' @ quote_body cs
              else rune_escape (take n (c # cs)) @ quote_body (drop (n - 1) cs))"

definition quote :: "string \<Rightarrow> string" where
  "quote s = CHR 0x22 # quote_body s @ [CHR 0x22]"

fun join :: "string list \<Rightarrow> string" where
  "join [] = []"
| "join [x] = x"
| "join (x # y # ys) = x @ '','' @ join (y # ys)"

definition array_text :: "string list \<Rightarrow> string" where
  "array_text ts = ''['' @ join ts @ '']''"

definition member_text :: "string \<times> string \<Rightarrow> string" where
  "member_text kt = quote (fst kt) @ '':'' @ snd kt"

text \<open>An object from its member names and the texts of their values, in that order.\<close>

definition object_text :: "(string \<times> string) list \<Rightarrow> string" where
  "object_text kts = ''{'' @ join (map member_text kts) @ ''}''"

definition bool_text :: "bool \<Rightarrow> string" where
  "bool_text b = (if b then ''true'' else ''false'')"

fun json_text :: "jval \<Rightarrow> string" where
  "json_text JNull = ''null''"
| "json_text (JBool b) = bool_text b"
| "json_text (JNumber l) = l"
| "json_text (JFloat x) = float_text x"
| "json_text (JString s) = quote s"
| "json_text (JArray vs) = array_text (map json_text vs)"
| "json_text (JObject ms) = object_text (map (\<lambda>(k, v). (k, json_text v)) ms)"

text \<open>\<open>json.Marshal\<close> writes the entries of a map sorted by key.\<close>

fun sort_keys :: "jval \<Rightarrow> jval" where
  "sort_keys (JArray vs) = JArray (map sort_keys vs)"
| "sort_keys (JObject ms) = JObject (sort_key fst (map (\<lambda>(k, v). (k, sort_keys v)) ms))"
| "sort_keys v = v"

definition Marshal_any :: "jval \<Rightarrow> string" where
  "Marshal_any v = json_text (sort_keys v)"

section \<open>Reading strings back\<close>

lemma hex_val_digit [simp]: "n < 16 \<Longrightarrow> hex_val (hex_digit n) = Some n"
  by (auto simp: hex_val_def hex_digit_def is_digit_def between_def)

lemma scan_ascii_escape:
  assumes "code c < 0x80"
  shows "scan_string (ascii_escape c @ r) = prepend [c] (scan_string r)"
proof -
  let ?S = "{CHR 0x22, CHR 0x5C, CHR 0x08, CHR 0x0C, CHR 0x0A, CHR 0x0D, CHR 0x09}"
  consider "c \<in> ?S" | "c \<notin> ?S" "code c < 0x20 \<or> c \<in> set ''<>&''"
    | "c \<notin> ?S" "\<not> (code c < 0x20 \<or> c \<in> set ''<>&'')" by blast
  then show ?thesis
  proof cases
    case 1
    then show ?thesis by (auto simp: ascii_escape_def simple_escape_def)
  next
    case 2
    have z: "hex_val CHR ''0'' = Some 0" by (simp add: hex_val_def is_digit_def between_def)
    have "code c div 16 < 16" using assms by simp
    then have "hex4 (''00'' @ [hex_digit (code c div 16), hex_digit (code c mod 16)] @ r) = Some (code c)"
      by (simp add: hex4_def z)
    moreover have "encode_rune (code c) = [c]" "\<not> surrogate (code c)"
      using assms by (simp_all add: encode_rune_def surrogate_def)
    ultimately show ?thesis using 2 by (simp add: ascii_escape_def)
  next
    case 3
    then have "ascii_escape c = [c]" by (simp add: ascii_escape_def)
    with 3 assms show ?thesis by (simp add: Let_def)
  qed
qed

lemma scan_rune:
  assumes "rune_len w = length w" "w = c # u" "\<not> code c < 0x80"
  shows "scan_string (w @ r) = prepend w (scan_string r)"
proof -
  have n: "rune_len (w @ r) = length w"
    using rune_len_take [of w r] assms by simp
  have "c \<noteq> CHR 0x22" "c \<noteq> CHR 0x5C" using assms(3) by auto
  with n show ?thesis using assms by (simp add: Let_def)
qed

lemma scan_rune_escape:
  assumes "rune_len w = length w" "w = c # u" "\<not> code c < 0x80"
  shows "scan_string (rune_escape w @ r) = prepend w (scan_string r)"
proof -
  have h: "hex_val (CHR ''2'') = Some 2" "hex_val (CHR ''0'') = Some 0" "hex_val (CHR ''8'') = Some 8"
    "hex_val (CHR ''9'') = Some 9" by (simp_all add: hex_val_def is_digit_def between_def)
  show ?thesis
    using scan_rune [OF assms]
    by (auto simp: rune_escape_def hex4_def h surrogate_def encode_rune_def)
qed

theorem scan_quote_body:
  "ValidString s \<Longrightarrow> scan_string (quote_body s @ CHR 0x22 # r) = Some (s, r)"
proof (induction s rule: quote_body.induct)
  case 1
  then show ?case by simp
next
  case (2 c cs)
  define n where "n = rune_len (c # cs)"
  have valid: "n \<noteq> 0" "ValidString (drop (n - 1) cs)"
    using "2.prems" by (simp_all add: n_def Let_def)
  show ?case
  proof (cases "code c < 0x80")
    case True
    then show ?thesis using "2.IH"(1) valid
      by (simp add: n_def scan_ascii_escape prepend_def)
  next
    case False
    define w where "w = take n (c # cs)"
    have n2: "n \<ge> 2" "n \<le> Suc (length cs)"
      using rune_len_multi [of c cs] rune_len_length [of "c # cs"] False valid by (simp_all add: n_def)
    have "length w = n" using n2(2) by (simp add: w_def)
    then have w: "rune_len w = length w" "w = c # take (n - 1) cs"
      using rune_len_take [of "c # cs" "[]"] valid(1)
      by (simp_all add: w_def n_def [symmetric] take_Cons')
    have IH: "scan_string (quote_body (drop (n - 1) cs) @ CHR 0x22 # r) = Some (drop (n - 1) cs, r)"
      using "2.IH"(3) [OF False n_def] valid by (simp add: n_def)
    have "quote_body (c # cs) = rune_escape w @ quote_body (drop (n - 1) cs)"
      using False valid(1) by (simp add: n_def [symmetric] w_def Let_def)
    then show ?thesis
      using scan_rune_escape [OF w(1) w(2) False] IH by (simp add: prepend_def w(2))
  qed
qed

section \<open>Reading values back\<close>

text \<open>
  A text denotes a value when the scanner, given leave to open \<open>d\<close> levels, reads that value
  from it and stops where the text does.
\<close>

definition starts :: "string \<Rightarrow> bool" where
  "starts t \<longleftrightarrow> t \<noteq> [] \<and> \<not> is_ws (hd t) \<and> hd t \<noteq> CHR '']'' \<and> hd t \<noteq> CHR ''}''"

definition denotes :: "nat \<Rightarrow> string \<Rightarrow> jval \<Rightarrow> bool" where
  "denotes d t v \<longleftrightarrow> starts t \<and> (\<forall>r. stop r \<longrightarrow> scan_value d (t @ r) = Some (v, r))"

lemma denotesD: "denotes d t v \<Longrightarrow> stop r \<Longrightarrow> scan_value d (t @ r) = Some (v, r)"
  by (simp add: denotes_def)

lemma skip_ws_id: "t \<noteq> [] \<Longrightarrow> \<not> is_ws (hd t) \<Longrightarrow> skip_ws (t @ r) = t @ r"
  by (cases t) (simp_all add: skip_ws_def)

lemma skip_ws_Cons [simp]: "\<not> is_ws c \<Longrightarrow> skip_ws (c # r) = c # r"
  by (simp add: skip_ws_def)

lemma is_ws_lits [simp]:
  "\<not> is_ws (CHR '','')" "\<not> is_ws (CHR '']'')" "\<not> is_ws (CHR ''}'')" "\<not> is_ws (CHR '':'')"
  "\<not> is_ws (CHR ''['')" "\<not> is_ws (CHR ''{'')" "\<not> is_ws (CHR 0x22)"
  by (simp_all add: is_ws_def)

lemma stop_lits [simp]: "stop (CHR '','' # r)" "stop (CHR '']'' # r)" "stop (CHR ''}'' # r)" "stop []"
  by (simp_all add: stop_def is_digit_def between_def)

lemma denotes_scalar:
  assumes "starts t" "hd t \<noteq> CHR ''{''" "hd t \<noteq> CHR ''[''"
    and "\<And>r. stop r \<Longrightarrow> scan_scalar (t @ r) = Some (v, r)"
  shows "denotes d t v"
proof -
  obtain c u where "t = c # u" using assms(1) by (cases t) (auto simp: starts_def)
  then show ?thesis
    using assms by (auto simp: denotes_def starts_def scan_value.simps [of d "c # _"])
qed

lemma denotes_null: "denotes d ''null'' JNull"
  by (rule denotes_scalar) (simp_all add: starts_def is_ws_def scan_scalar_def scan_word_def HasPrefix_def)

lemma denotes_bool: "denotes d (bool_text b) (JBool b)"
  by (rule denotes_scalar)
    (simp_all add: bool_text_def starts_def is_ws_def scan_scalar_def scan_word_def HasPrefix_def)

lemma denotes_number:
  assumes "is_number l"
  shows "denotes d l (JNumber l)"
proof (rule denotes_scalar)
  obtain c u where l: "l = c # u" "c = CHR ''-'' \<or> is_digit c"
    using is_number_hd [OF assms] by (cases l) auto
  have d: "\<not> is_digit c'" if "c' \<in> {CHR 0x22, CHR ''t'', CHR ''f'', CHR ''n'', CHR ''{'', CHR ''['',
      CHR '']'', CHR ''}'', CHR 0x20, CHR 0x09, CHR 0x0A, CHR 0x0D}" for c'
    using that by (auto simp: is_digit_def between_def)
  show "starts l" using l d by (auto simp: starts_def is_ws_def)
  show "hd l \<noteq> CHR ''{''" "hd l \<noteq> CHR ''[''" using l d by auto
  show "scan_scalar (l @ r) = Some (JNumber l, r)" if "stop r" for r
    using scan_number_literal [OF assms that] l d by (auto simp: scan_scalar_def)
qed

lemma denotes_quote: "ValidString s \<Longrightarrow> denotes d (quote s) (JString s)"
  by (rule denotes_scalar) (simp_all add: quote_def starts_def scan_scalar_def scan_quote_body)

lemma elements_denote:
  "list_all2 (denotes d) ts vs \<Longrightarrow> ts \<noteq> [] \<Longrightarrow>
     scan_elements d (join ts @ CHR '']'' # r) = Some (vs, r)"
proof (induction ts arbitrary: vs rule: join.induct)
  case (2 t)
  then obtain v where "vs = [v]" "denotes d t v" by (auto simp: list_all2_Cons1)
  then show ?case by (subst scan_elements.simps) (simp add: denotesD)
next
  case (3 t u ts)
  then obtain v ws where vs: "vs = v # ws" "denotes d t v" "list_all2 (denotes d) (u # ts) ws"
    by (auto simp: list_all2_Cons1)
  then have "scan_elements d (join (u # ts) @ CHR '']'' # r) = Some (ws, r)" using 3 by simp
  then show ?case using vs by (subst scan_elements.simps) (simp add: denotesD)
qed simp

lemma join_starts: "ts \<noteq> [] \<Longrightarrow> starts (hd ts) \<Longrightarrow> starts (join ts) \<and> hd (join ts) = hd (hd ts)"
  by (induction ts rule: join.induct) (auto simp: starts_def)

lemma denotes_array:
  assumes "list_all2 (denotes d) ts vs"
  shows "denotes (Suc d) (array_text ts) (JArray vs)"
proof (cases "ts = []")
  case True
  with assms show ?thesis
    by (simp add: denotes_def array_text_def starts_def scan_value.simps [of _ "CHR ''['' # _"] HasPrefix_def)
next
  case False
  then have "starts (join ts)" using assms join_starts by (cases ts) (auto simp: denotes_def list_all2_Cons1)
  then have j: "skip_ws (join ts @ u) = join ts @ u" "\<not> HasPrefix (join ts @ u) '']''" for u
    by (cases "join ts"; auto simp: starts_def HasPrefix_def)+
  show ?thesis
    using elements_denote [OF assms False]
    by (simp add: denotes_def array_text_def starts_def scan_value.simps [of _ "CHR ''['' # _"] j)
qed

definition member_denotes :: "nat \<Rightarrow> string \<times> string \<Rightarrow> string \<times> jval \<Rightarrow> bool" where
  "member_denotes d kt kv \<longleftrightarrow> fst kt = fst kv \<and> ValidString (fst kv) \<and> denotes d (snd kt) (snd kv)"

lemma scan_name_member:
  "ValidString k \<Longrightarrow> scan_name (quote k @ CHR '':'' # r) = Some (k, r)"
  by (simp add: scan_name_def quote_def scan_quote_body)

lemma member_scan:
  "member_denotes d kt kv \<Longrightarrow> scan_name (member_text kt @ r) = Some (fst kv, snd kt @ r)"
  using scan_name_member [of "fst kv" "snd kt @ r"] by (simp add: member_denotes_def member_text_def)

lemma members_denote:
  "list_all2 (member_denotes d) kts kvs \<Longrightarrow> kts \<noteq> [] \<Longrightarrow>
     scan_members d (join (map member_text kts) @ CHR ''}'' # r) = Some (kvs, r)"
proof (induction kts arbitrary: kvs rule: induct_list012)
  case (2 kt)
  then obtain kv where kv: "kvs = [kv]" "member_denotes d kt kv" by (auto simp: list_all2_Cons1)
  then have "scan_value d (snd kt @ CHR ''}'' # r) = Some (snd kv, CHR ''}'' # r)"
    by (simp add: member_denotes_def denotesD)
  then show ?case using member_scan [OF kv(2)] kv(1)
    by (subst scan_members.simps) simp
next
  case (3 kt ku kts)
  then obtain kv kws where kv: "kvs = kv # kws" "member_denotes d kt kv"
      "list_all2 (member_denotes d) (ku # kts) kws"
    by (auto simp: list_all2_Cons1)
  have "scan_value d (snd kt @ CHR '','' # t) = Some (snd kv, CHR '','' # t)" for t
    using kv(2) by (simp add: member_denotes_def denotesD)
  moreover have "scan_members d (join (map member_text (ku # kts)) @ CHR ''}'' # r) = Some (kws, r)"
    using 3 kv(3) by simp
  ultimately show ?case using member_scan [OF kv(2)] kv(1)
    by (subst scan_members.simps) simp
qed simp

lemma denotes_object:
  assumes "list_all2 (member_denotes d) kts kvs"
  shows "denotes (Suc d) (object_text kts) (JObject kvs)"
proof (cases "kts = []")
  case True
  with assms show ?thesis
    by (simp add: denotes_def object_text_def starts_def scan_value.simps [of _ "CHR ''{'' # _"] HasPrefix_def)
next
  case False
  then have "hd (join (map member_text kts)) = CHR 0x22 \<and> join (map member_text kts) \<noteq> []"
    by (cases kts; cases "tl kts") (auto simp: member_text_def quote_def)
  then have j: "\<not> HasPrefix (skip_ws (join (map member_text kts) @ u)) ''}''" for u
    by (cases "join (map member_text kts)") (auto simp: HasPrefix_def)
  show ?thesis
    using members_denote [OF assms False]
    by (simp add: denotes_def object_text_def starts_def scan_value.simps [of _ "CHR ''{'' # _"] j)
qed

section \<open>The text of a tree\<close>

text \<open>Trees that \<open>json.Marshal\<close> writes without loss: valid literals and UTF-8 strings.\<close>

fun wf_json :: "jval \<Rightarrow> bool" where
  "wf_json (JNumber l) = is_number l"
| "wf_json (JFloat x) = is_number (float_text x)"
| "wf_json (JString s) = ValidString s"
| "wf_json (JArray vs) = list_all wf_json vs"
| "wf_json (JObject ms) = list_all (\<lambda>(k, v). ValidString k \<and> wf_json v) ms"
| "wf_json v = True"

fun nest :: "jval \<Rightarrow> nat" where
  "nest (JArray vs) = Suc (Max (insert 0 (nest ` set vs)))"
| "nest (JObject ms) = Suc (Max (insert 0 ((\<lambda>(k, v). nest v) ` set ms)))"
| "nest v = 0"

text \<open>What is read back: a float comes back as the literal it was written as.\<close>

fun lits :: "jval \<Rightarrow> jval" where
  "lits (JFloat x) = JNumber (float_text x)"
| "lits (JArray vs) = JArray (map lits vs)"
| "lits (JObject ms) = JObject (map (\<lambda>(k, v). (k, lits v)) ms)"
| "lits v = v"

theorem denotes_json_text: "wf_json v \<Longrightarrow> nest v \<le> d \<Longrightarrow> denotes d (json_text v) (lits v)"
proof (induction v arbitrary: d rule: json_text.induct)
  case (6 vs)
  then obtain e where d: "d = Suc e" by (cases d) auto
  have "list_all2 (denotes e) (map json_text vs) (map lits vs)"
    using 6 by (auto simp: d list.rel_map list_all_iff intro!: list.rel_refl_strong)
  then show ?case by (simp add: d denotes_array)
next
  case (7 ms)
  then obtain e where d: "d = Suc e" by (cases d) auto
  have "list_all2 (member_denotes e) (map (\<lambda>(k, v). (k, json_text v)) ms) (map (\<lambda>(k, v). (k, lits v)) ms)"
    using 7 by (fastforce simp: d list.rel_map list_all_iff member_denotes_def intro!: list.rel_refl_strong)
  then show ?case by (simp add: d denotes_object)
qed (simp_all add: denotes_null denotes_bool denotes_number denotes_quote)

lemma parse_denoted: "denotes maxNestingDepth t v \<Longrightarrow> parse_json t = Some v"
  using denotesD [of maxNestingDepth t v "[]"] by (simp add: parse_json_def skip_ws_def)

corollary parse_json_text: "wf_json v \<Longrightarrow> nest v \<le> maxNestingDepth \<Longrightarrow> parse_json (json_text v) = Some (lits v)"
  by (rule parse_denoted) (rule denotes_json_text)

text \<open>Different strings have different quotations, and no quotation is a prefix of another.\<close>

lemma quote_prefix_free:
  assumes "ValidString s" "ValidString t" "quote s @ r = quote t @ r'"
  shows "s = t \<and> r = r'"
proof -
  have "scan_string (quote_body s @ CHR 0x22 # r) = scan_string (quote_body t @ CHR 0x22 # r')"
    using assms(3) by (simp add: quote_def)
  then show ?thesis using assms by (simp add: scan_quote_body)
qed

lemma denotes_prefix_free:
  "denotes d t v \<Longrightarrow> denotes d u w \<Longrightarrow> stop r \<Longrightarrow> stop r' \<Longrightarrow> t @ r = u @ r' \<Longrightarrow>
     v = w \<and> t = u \<and> r = r'"
  by (frule denotesD, assumption, frule (1) denotesD [of d u w r']) simp

end
