(* ===== verification/Canonical_Numbers.thy ===== *)
theory Canonical_Numbers
  imports Parameters JsonText
begin

text \<open>
  \<open>canonicalDiscoveryNumbers\<close> of \<open>discovery.go\<close>: every number literal of a decoded value is
  rewritten to one spelling of its exact value. The theory proves that the spelling keeps
  the value and is unique to it, so that two decoded values have the same canonical JSON
  text exactly when \<open>parameterEqual\<close> calls them equal.
\<close>

section \<open>The rewriting\<close>

text \<open>
  The code's steps on the literal: strip the sign, cut at \<open>e\<close> or \<open>E\<close>, remove the point,
  strip zeros on both sides. \<open>Atoi\<close>'s error is ignored as in the code; a decoded literal
  has an exponent it accepts.
\<close>

definition canonical_number :: "string \<Rightarrow> string" where
  "canonical_number l =
     (let (sgn, s) = (if HasPrefix l ''-'' then (''-'', drop 1 l) else ([], l));
          exponent = (case exponent_suffix s of None \<Rightarrow> 0
                      | Some t \<Rightarrow> (case Atoi t of Some x \<Rightarrow> x | None \<Rightarrow> 0));
          s = takeWhile (\<lambda>c. c \<noteq> CHR ''e'' \<and> c \<noteq> CHR ''E'') s;
          i = takeWhile (\<lambda>c. c \<noteq> CHR ''.'') s;
          (exponent, s) = (if length i < length s
                           then (exponent - int (length s - length i - 1), i @ drop (length i + 1) s)
                           else (exponent, s));
          s = TrimLeft s (CHR ''0'')
      in if s = [] then ''0''
         else let trimmed = TrimRight s (CHR ''0'');
                  exponent = exponent + int (length s - length trimmed)
              in if exponent = 0 then sgn @ trimmed
                 else sgn @ trimmed @ ''e'' @ Itoa exponent)"

fun canonicalDiscoveryNumbers :: "jval \<Rightarrow> jval" where
  "canonicalDiscoveryNumbers (JNumber l) = JNumber (canonical_number l)"
| "canonicalDiscoveryNumbers (JObject ms) = JObject (map (\<lambda>(key, item). (key, canonicalDiscoveryNumbers item)) ms)"
| "canonicalDiscoveryNumbers (JArray vs) = JArray (map canonicalDiscoveryNumbers vs)"
| "canonicalDiscoveryNumbers v = v"

section \<open>Decimal normal form\<close>

text \<open>A nonzero decimal \<open>m * 10\<^sup>e\<close> with \<open>m\<close> not a multiple of ten is written in one way.\<close>

lemma pow10_add: "pow10 (a + b) = pow10 a * pow10 b"
proof -
  have p: "pow10 e = (10 :: rat) powi e" for e
    by (simp add: pow10_def power_int_def power_inverse inverse_eq_divide power_one_over)
  show ?thesis by (simp add: p power_int_add)
qed

lemma pow10_nonzero [simp]: "pow10 e \<noteq> 0" "pow10 e > 0" "pow10 e \<ge> 0"
  by (simp_all add: pow10_def)

lemma pow10_nat: "pow10 (int n) = of_nat (10 ^ n)"
  by (simp add: pow10_def)

lemma decimal_unique:
  fixes m n :: nat
  assumes "of_nat m * pow10 e = of_nat n * pow10 f" "m mod 10 \<noteq> 0" "n mod 10 \<noteq> 0"
  shows "m = n \<and> e = f"
proof -
  have wlog: "m' = n' \<and> e' = f'"
    if le: "e' \<le> f'" and eq: "of_nat m' * pow10 e' = of_nat n' * pow10 f'" and m: "m' mod 10 \<noteq> 0"
    for m' n' :: nat and e' f'
  proof -
    obtain k where k: "f' = e' + int k" using le zle_iff_zadd by blast
    have "of_nat m' * pow10 e' = of_nat (n' * 10 ^ k) * pow10 e'"
      using eq by (simp add: k pow10_add pow10_nat mult_ac)
    then have "(of_nat m' :: rat) = of_nat (n' * 10 ^ k)" by simp
    then have "m' = n' * 10 ^ k" by (simp only: of_nat_eq_iff)
    with m have "k = 0" by (cases k) auto
    with \<open>m' = n' * 10 ^ k\<close> k show ?thesis by simp
  qed
  show ?thesis
    using wlog [of e f m n] wlog [of f e n m] assms by (cases "e \<le> f") auto
qed

lemma digits_hd:
  "list_all is_digit d \<Longrightarrow> d \<noteq> [] \<Longrightarrow> hd d \<noteq> CHR ''0'' \<Longrightarrow> nat_text (digits_val d) = d \<and> digits_val d > 0"
proof (induction d rule: rev_induct)
  case (snoc c d)
  show ?case
  proof (cases "d = []")
    case True
    then have c: "is_digit c" "c \<noteq> CHR ''0''" using snoc.prems by auto
    then have "digit_val c > 0" by (rule digit_val_pos)
    then show ?thesis using True c digit_val_less [OF c(1)]
      by (subst nat_text.simps) (simp add: digits_val_Cons)
  next
    case False
    then have IH: "nat_text (digits_val d) = d" "digits_val d > 0" using snoc by auto
    have c: "is_digit c" "digit_val c < 10" using snoc.prems by (auto intro: digit_val_less)
    then show ?thesis using IH by (subst nat_text.simps) (simp add: digits_val_snoc)
  qed
qed simp

lemma TrimLeft_digits: "digits_val (TrimLeft s (CHR ''0'')) = digits_val s"
proof -
  have "s = takeWhile (\<lambda>x. x = CHR ''0'') s @ TrimLeft s (CHR ''0'')" by (simp add: TrimLeft_def)
  moreover have "takeWhile (\<lambda>x. x = CHR ''0'') s = replicate (length (takeWhile (\<lambda>x. x = CHR ''0'') s)) (CHR ''0'')"
    by (induction s) auto
  ultimately show ?thesis by (metis digits_val_zeros)
qed

lemma TrimRight_last: "TrimRight s c = [] \<or> last (TrimRight s c) \<noteq> c"
  using hd_dropWhile [of "\<lambda>x. x = c" "rev s"] by (auto simp: TrimRight_def last_rev)

lemma digits_val_snoc_zeros: "digits_val (s @ replicate k (CHR ''0'')) = digits_val s * 10 ^ k"
  using digits_val_zeros [of k "[]"] by (simp add: digits_val_append)

lemma digits_mod_10: "list_all is_digit d \<Longrightarrow> d \<noteq> [] \<Longrightarrow> last d \<noteq> CHR ''0'' \<Longrightarrow> digits_val d mod 10 \<noteq> 0"
proof (induction d rule: rev_induct)
  case (snoc c d)
  then have c: "is_digit c" "c \<noteq> CHR ''0''" by auto
  then have "digit_val c > 0" by (rule digit_val_pos)
  then show ?case using digit_val_less [OF c(1)] by (simp add: digits_val_snoc mod_add_eq)
qed simp

section \<open>The canonical spelling\<close>

definition canon_text :: "bool \<Rightarrow> nat \<Rightarrow> int \<Rightarrow> string" where
  "canon_text neg m k = (if m = 0 then ''0''
     else (if neg then ''-'' else []) @ nat_text m @ (if k = 0 then [] else ''e'' @ Itoa k))"

lemma takeWhile_all: "list_all P s \<Longrightarrow> r = [] \<or> \<not> P (hd r) \<Longrightarrow> takeWhile P (s @ r) = s \<and> dropWhile P (s @ r) = r"
  by (induction s) (auto, (cases r; simp)+)

lemma digits_no_point:
  "list_all is_digit s \<Longrightarrow> list_all (\<lambda>c. c \<noteq> CHR ''.'') s \<and> list_all (\<lambda>c. c \<noteq> CHR ''e'' \<and> c \<noteq> CHR ''E'') s"
  by (auto simp: list_all_iff is_digit_def between_def)

lemma canonical_number_text:
  assumes b: "bounded_number l" and p: "number_parts l = Some (neg, i, f, e)"
  shows "\<exists>m k. canonical_number l = canon_text neg m k \<and> (m = 0 \<or> m mod 10 \<noteq> 0) \<and>
           SetString l = Some (signed neg (of_nat m * pow10 k))"
proof -
  from p obtain fr ex where l: "l = (if neg then ''-'' else []) @ i @ fr @ ex"
    and i: "i \<noteq> []" "list_all is_digit i" and f: "list_all is_digit f" "fr = [] \<and> f = [] \<or> fr = CHR ''.'' # f"
    and e: "e = exp_val ex" and ex: "ex = [] \<or> (\<exists>c t. ex = c # t \<and> (c = CHR ''e'' \<or> c = CHR ''E'') \<and>
       (\<forall>x. Atoi t = Some x \<longrightarrow> x = exp_val ex))"
    by (rule number_parts_shape)
  define s where "s = i @ fr @ ex"
  obtain a j where i': "i = a # j" "is_digit a" using i by (cases i) auto
  then have "a \<noteq> CHR ''-''" by (auto simp: is_digit_def between_def)
  then have sgn: "(if HasPrefix l ''-'' then (''-'', drop 1 l) else ([], l)) = (if neg then ''-'' else [], s)"
    by (simp add: l s_def i' HasPrefix_def)
  have fr: "list_all (\<lambda>c. c \<noteq> CHR ''e'' \<and> c \<noteq> CHR ''E'') (i @ fr)"
    using digits_no_point [OF i(2)] digits_no_point [OF f(1)] f(2) by auto
  have mant: "takeWhile (\<lambda>c. c \<noteq> CHR ''e'' \<and> c \<noteq> CHR ''E'') s = i @ fr"
    "dropWhile (\<lambda>c. c \<noteq> CHR ''e'' \<and> c \<noteq> CHR ''E'') s = ex"
    using takeWhile_all [OF fr, of ex] ex by (auto simp: s_def)
  have suffix: "exponent_suffix s = (case ex of [] \<Rightarrow> None | _ # t \<Rightarrow> Some t)"
    by (simp add: exponent_suffix_def mant)
  have "exponent_suffix l = exponent_suffix s" by (simp add: l s_def exponent_suffix_def)
  then have exponent: "(case exponent_suffix s of None \<Rightarrow> 0 | Some t \<Rightarrow> (case Atoi t of Some x \<Rightarrow> x | None \<Rightarrow> 0)) = e"
    using b ex by (auto simp: bounded_number_def suffix e exp_val_def split: option.splits)
  have point: "takeWhile (\<lambda>c. c \<noteq> CHR ''.'') (i @ fr) = i"
    using takeWhile_all [of "\<lambda>c. c \<noteq> CHR ''.''" i fr] digits_no_point [OF i(2)] f(2) by auto
  define d where "d = TrimLeft (i @ f) (CHR ''0'')"
  define t where "t = TrimRight d (CHR ''0'')"
  define k where "k = e - int (length f) + int (length d - length t)"
  define m where "m = digits_val t"
  have canon: "canonical_number l = (if d = [] then ''0''
      else (if neg then ''-'' else []) @ t @ (if k = 0 then [] else ''e'' @ Itoa k))"
    using f(2) unfolding canonical_number_def Let_def sgn prod.case mant(1) exponent point
    by (auto simp: d_def t_def k_def)
  have dd: "list_all is_digit d"
    unfolding list_all_iff
  proof
    fix x assume "x \<in> set d"
    then have "x \<in> set (i @ f)" unfolding d_def TrimLeft_def by (rule set_dropWhileD)
    then show "is_digit x" using i(2) f(1) by (auto simp: list_all_iff)
  qed
  obtain z where z: "d = t @ replicate z (CHR ''0'')" using TrimRight_split t_def by blast
  have val: "SetString l = Some (signed neg (of_nat m * pow10 k))"
  proof -
    have "digits_val (i @ f) = m * 10 ^ z"
      using TrimLeft_digits [of "i @ f"] z by (simp add: d_def [symmetric] m_def digits_val_snoc_zeros)
    moreover have "k = e - int (length f) + int z" using z by (simp add: k_def)
    ultimately show ?thesis
      by (simp add: SetString_def p pow10_add pow10_nat mult_ac)
  qed
  show ?thesis
  proof (cases "d = []")
    case True
    then have "m = 0" by (simp add: m_def t_def TrimRight_def)
    then show ?thesis using canon True val by (auto simp: canon_text_def)
  next
    case False
    have hd: "hd d \<noteq> CHR ''0''" using False hd_dropWhile [of "\<lambda>x. x = CHR ''0''" "i @ f"]
      unfolding d_def TrimLeft_def by blast
    have "t \<noteq> []" using z hd False by (cases z) auto
    moreover have "hd t = hd d" using z \<open>t \<noteq> []\<close> by simp
    moreover have "list_all is_digit t" using dd z by simp
    moreover have "last t \<noteq> CHR ''0''" using TrimRight_last [of d "CHR ''0''"] \<open>t \<noteq> []\<close> by (simp add: t_def)
    ultimately have "nat_text m = t" "m > 0" "m mod 10 \<noteq> 0"
      using digits_hd [of t] digits_mod_10 [of t] hd by (auto simp: m_def)
    moreover from this have "canonical_number l = canon_text neg m k"
      using canon False by (simp add: canon_text_def)
    ultimately show ?thesis using val by blast
  qed
qed

lemma nat_text_Cons: "\<exists>c r. nat_text n = c # r \<and> is_digit c \<and> c \<noteq> CHR ''-'' \<and> c \<noteq> CHR ''+'' \<and> c \<noteq> CHR ''.''"
  using nat_text_digits [of n] by (cases "nat_text n") (auto simp: is_digit_def between_def)

lemma exp_val_Itoa: "exp_val (CHR ''e'' # Itoa k) = k"
proof (cases "k < 0")
  case True
  then show ?thesis by (simp add: exp_val_def Itoa_def)
next
  case False
  obtain c r where c: "nat_text (nat k) = c # r" "c \<noteq> CHR ''-''" "c \<noteq> CHR ''+''"
    using nat_text_Cons by blast
  have "int (digits_val (c # r)) = k" using False digits_val_nat_text [of "nat k"] by (simp add: c(1))
  with False c show ?thesis by (simp add: exp_val_def Itoa_def)
qed

lemma scan_exp_Itoa: "scan_exp (CHR ''e'' # Itoa k) = Some (CHR ''e'' # Itoa k, [])"
proof -
  have d: "scan_digits (nat_text n) = Some (nat_text n, [])" for n
    using scan_digits_all [of "nat_text n" "[]"] nat_text_digits [of n] by simp
  obtain c r where c: "nat_text (nat k) = c # r" "c \<noteq> CHR ''-''" "c \<noteq> CHR ''+''"
    using nat_text_Cons by blast
  show ?thesis
    using d [of "nat k"] d [of "nat (- k)"] c by (simp add: scan_exp_def Itoa_def)
qed

lemma canon_text_parts:
  assumes "m > 0"
  shows "number_parts (canon_text neg m k) = Some (neg, nat_text m, [], k)"
proof -
  define ex where "ex = (if k = 0 then [] else CHR ''e'' # Itoa k)"
  obtain c r where c: "nat_text m = c # r" "is_digit c" using nat_text_digits [of m] by (cases "nat_text m") auto
  then have c0: "c \<noteq> CHR ''0''" "c \<noteq> CHR ''-''"
    using nat_text_hd [OF assms] by (auto simp: is_digit_def between_def)
  have "scan_digits (nat_text m @ ex) = Some (nat_text m, ex)"
    by (rule scan_digits_all) (use nat_text_digits [of m] in \<open>auto simp: ex_def is_digit_def between_def\<close>)
  then have i: "scan_int (nat_text m @ ex) = Some (nat_text m, ex)" using c c0 by (simp add: scan_int_def)
  have s: "scan_sign ((if neg then ''-'' else []) @ nat_text m @ ex) = (if neg then ''-'' else [], nat_text m @ ex)"
    using c c0 by (simp add: scan_sign_def)
  have f: "scan_frac ex = Some ([], ex)" by (simp add: scan_frac_def ex_def)
  have e: "scan_exp ex = Some (ex, [])" "exp_val ex = k"
    using scan_exp_Itoa exp_val_Itoa by (auto simp: ex_def scan_exp_def exp_val_def)
  have "canon_text neg m k = (if neg then ''-'' else []) @ nat_text m @ ex"
    using assms by (simp add: canon_text_def ex_def)
  then show ?thesis by (simp add: number_parts_def s i f e)
qed

lemma SetString_canon_text: "SetString (canon_text neg m k) = Some (signed neg (of_nat m * pow10 k))"
proof (cases "m = 0")
  case True
  then show ?thesis
    by (simp add: canon_text_def SetString_def number_parts_def scan_sign_def scan_int_def scan_frac_def
        scan_exp_def exp_val_def signed_def digits_val_def digit_val_def Let_def)
next
  case False
  then show ?thesis by (simp add: SetString_def canon_text_parts)
qed

lemma signed_unique:
  assumes "signed neg (of_nat m * pow10 k) = signed neg' (of_nat m' * pow10 k')"
    and "m = 0 \<or> m mod 10 \<noteq> 0" "m' = 0 \<or> m' mod 10 \<noteq> 0"
  shows "canon_text neg m k = canon_text neg' m' k'"
proof -
  have pos: "of_nat n * pow10 j > 0 \<longleftrightarrow> n > 0" "of_nat n * pow10 j \<ge> 0" for n j
    by (simp_all add: zero_less_mult_iff)
  have "m = 0 \<and> m' = 0 \<or> m > 0 \<and> m' > 0 \<and> neg = neg' \<and> of_nat m * pow10 k = of_nat m' * pow10 k'"
  proof (cases "m = 0 \<or> m' = 0")
    case True
    then show ?thesis using assms(1) by (auto simp: signed_def split: if_splits)
  next
    case False
    then have "of_nat m * pow10 k > 0" "of_nat m' * pow10 k' > 0" using pos by auto
    then have "signed neg (of_nat m * pow10 k) < 0 \<longleftrightarrow> neg" "signed neg' (of_nat m' * pow10 k') < 0 \<longleftrightarrow> neg'"
      by (simp_all add: signed_def not_less)
    then have "neg = neg'" using assms(1) by simp
    then show ?thesis using False assms(1) by (auto simp: signed_def split: if_splits)
  qed
  then consider "m = 0" "m' = 0" | "m > 0" "m' > 0" "neg = neg'" "of_nat m * pow10 k = of_nat m' * pow10 k'"
    by blast
  then show ?thesis
    by cases (use decimal_unique assms in \<open>auto simp: canon_text_def\<close>)
qed

text \<open>The spelling keeps the value, and two literals have the same spelling iff the same value.\<close>

lemma canonical_number_value: "bounded_number l \<Longrightarrow> SetString (canonical_number l) = SetString l"
  using canonical_number_text [of l] number_parts_is_number [of l] SetString_canon_text
  by (force simp: bounded_number_def)

lemma canonical_number_unique:
  assumes "bounded_number l" "bounded_number l'"
  shows "canonical_number l = canonical_number l' \<longleftrightarrow> SetString l = SetString l'"
proof
  assume "canonical_number l = canonical_number l'"
  then show "SetString l = SetString l'" using assms canonical_number_value by metis
next
  assume eq: "SetString l = SetString l'"
  obtain neg i f e where p: "number_parts l = Some (neg, i, f, e)"
    using assms(1) number_parts_is_number [of l] by (auto simp: bounded_number_def)
  obtain m k where c: "canonical_number l = canon_text neg m k" "m = 0 \<or> m mod 10 \<noteq> 0"
      "SetString l = Some (signed neg (of_nat m * pow10 k))"
    using canonical_number_text [OF assms(1) p] by blast
  obtain neg' i' f' e' where p': "number_parts l' = Some (neg', i', f', e')"
    using assms(2) number_parts_is_number [of l'] by (auto simp: bounded_number_def)
  obtain m' k' where c': "canonical_number l' = canon_text neg' m' k'" "m' = 0 \<or> m' mod 10 \<noteq> 0"
      "SetString l' = Some (signed neg' (of_nat m' * pow10 k'))"
    using canonical_number_text [OF assms(2) p'] by blast
  show "canonical_number l = canonical_number l'"
    unfolding c(1) c'(1) by (rule signed_unique) (use eq c c' in simp_all)
qed

lemma canonical_is_number: "bounded_number l \<Longrightarrow> is_number (canonical_number l)"
  using canonical_number_value bounded_number_SetString SetString_is_number by (metis option.distinct(1))

end
