(* ===== verification/Sha256.thy ===== *)
theory Sha256
  imports GoText "HOL-Library.Word"
begin

text \<open>
  \<open>crypto/sha256\<close>, \<open>crypto/hmac\<close> and \<open>encoding/hex\<close> as the SDK uses them: SHA-256 and
  HMAC-SHA-256 of a byte string, written out on 32-bit words, and the lower-case
  hexadecimal text of the digest. The development reasons about the shape of a digest and
  never about collisions: a theorem about two equal digests concludes that the hashed
  bytes are equal or are an explicit SHA-256 collision.
\<close>

unbundle bit_operations_syntax

type_synonym u8 = "8 word"
type_synonym u32 = "32 word"

section \<open>SHA-256\<close>

definition bytes_of :: "string \<Rightarrow> u8 list" where
  "bytes_of s = map (\<lambda>c. of_nat (code c)) s"

definition string_of_bytes :: "u8 list \<Rightarrow> string" where
  "string_of_bytes bs = map (\<lambda>b. byte (unat b)) bs"

definition K256 :: "u32 list" where
  "K256 =
    [1116352408, 1899447441, 3049323471, 3921009573, 961987163, 1508970993, 2453635748, 2870763221,
     3624381080, 310598401, 607225278, 1426881987, 1925078388, 2162078206, 2614888103, 3248222580,
     3835390401, 4022224774, 264347078, 604807628, 770255983, 1249150122, 1555081692, 1996064986,
     2554220882, 2821834349, 2952996808, 3210313671, 3336571891, 3584528711, 113926993, 338241895,
     666307205, 773529912, 1294757372, 1396182291, 1695183700, 1986661051, 2177026350, 2456956037,
     2730485921, 2820302411, 3259730800, 3345764771, 3516065817, 3600352804, 4094571909, 275423344,
     430227734, 506948616, 659060556, 883997877, 958139571, 1322822218, 1537002063, 1747873779,
     1955562222, 2024104815, 2227730452, 2361852424, 2428436474, 2756734187, 3204031479, 3329325298]"

type_synonym chain = "u32 \<times> u32 \<times> u32 \<times> u32 \<times> u32 \<times> u32 \<times> u32 \<times> u32"

definition H256 :: chain where
  "H256 = (0x6a09e667, 0xbb67ae85, 0x3c6ef372, 0xa54ff53a,
           0x510e527f, 0x9b05688c, 0x1f83d9ab, 0x5be0cd19)"

text \<open>Big-endian bytes of a word; \<open>k\<close> is the number of bytes.\<close>

definition be_bytes :: "nat \<Rightarrow> 'w::len word \<Rightarrow> u8 list" where
  "be_bytes k w = map (\<lambda>i. ucast (drop_bit (8 * i) w)) (rev [0..<k])"

definition sha_pad :: "u8 list \<Rightarrow> u8 list" where
  "sha_pad m = m @ [0x80] @ replicate ((119 - length m mod 64) mod 64) 0 @ be_bytes 8 (of_nat (8 * length m) :: 64 word)"

fun words_be :: "u8 list \<Rightarrow> u32 list" where
  "words_be (a # b # c # d # r) =
     (push_bit 24 (ucast a) OR push_bit 16 (ucast b) OR push_bit 8 (ucast c) OR ucast d) # words_be r"
| "words_be _ = []"

definition small_sigma0 :: "u32 \<Rightarrow> u32" where
  "small_sigma0 x = word_rotr 7 x XOR word_rotr 18 x XOR drop_bit 3 x"

definition small_sigma1 :: "u32 \<Rightarrow> u32" where
  "small_sigma1 x = word_rotr 17 x XOR word_rotr 19 x XOR drop_bit 10 x"

definition big_sigma0 :: "u32 \<Rightarrow> u32" where
  "big_sigma0 x = word_rotr 2 x XOR word_rotr 13 x XOR word_rotr 22 x"

definition big_sigma1 :: "u32 \<Rightarrow> u32" where
  "big_sigma1 x = word_rotr 6 x XOR word_rotr 11 x XOR word_rotr 25 x"

text \<open>The message schedule, most recent word first.\<close>

fun schedule :: "nat \<Rightarrow> u32 list \<Rightarrow> u32 list" where
  "schedule 0 w = w"
| "schedule (Suc n) w =
     schedule n ((small_sigma1 (w ! 1) + w ! 6 + small_sigma0 (w ! 14) + w ! 15) # w)"

definition sha_round :: "chain \<Rightarrow> u32 \<times> u32 \<Rightarrow> chain" where
  "sha_round st kw = (case st of (a, b, c, d, e, f, g, h) \<Rightarrow>
     let t1 = h + big_sigma1 e + ((e AND f) XOR (NOT e AND g)) + fst kw + snd kw;
         t2 = big_sigma0 a + ((a AND b) XOR (a AND c) XOR (b AND c))
     in (t1 + t2, a, b, c, d + t1, e, f, g))"

definition sha_block :: "chain \<Rightarrow> u32 list \<Rightarrow> chain" where
  "sha_block st blk =
     (case (st, foldl sha_round st (zip K256 (rev (schedule 48 (rev blk))))) of
        ((a, b, c, d, e, f, g, h), (a', b', c', d', e', f', g', h')) \<Rightarrow>
          (a + a', b + b', c + c', d + d', e + e', f + f', g + g', h + h'))"

fun chunks :: "nat \<Rightarrow> 'a list \<Rightarrow> 'a list list" where
  "chunks n [] = []"
| "chunks n (x # xs) = take (Suc n) (x # xs) # chunks n (drop n xs)"

definition chain_bytes :: "chain \<Rightarrow> u8 list" where
  "chain_bytes st = (case st of (a, b, c, d, e, f, g, h) \<Rightarrow>
     concat (map (be_bytes 4) [a, b, c, d, e, f, g, h]))"

definition sha256 :: "u8 list \<Rightarrow> u8 list" where
  "sha256 m = chain_bytes (foldl sha_block H256 (chunks 15 (words_be (sha_pad m))))"

section \<open>Hexadecimal text, digests, HMAC\<close>

definition hex_byte :: "u8 \<Rightarrow> string" where
  "hex_byte b = [hex_digit (unat b div 16), hex_digit (unat b mod 16)]"

definition hex_EncodeToString :: "u8 list \<Rightarrow> string" where
  "hex_EncodeToString bs = concat (map hex_byte bs)"

text \<open>\<open>"sha256:" + hex.EncodeToString(digest[:])\<close>, which every digest function ends with.\<close>

definition sha_digest :: "string \<Rightarrow> string" where
  "sha_digest s = ''sha256:'' @ hex_EncodeToString (sha256 (bytes_of s))"

definition hmac_key :: "u8 list \<Rightarrow> u8 list" where
  "hmac_key k = (let k' = (if length k > 64 then sha256 k else k) in k' @ replicate (64 - length k') 0)"

definition hmac_sha256 :: "u8 list \<Rightarrow> u8 list \<Rightarrow> u8 list" where
  "hmac_sha256 k m =
     (let key = hmac_key k
      in sha256 (map (\<lambda>b. b XOR 0x5c) key @ sha256 (map (\<lambda>b. b XOR 0x36) key @ m)))"

section \<open>The shape of a digest\<close>

lemma unat_u8: "unat (b :: u8) < 256"
  using unsigned_less [of b] by simp

lemma length_be_bytes [simp]: "length (be_bytes k w) = k"
  by (simp add: be_bytes_def)

lemma length_sha256 [simp]: "length (sha256 m) = 32"
  by (simp add: sha256_def chain_bytes_def split: prod.split)

lemma length_hex [simp]: "length (hex_EncodeToString bs) = 2 * length bs"
  by (induction bs) (simp_all add: hex_EncodeToString_def hex_byte_def)

lemma hex_all_lower: "list_all is_hex_lower (hex_EncodeToString bs)"
proof (induction bs)
  case Nil
  then show ?case by (simp add: hex_EncodeToString_def)
next
  case (Cons b bs)
  have "unat b < 256" by (rule unat_u8)
  then show ?case using Cons by (auto simp: hex_EncodeToString_def hex_byte_def intro!: is_hex_digit)
qed

lemma sha_digest_pattern [simp]: "digestPattern (sha_digest s)"
  unfolding sha_digest_def by (rule digestPattern_intro) (simp_all add: hex_all_lower)

lemma hex_byte_inject: "hex_byte a = hex_byte b \<longleftrightarrow> a = b"
proof
  assume h: "hex_byte a = hex_byte b"
  have lt: "unat a < 256" "unat b < 256" by (rule unat_u8)+
  from h have hd: "hex_digit (unat a div 16) = hex_digit (unat b div 16)"
      "hex_digit (unat a mod 16) = hex_digit (unat b mod 16)"
    by (simp_all add: hex_byte_def)
  have "unat a div 16 = unat b div 16" "unat a mod 16 = unat b mod 16"
    using lt hd by (auto intro!: hex_digit_inject)
  then have "unat a = unat b" by (metis div_mult_mod_eq)
  then show "a = b" by (simp add: word_unat_eq_iff)
qed simp

lemma hex_inject: "hex_EncodeToString a = hex_EncodeToString b \<Longrightarrow> a = b"
proof (induction a arbitrary: b)
  case Nil
  then show ?case by (cases b) (auto simp: hex_EncodeToString_def hex_byte_def)
next
  case (Cons x a)
  then obtain y b' where b: "b = y # b'"
    by (cases b) (auto simp: hex_EncodeToString_def hex_byte_def)
  with Cons.prems have "hex_byte x = hex_byte y" "hex_EncodeToString a = hex_EncodeToString b'"
    by (auto simp: hex_EncodeToString_def hex_byte_def)
  then show ?case using Cons.IH b by (simp add: hex_byte_inject)
qed

lemma bytes_of_inject: "bytes_of s = bytes_of t \<longleftrightarrow> s = t"
proof
  assume h: "bytes_of s = bytes_of t"
  have "string_of_bytes (bytes_of u) = u" for u
    using code_less by (induction u)
      (simp_all add: string_of_bytes_def bytes_of_def unat_of_nat)
  with h show "s = t" by metis
qed simp

text \<open>Two byte strings that SHA-256 does not tell apart.\<close>

definition sha_collision :: "string \<Rightarrow> string \<Rightarrow> bool" where
  "sha_collision s t \<longleftrightarrow> s \<noteq> t \<and> sha256 (bytes_of s) = sha256 (bytes_of t)"

lemma sha_digest_binding: "sha_digest s = sha_digest t \<Longrightarrow> s = t \<or> sha_collision s t"
  by (auto simp: sha_digest_def sha_collision_def dest: hex_inject)

lemma sha_digest_not_blank [simp]: "\<not> blank (sha_digest s)"
  using digestPattern_solid [OF sha_digest_pattern] solid_list_not_blank by blast

end
