(* ===== verification/Digests.thy ===== *)
theory Digests
  imports JsonText Sha256 "HOL-Library.AList"
begin

text \<open>
  The digests of \<open>protocol.go\<close> over arbitrary JSON: \<open>JSONDigest\<close> and \<open>ActionDigest\<close>. Both
  decode into Go's \<open>any\<close> (numbers become doubles, of duplicate members the last wins) and
  hash the text \<open>json.Marshal\<close> writes for the result.
\<close>

section \<open>Decoding into \<open>any\<close>\<close>

definition last_wins :: "(string \<times> jval) list \<Rightarrow> (string \<times> jval) list" where
  "last_wins ms = fold (\<lambda>(k, v) acc. AList.update k v acc) ms []"

fun to_any :: "jval \<Rightarrow> jval option" where
  "to_any (JNumber l) = map_option JFloat (ParseFloat l)"
| "to_any (JArray vs) = map_option JArray (those (map to_any vs))"
| "to_any (JObject ms) =
     map_option (\<lambda>ms'. JObject (last_wins ms')) (those (map (\<lambda>(k, v). map_option (Pair k) (to_any v)) ms))"
| "to_any v = Some v"

definition Unmarshal_any :: "string \<Rightarrow> jval option" where
  "Unmarshal_any s = Option.bind (parse_json s) to_any"

section \<open>The digests\<close>

definition JSONDigest :: "string \<Rightarrow> string result" where
  "JSONDigest value =
     (if value = [] then fail ''value is not valid JSON''
      else case Unmarshal_any value of
             None \<Rightarrow> fail ''value is not valid JSON''
           | Some decoded \<Rightarrow> Inr (sha_digest (Marshal_any decoded)))"

text \<open>The canonical bytes of a typed action: the anonymous struct of \<open>ActionDigest\<close>.\<close>

definition action_text :: "string \<Rightarrow> string \<Rightarrow> string \<Rightarrow> string \<Rightarrow> jval \<Rightarrow> string" where
  "action_text capabilityDigest operation resource environment decoded =
     object_text [(''capability_digest'', quote capabilityDigest), (''operation'', quote operation),
       (''resource'', quote resource), (''environment'', quote environment),
       (''parameters'', Marshal_any decoded)]"

definition ActionDigest :: "string \<Rightarrow> string \<Rightarrow> string \<Rightarrow> string \<Rightarrow> string \<Rightarrow> string result" where
  "ActionDigest capabilityDigest operation resource environment parameters =
     (if \<not> authorizationDigestPattern capabilityDigest \<or> blank operation \<or> blank resource \<or> blank environment
      then fail ''typed action identity is incomplete''
      else if parameters = [] then fail ''typed action parameters are invalid''
      else case Unmarshal_any parameters of
             None \<Rightarrow> fail ''typed action parameters are invalid''
           | Some decoded \<Rightarrow>
               Inr (sha_digest (action_text capabilityDigest operation resource environment decoded)))"

lemma Unmarshal_any_Nil [simp]: "Unmarshal_any [] = None"
  by (simp add: Unmarshal_any_def parse_json_def scan_value.simps [of _ "[]"] skip_ws_def)

lemma JSONDigest_iff [result_iff]:
  "JSONDigest s = Inr d \<longleftrightarrow> (\<exists>v. Unmarshal_any s = Some v \<and> d = sha_digest (Marshal_any v))"
  by (auto simp: JSONDigest_def split: option.splits)

lemma JSONDigest_no_panic: "JSONDigest s \<noteq> Inl Panic"
  by (auto simp: JSONDigest_def split: option.splits)

lemma ActionDigest_iff [result_iff]:
  "ActionDigest c op res env ps = Inr d \<longleftrightarrow>
     digestPattern c \<and> \<not> blank op \<and> \<not> blank res \<and> \<not> blank env \<and>
     (\<exists>v. Unmarshal_any ps = Some v \<and> d = sha_digest (action_text c op res env v))"
  by (auto simp: ActionDigest_def authorizationDigestPattern_def split: option.splits)

lemma ActionDigest_no_panic: "ActionDigest c op res env ps \<noteq> Inl Panic"
  by (auto simp: ActionDigest_def split: option.splits)

text \<open>Equations that evaluate the scanner and the rounding on a concrete text.\<close>

lemmas number_eval = scan_number_def scan_sign_def scan_int_def scan_frac_def scan_exp_def
  scan_digits_def is_digit_def between_def number_parts_def exp_val_def Let_def

lemmas json_eval = parse_json_def scan_value.simps scan_members.simps scan_elements.simps skip_ws_def
  is_ws_def scan_scalar_def scan_name_def scan_word_def HasPrefix_def prepend_def maxNestingDepth_def
  number_eval

lemmas float_eval = ParseFloat_def round_f64_def scale_def digits_val_def digit_val_def bitlen.simps
  round_even_def number_eval

section \<open>Binding\<close>

text \<open>
  A digest function hashes an encoding. Whatever the encoding keeps apart the digest keeps
  apart, unless the two encodings collide under SHA-256.
\<close>

locale digest_binding =
  fixes digest :: "'a \<Rightarrow> string result"
    and encoding :: "'a \<Rightarrow> string \<Rightarrow> bool"
    and same :: "'a \<Rightarrow> 'a \<Rightarrow> bool"
    and bindable :: "'a \<Rightarrow> bool"
  assumes digest_encoding: "digest a = Inr d \<Longrightarrow> \<exists>e. encoding a e \<and> d = sha_digest e"
    and encoding_same: "encoding a e \<Longrightarrow> encoding b e \<Longrightarrow> bindable a \<Longrightarrow> bindable b \<Longrightarrow> same a b"
begin

lemma digest_shape: "digest a = Inr d \<Longrightarrow> digestPattern d"
  using digest_encoding by fastforce

lemma digest_binds:
  assumes "digest a = Inr d" "digest b = Inr d" "bindable a" "bindable b"
  shows "same a b \<or> (\<exists>e e'. encoding a e \<and> encoding b e' \<and> sha_collision e e')"
proof -
  obtain e e' where "encoding a e" "d = sha_digest e" "encoding b e'" "d = sha_digest e'"
    using digest_encoding assms(1,2) by blast
  then show ?thesis using sha_digest_binding [of e e'] encoding_same assms(3,4) by metis
qed

end

text \<open>The parts of an action, as its digest takes them.\<close>

type_synonym action_parts = "string \<times> string \<times> string \<times> string \<times> string"

definition action_digest_of :: "action_parts \<Rightarrow> string result" where
  "action_digest_of a = (case a of (c, op, res, env, ps) \<Rightarrow> ActionDigest c op res env ps)"

definition action_encoding :: "action_parts \<Rightarrow> string \<Rightarrow> bool" where
  "action_encoding a e = (case a of (c, op, res, env, ps) \<Rightarrow>
     digestPattern c \<and> (\<exists>v. Unmarshal_any ps = Some v \<and> e = action_text c op res env v))"

text \<open>
  Two actions name the same capability, operation, resource and environment, and their
  parameters decode to values with the same canonical text.
\<close>

definition same_action :: "action_parts \<Rightarrow> action_parts \<Rightarrow> bool" where
  "same_action a b = (case (a, b) of ((c, op, res, env, ps), (c', op', res', env', ps')) \<Rightarrow>
     c = c' \<and> op = op' \<and> res = res' \<and> env = env'
     \<and> map_option Marshal_any (Unmarshal_any ps) = map_option Marshal_any (Unmarshal_any ps'))"

definition action_utf8 :: "action_parts \<Rightarrow> bool" where
  "action_utf8 a = (case a of (c, op, res, env, ps) \<Rightarrow>
     ValidString op \<and> ValidString res \<and> ValidString env)"

lemma digestPattern_valid: "digestPattern s \<Longrightarrow> ValidString s"
  using digestPattern_solid solid_list_valid by blast

lemma action_text_inject:
  assumes "digestPattern c" "digestPattern c'"
    and "ValidString op" "ValidString res" "ValidString env"
    and "ValidString op'" "ValidString res'" "ValidString env'"
    and eq: "action_text c op res env v = action_text c' op' res' env' v'"
  shows "c = c' \<and> op = op' \<and> res = res' \<and> env = env' \<and> Marshal_any v = Marshal_any v'"
proof -
  have 1: "quote c @ x = quote c' @ y \<Longrightarrow> c = c' \<and> x = y" for x y
    using quote_prefix_free assms(1,2) digestPattern_valid by blast
  note q = quote_prefix_free [OF assms(3,6)] quote_prefix_free [OF assms(4,7)]
    quote_prefix_free [OF assms(5,8)]
  show ?thesis
    using eq unfolding action_text_def object_text_def
    by (auto simp: member_text_def dest!: 1 q)
qed

interpretation action_binding: digest_binding action_digest_of action_encoding same_action action_utf8
proof unfold_locales
  show "\<exists>e. action_encoding a e \<and> d = sha_digest e" if "action_digest_of a = Inr d" for a d
    using that by (auto simp: action_digest_of_def action_encoding_def result_iff split: prod.splits)
  show "same_action a b" if h: "action_encoding a e" "action_encoding b e" "action_utf8 a" "action_utf8 b" for a b e
  proof -
    obtain c op res env ps c' op' res' env' ps' where ab: "a = (c, op, res, env, ps)" "b = (c', op', res', env', ps')"
      by (metis prod_cases5)
    obtain v v' where "Unmarshal_any ps = Some v" "Unmarshal_any ps' = Some v'" "digestPattern c" "digestPattern c'"
      "action_text c op res env v = action_text c' op' res' env' v'"
      using h(1,2) by (auto simp: action_encoding_def ab)
    then show ?thesis
      using h(3,4) action_text_inject [of c c' op res env op' res' env' v v']
      by (simp add: same_action_def action_utf8_def ab)
  qed
qed

definition json_encoding :: "string \<Rightarrow> string \<Rightarrow> bool" where
  "json_encoding s e \<longleftrightarrow> (\<exists>v. Unmarshal_any s = Some v \<and> e = Marshal_any v)"

definition same_json :: "string \<Rightarrow> string \<Rightarrow> bool" where
  "same_json s t \<longleftrightarrow> map_option Marshal_any (Unmarshal_any s) = map_option Marshal_any (Unmarshal_any t)"

interpretation json_binding: digest_binding JSONDigest json_encoding same_json "\<lambda>_. True"
  by unfold_locales (auto simp: json_encoding_def same_json_def result_iff)

lemma action_binding_texts:
  assumes "ActionDigest c op res env ps = Inr d" "ActionDigest c' op' res' env' ps' = Inr d"
    and "ValidString op \<and> ValidString res \<and> ValidString env \<and> ValidString op' \<and> ValidString res' \<and> ValidString env'"
  shows "\<exists>v v'. Unmarshal_any ps = Some v \<and> Unmarshal_any ps' = Some v' \<and>
    (c = c' \<and> op = op' \<and> res = res' \<and> env = env' \<and> Marshal_any v = Marshal_any v' \<or>
     sha_collision (action_text c op res env v) (action_text c' op' res' env' v'))"
proof -
  obtain v v' where v: "Unmarshal_any ps = Some v" "d = sha_digest (action_text c op res env v)" "digestPattern c"
    "Unmarshal_any ps' = Some v'" "d = sha_digest (action_text c' op' res' env' v')" "digestPattern c'"
    using assms(1,2) by (auto simp: ActionDigest_iff)
  then have "action_text c op res env v = action_text c' op' res' env' v' \<or>
      sha_collision (action_text c op res env v) (action_text c' op' res' env' v')"
    using sha_digest_binding by simp
  then show ?thesis
    using v assms(3) action_text_inject [of c c' op res env op' res' env' v v'] by auto
qed

end
