(* ===== verification/Structs.thy ===== *)
theory Structs
  imports Canonical_Numbers Digests
begin

text \<open>
  What \<open>json.Marshal\<close> writes for a Go struct: an object with the fields in the order of the
  declaration, \<open>omitempty\<close> fields left out when empty. A struct without raw parts is
  described by the tree of its text; trees are told apart by their texts.
\<close>

section \<open>Fields\<close>

definition omit :: "bool \<Rightarrow> string \<Rightarrow> 'a \<Rightarrow> (string \<times> 'a) list" where
  "omit absent k v = (if absent then [] else [(k, v)])"

definition strings_json :: "string list \<Rightarrow> jval" where
  "strings_json xs = JArray (map JString xs)"

definition int_json :: "int \<Rightarrow> jval" where
  "int_json i = JNumber (Itoa i)"

text \<open>\<open>any\<close> fields: a tree in Go's \<open>any\<close>, whose maps are written sorted.\<close>

definition any_json :: "jval \<Rightarrow> jval" where
  "any_json v = sort_keys v"

lemma omit_eq [simp]:
  "omit e k v = [] \<longleftrightarrow> e" "omit e k v = [x] \<longleftrightarrow> \<not> e \<and> x = (k, v)"
  by (auto simp: omit_def)

lemma set_omit [simp]: "set (omit e k v) = (if e then {} else {(k, v)})"
  by (simp add: omit_def)

section \<open>Raw parts\<close>

text \<open>
  \<open>json.RawMessage\<close> fields are copied without the white space between tokens and with the
  HTML-unsafe characters of strings escaped. The flag says whether the scan is inside a
  string. The empty string stands for the nil message, written \<open>null\<close>.
\<close>

fun compact :: "bool \<Rightarrow> string \<Rightarrow> string" where
  "compact quoted [] = []"
| "compact False (c # s) =
     (if is_ws c then compact False s
      else if c = CHR 0x22 then c # compact True s
      else c # compact False s)"
| "compact True (c # s) =
     (if c = CHR 0x22 then c # compact False s
      else if c = CHR 0x5C then (case s of [] \<Rightarrow> [c] | e # t \<Rightarrow> c # e # compact True t)
      else if c \<in> set ''<>&''
           then CHR 0x5C # ''u00'' @ [hex_digit (code c div 16), hex_digit (code c mod 16)] @ compact True s
      else if take 3 (c # s) = map byte [0xE2, 0x80, 0xA8] then CHR 0x5C # ''u2028'' @ compact True (drop 2 s)
      else if take 3 (c # s) = map byte [0xE2, 0x80, 0xA9] then CHR 0x5C # ''u2029'' @ compact True (drop 2 s)
      else c # compact True s)"

text \<open>The messages of \<open>encoding/json\<close> itself are abridged.\<close>

definition raw_text :: "string \<Rightarrow> string result" where
  "raw_text raw =
     (if raw = [] then Inr ''null''
      else if json_Valid raw then Inr (compact False raw)
      else fail ''json: error calling MarshalJSON for type json.RawMessage'')"

text \<open>\<open>json.Number\<close>\<close>

definition number_text :: "string \<Rightarrow> string result" where
  "number_text n =
     (if n = [] then Inr ''0'' else if is_number n then Inr n else fail ''json: invalid number literal'')"

lemma raw_text_avoids [avoids_intros]: "avoids {Panic} (raw_text r)"
  unfolding raw_text_def by (intro avoids_intros)

lemma number_text_avoids [avoids_intros]: "avoids {Panic} (number_text r)"
  unfolding number_text_def by (intro avoids_intros)

text \<open>An object of members of which some may fail to marshal.\<close>

definition struct_text :: "(string \<times> string result) list \<Rightarrow> string result" where
  "struct_text ms =
     and_then (traverse (\<lambda>(k, t). and_then t (\<lambda>t. Inr (k, t))) ms) (\<lambda>ms. Inr (object_text ms))"

abbreviation str :: "string \<Rightarrow> string result" where
  "str s \<equiv> Inr (quote s)"

lemma struct_text_avoids [avoids_intros]:
  "(\<And>k t. (k, t) \<in> set ms \<Longrightarrow> avoids F t) \<Longrightarrow> avoids F (struct_text ms)"
  unfolding struct_text_def by (intro avoids_intros) (auto intro!: avoids_intros)

section \<open>Numbers\<close>

lemma is_number_canon_text: "is_number (canon_text neg m k)"
  using SetString_canon_text SetString_is_number by (metis option.distinct(1))

lemma is_number_Itoa [simp]: "is_number (Itoa i)"
proof -
  have "digit_char 0 = CHR ''0''" by code_simp
  then have "nat_text 0 = ''0''" by (simp add: nat_text.simps)
  then have "Itoa i = canon_text (i < 0) (nat (abs i)) 0"
    by (auto simp: Itoa_def canon_text_def)
  then show ?thesis using is_number_canon_text by metis
qed

lemma nat_text_inject [simp]: "nat_text m = nat_text n \<longleftrightarrow> m = n"
  by (metis digits_val_nat_text)

lemma Itoa_inject [simp]: "Itoa i = Itoa j \<longleftrightarrow> i = j"
proof -
  have "CHR ''-'' # nat_text m \<noteq> nat_text n" for m n
    using nat_text_Cons [of n] by auto
  then show ?thesis by (auto simp: Itoa_def nat_eq_iff dest: sym)
qed

section \<open>Trees and texts\<close>

lemma wf_sort_keys [simp]: "wf_json (sort_keys v) \<longleftrightarrow> wf_json v"
  by (induction v rule: sort_keys.induct) (auto simp: list_all_iff)

lemma wf_struct_parts [simp]:
  "wf_json (int_json i)" "wf_json (strings_json xs) \<longleftrightarrow> list_all ValidString xs"
  "wf_json (any_json v) \<longleftrightarrow> wf_json v"
  by (simp_all add: int_json_def strings_json_def any_json_def list_all_iff)

lemma lits_struct_parts [simp]:
  "lits (int_json i) = int_json i" "lits (strings_json xs) = strings_json xs"
  by (simp_all add: int_json_def strings_json_def)

lemma struct_parts_inject [simp]:
  "int_json i = int_json j \<longleftrightarrow> i = j" "strings_json xs = strings_json ys \<longleftrightarrow> xs = ys"
  by (auto simp: int_json_def strings_json_def inj_map_eq_map inj_def)

text \<open>The text of a tree determines the tree, up to the spelling of its doubles.\<close>

lemma json_text_inject:
  assumes "wf_json v" "wf_json w" "json_text v = json_text w"
  shows "lits v = lits w"
proof -
  define d where "d = max (nest v) (nest w)"
  have "denotes d (json_text v) (lits v)" "denotes d (json_text w) (lits w)"
    using assms(1,2) by (simp_all add: denotes_json_text d_def)
  then show ?thesis using denotes_prefix_free [of d _ _ _ _ "[]" "[]"] assms(3) by simp
qed

text \<open>Two \<open>any\<close> values with the same canonical text.\<close>

definition same_any :: "jval \<Rightarrow> jval \<Rightarrow> bool" where
  "same_any v w \<longleftrightarrow> lits (any_json v) = lits (any_json w)"

section \<open>Members of a tree\<close>

text \<open>Struct trees are compared member by member.\<close>

fun lookup :: "string \<Rightarrow> (string \<times> 'a) list \<Rightarrow> 'a option" where
  "lookup k [] = None"
| "lookup k ((k', v) # ms) = (if k = k' then Some v else lookup k ms)"

definition member :: "string \<Rightarrow> jval \<Rightarrow> jval option" where
  "member k j = (case j of JObject ms \<Rightarrow> lookup k ms | _ \<Rightarrow> None)"

lemma member_JObject [simp]: "member k (JObject ms) = lookup k ms"
  by (simp add: member_def)

lemma lookup_append [simp]:
  "lookup k (xs @ ys) = (case lookup k xs of None \<Rightarrow> lookup k ys | Some v \<Rightarrow> Some v)"
  by (induction xs rule: lookup.induct [of _ k]) auto

lemma lookup_omit [simp]: "lookup k (omit absent k' v) = (if absent \<or> k \<noteq> k' then None else Some v)"
  by (simp add: omit_def)

lemma lits_omit [simp]: "map (\<lambda>(k, v). (k, lits v)) (omit absent k v) = omit absent k (lits v)"
  by (simp add: omit_def)

lemma member_eq: "j = j' \<Longrightarrow> member k j = member k j'"
  by simp

section \<open>A schema, as \<open>validateSchema\<close> accepts it\<close>

definition validateSchema :: "jval \<Rightarrow> string \<Rightarrow> unit result" where
  "validateSchema value label =
     (let encoded = json_text (any_json value)
      in if encoded = [] \<or> encoded = ''null'' then fail (label @ '' schema is invalid'')
         else case Unmarshal_any encoded of
                Some (JObject object) \<Rightarrow>
                  if map_of object ''type'' \<noteq> Some (JString ''object'')
                  then fail (label @ '' schema must be a JSON object schema'') else ok
              | _ \<Rightarrow> fail (label @ '' schema must be a JSON object schema''))"

lemma validateSchema_avoids [avoids_intros]: "avoids {Panic} (validateSchema v label)"
  by (auto simp: validateSchema_def Let_def avoids_intros split: option.split jval.split)

text \<open>The label does not matter for the verdict.\<close>

lemma validateSchema_label: "validateSchema v label = ok \<longleftrightarrow> validateSchema v label' = ok"
  by (auto simp: validateSchema_def Let_def split: option.splits jval.splits)

end
