(* ===== verification/GoTime.thy ===== *)
theory GoTime
  imports GoText "HOL-Library.Monad_Syntax"
begin

text \<open>
  \<open>time.Time\<close> and \<open>time.Duration\<close> as the SDK uses them. A time is an instant in
  nanoseconds since 0001-01-01T00:00:00 UTC (so \<open>IsZero\<close> is instant 0) together with the
  offset of its location, which only its text shows. A duration is a signed 64-bit number of
  nanoseconds; where the code multiplies a declared number of seconds by \<open>time.Second\<close> the
  product wraps as Go's does.
\<close>

section \<open>Instants and durations\<close>

record gotime =
  inst :: int
  zone :: int

definition wrap64 :: "int \<Rightarrow> int" where
  "wrap64 x = (x + 2 ^ 63) mod 2 ^ 64 - 2 ^ 63"

definition Nanosecond :: int where "Nanosecond = 1"
definition Second :: int where "Second = 1000000000"
definition Minute :: int where "Minute = 60 * Second"

text \<open>\<open>time.Duration(n) * time.Second\<close>\<close>

definition seconds :: "int \<Rightarrow> int" where
  "seconds n = wrap64 (n * Second)"

definition AddT :: "gotime \<Rightarrow> int \<Rightarrow> gotime" where
  "AddT t d = t\<lparr>inst := inst t + d\<rparr>"

definition After :: "gotime \<Rightarrow> gotime \<Rightarrow> bool" where
  "After t u \<longleftrightarrow> inst t > inst u"

definition Before :: "gotime \<Rightarrow> gotime \<Rightarrow> bool" where
  "Before t u \<longleftrightarrow> inst t < inst u"

definition IsZero :: "gotime \<Rightarrow> bool" where
  "IsZero t \<longleftrightarrow> inst t = 0"

definition UTC :: "gotime \<Rightarrow> gotime" where
  "UTC t = t\<lparr>zone := 0\<rparr>"

text \<open>\<open>t.Sub(u)\<close> saturates at the ends of the duration type.\<close>

definition SubT :: "gotime \<Rightarrow> gotime \<Rightarrow> int" where
  "SubT t u = max (- (2 ^ 63)) (min (2 ^ 63 - 1) (inst t - inst u))"

named_theorems time_defs "the clock arithmetic unfolded to instants"

lemmas [time_defs] = AddT_def After_def Before_def IsZero_def UTC_def

lemma wrap64_id: "- (2 ^ 63) \<le> x \<Longrightarrow> x < 2 ^ 63 \<Longrightarrow> wrap64 x = x"
  by (simp add: wrap64_def)

lemma wrap64_range: "- (2 ^ 63) \<le> wrap64 x \<and> wrap64 x < 2 ^ 63"
proof -
  have "0 \<le> (x + 2 ^ 63) mod 2 ^ 64" "(x + 2 ^ 63) mod 2 ^ 64 < (2 ^ 64 :: int)"
    by (rule pos_mod_sign, simp) (rule pos_mod_bound, simp)
  then show ?thesis by (simp add: wrap64_def)
qed

text \<open>The product is exact for every lifetime the SDK accepts (at most a day).\<close>

lemma seconds_exact: "0 \<le> n \<Longrightarrow> n \<le> 86400 \<Longrightarrow> seconds n = n * Second"
  unfolding seconds_def by (rule wrap64_id) (auto simp: Second_def)

section \<open>Freshness\<close>

text \<open>
  Requests carry the time they were made. A check that accepts a request made at \<open>sent\<close> when
  the clock shows \<open>now\<close> tolerates a clock that is ahead by \<open>skew\<close> and an age of \<open>age\<close>. Several
  checks of the SDK have this contract; all they accept lies in one window of the clock.
\<close>

locale freshness =
  fixes accepts :: "gotime \<Rightarrow> gotime \<Rightarrow> bool"
    and skew :: int
    and age :: int
  assumes not_future: "accepts now sent \<Longrightarrow> inst sent \<le> inst now + skew"
    and not_old: "accepts now sent \<Longrightarrow> inst now \<le> inst sent + age"
begin

lemma accept_window: "accepts now sent \<Longrightarrow> inst now \<in> {inst sent - skew .. inst sent + age}"
  using not_future not_old by fastforce

lemma accept_span: "accepts now sent \<Longrightarrow> accepts later sent \<Longrightarrow> inst later - inst now \<le> age + skew"
  using not_future [of now sent] not_old [of later sent] by simp

lemma expired: "inst sent + age < inst now \<Longrightarrow> \<not> accepts now sent"
  using not_old by fastforce

end

text \<open>
  A memory that forgets: a step that accepts a key records it with a time; a step whose
  clock has not passed that time by more than \<open>retention\<close> keeps the record and does not accept
  the key again. Then two acceptances of one key are more than \<open>retention\<close> apart.
\<close>

locale expiring_memory =
  fixes step :: "'s \<Rightarrow> 'e \<Rightarrow> 's \<Rightarrow> bool"
    and recall :: "'s \<Rightarrow> 'k \<Rightarrow> gotime option"
    and accepted :: "'e \<Rightarrow> 'k option"
    and check_at :: "'e \<Rightarrow> gotime"
    and record_at :: "'e \<Rightarrow> gotime"
    and retention :: int
  assumes remembers: "step s e s' \<Longrightarrow> accepted e = Some k \<Longrightarrow>
            \<exists>t. recall s' k = Some t \<and> inst t = inst (record_at e)"
    and keeps: "step s e s' \<Longrightarrow> recall s k = Some t \<Longrightarrow> inst (check_at e) \<le> inst t + retention \<Longrightarrow>
            accepted e \<noteq> Some k \<and> recall s' k = Some t"
begin

lemma run_keeps:
  "run step s es s' \<Longrightarrow> recall s k = Some t \<Longrightarrow> (\<forall>e \<in> set es. inst (check_at e) \<le> inst t + retention) \<Longrightarrow>
     recall s' k = Some t \<and> (\<forall>e \<in> set es. accepted e \<noteq> Some k)"
proof (induction rule: run.induct)
  case (run_Cons s e s1 es s2)
  then show ?case using keeps [of s e s1 k t] by simp
qed simp

lemma reaccepted_late:
  assumes "run step s (e # es @ [e']) s'" "accepted e = Some k" "accepted e' = Some k"
    and mono: "\<forall>d \<in> set es. inst (check_at d) \<le> inst (check_at e')"
  shows "inst (record_at e) + retention < inst (check_at e')"
proof (rule ccontr)
  assume n: "\<not> ?thesis"
  from assms(1) obtain s1 where s1: "step s e s1" "run step s1 (es @ [e']) s'" by auto
  obtain t where t: "recall s1 k = Some t" "inst t = inst (record_at e)" using remembers [OF s1(1) assms(2)] by blast
  have "\<forall>d \<in> set (es @ [e']). inst (check_at d) \<le> inst t + retention" using n mono t(2) by fastforce
  then show False using run_keeps [OF s1(2) t(1)] assms(3) by simp
qed

end

section \<open>The civil calendar\<close>

definition leap :: "int \<Rightarrow> bool" where
  "leap y \<longleftrightarrow> y mod 4 = 0 \<and> (y mod 100 \<noteq> 0 \<or> y mod 400 = 0)"

text \<open>Days from 0001-01-01 to the first of January of year \<open>y\<close>.\<close>

definition year_days :: "int \<Rightarrow> int" where
  "year_days y = (let n = y - 1 in 365 * n + n div 4 - n div 100 + n div 400)"

definition month_days :: "int \<Rightarrow> int list" where
  "month_days y = [31, if leap y then 29 else 28, 31, 30, 31, 30, 31, 31, 30, 31, 30, 31]"

text \<open>The month (from 0) and day of month (from 0) of a day of the year.\<close>

fun month_of :: "int list \<Rightarrow> int \<Rightarrow> nat \<times> int" where
  "month_of [] d = (0, d)"
| "month_of (l # ls) d =
     (if d < l then (0, d) else case month_of ls (d - l) of (m, r) \<Rightarrow> (Suc m, r))"

definition year_of :: "int \<Rightarrow> int" where
  "year_of d = (let y = (400 * d) div 146097 + 1
                in if d < year_days y then y - 1 else if year_days (y + 1) \<le> d then y + 1 else y)"

definition civil_days :: "int \<Rightarrow> nat \<Rightarrow> int \<Rightarrow> int" where
  "civil_days y m d = year_days y + sum_list (take m (month_days y)) + d"

lemma div_step:
  fixes n k :: int
  assumes "k > 0"
  shows "n div k = (n - 1) div k + (if n mod k = 0 then 1 else 0)"
proof -
  have n: "n = k * (n div k) + n mod k" and b: "0 \<le> n mod k" "n mod k < k"
    using assms by simp_all
  have "(n - 1) div k = n div k - (if n mod k = 0 then 1 else 0)"
  proof (cases "n mod k = 0")
    case True
    then have "n - 1 = k * (n div k - 1) + (k - 1)" using n by (simp add: right_diff_distrib)
    then have "(n - 1) div k = n div k - 1" by (rule int_div_pos_eq) (use assms in auto)
    with True show ?thesis by simp
  next
    case False
    have "n - 1 = k * (n div k) + (n mod k - 1)" using n by simp
    then have "(n - 1) div k = n div k" by (rule int_div_pos_eq) (use False b in auto)
    with False show ?thesis by simp
  qed
  then show ?thesis by simp
qed

lemma leap_sum:
  "(if y mod 4 = 0 then 1 else 0) - (if y mod 100 = 0 then 1 else 0)
     + (if y mod 400 = 0 then 1 else 0) = (if leap y then 1 else (0::int))"
proof -
  have "(100::int) dvd 400" "(4::int) dvd 100" by simp_all
  then have "400 dvd y \<Longrightarrow> 100 dvd y" "100 dvd y \<Longrightarrow> 4 dvd y"
    using dvd_trans by blast+
  then show ?thesis
    unfolding leap_def mod_eq_0_iff_dvd
    by (cases "400 dvd y"; cases "100 dvd y"; cases "4 dvd y") (simp_all only: simp_thms if_True if_False, simp_all)
qed

lemma year_days_step: "year_days (y + 1) = year_days y + 365 + (if leap y then 1 else 0)"
proof -
  have eq: "365 * y + a - b + c = 365 * (y - 1) + a' - b' + c' + 365 + (i - j + k)"
    if "a = a' + i" "b = b' + j" "c = c' + k" for a a' b b' c c' i j k :: int
    using that by simp
  show ?thesis
    using eq [OF div_step [of 4 y] div_step [of 100 y] div_step [of 400 y]]
    by (simp only: year_days_def Let_def leap_sum add_diff_cancel_right' zero_less_numeral)
qed

lemma div_bounds: "(k :: int) > 0 \<Longrightarrow> k * (n div k) \<le> n \<and> n < k * (n div k) + k"
  using mult_div_mod_eq [of k n] pos_mod_bound [of k n] pos_mod_sign [of k n] by linarith

lemma year_days_range: "146097 * (y - 1) - 699 \<le> 400 * year_days y \<and>
   400 * year_days y \<le> 146097 * (y - 1) + 396"
  using div_bounds [of 4 "y - 1"] div_bounds [of 100 "y - 1"] div_bounds [of 400 "y - 1"]
  by (simp add: year_days_def Let_def)

lemma year_of_bounds: "year_days (year_of d) \<le> d \<and> d < year_days (year_of d + 1)"
proof -
  define y where "y = (400 * d) div 146097 + 1"
  have "146097 * (y - 1) \<le> 400 * d" "400 * d < 146097 * (y - 1) + 146097"
    using div_bounds [of 146097 "400 * d"] by (simp_all add: y_def)
  then have "year_days (y - 1) \<le> d \<and> d < year_days (y + 2)"
    using year_days_range [of "y - 1"] year_days_range [of "y + 2"] by auto
  moreover have "year_of d = (if d < year_days y then y - 1
      else if year_days (y + 1) \<le> d then y + 1 else y)"
    by (simp add: year_of_def Let_def y_def)
  moreover have "y + 1 + 1 = y + 2" "y - 1 + 1 = y" by simp_all
  ultimately show ?thesis by (simp only:) (simp add: add.commute [of _ 2] split: if_splits)
qed

lemma year_days_mono: "y \<le> z \<Longrightarrow> year_days y \<le> year_days z"
proof (induction z rule: int_ge_induct)
  case (step z)
  then show ?case using year_days_step [of z] by (auto simp: add.commute)
qed simp

lemma year_of_unique: "year_days y \<le> d \<Longrightarrow> d < year_days (y + 1) \<Longrightarrow> year_of d = y"
  using year_of_bounds [of d] year_days_mono [of "year_of d + 1" y] year_days_mono [of "y + 1" "year_of d"]
  by linarith

lemma sum_month_days: "sum_list (month_days y) = 365 + (if leap y then 1 else 0)"
  by (simp add: month_days_def)

lemma month_of_split:
  "0 \<le> d \<Longrightarrow> d < sum_list ls \<Longrightarrow> month_of ls d = (m, r) \<Longrightarrow>
     m < length ls \<and> 0 \<le> r \<and> r < ls ! m \<and> sum_list (take m ls) + r = d"
proof (induction ls d arbitrary: m r rule: month_of.induct)
  case (2 l ls d)
  then show ?case by (fastforce split: if_splits prod.splits)
qed simp

text \<open>Every day has one date: the calendar is a bijection.\<close>

definition date_of :: "int \<Rightarrow> int \<times> nat \<times> int" where
  "date_of d = (let y = year_of d; (m, r) = month_of (month_days y) (d - year_days y) in (y, m, r))"

lemma date_of_correct:
  assumes "date_of d = (y, m, r)"
  shows "civil_days y m r = d \<and> m < 12 \<and> 0 \<le> r \<and> r < month_days y ! m"
proof -
  from assms have y: "y = year_of d" and m: "month_of (month_days y) (d - year_days y) = (m, r)"
    by (auto simp: date_of_def Let_def split: prod.splits)
  have "0 \<le> d - year_days y" "d - year_days y < sum_list (month_days y)"
    using year_of_bounds [of d] year_days_step [of y] by (auto simp: y sum_month_days)
  from month_of_split [OF this m] show ?thesis
    by (auto simp: civil_days_def month_days_def)
qed

section \<open>Text\<close>

text \<open>\<open>Format(time.RFC3339)\<close> (no fraction) and \<open>Format(time.RFC3339Nano)\<close>.\<close>

definition local_seconds :: "gotime \<Rightarrow> int" where
  "local_seconds t = (inst t + zone t * Second) div Second"

definition nanosecond :: "gotime \<Rightarrow> int" where
  "nanosecond t = inst t mod Second"

definition year_text :: "int \<Rightarrow> string" where
  "year_text y = (if y < 0 then CHR ''-'' # pad 4 (nat (- y)) else pad 4 (nat y))"

definition date_time_text :: "gotime \<Rightarrow> string" where
  "date_time_text t =
     (let (y, m, d) = date_of (local_seconds t div 86400); s = nat (local_seconds t mod 86400)
      in year_text y @ ''-'' @ pad 2 (Suc m) @ ''-'' @ pad 2 (Suc (nat d)) @ ''T''
         @ pad 2 (s div 3600) @ '':'' @ pad 2 (s div 60 mod 60) @ '':'' @ pad 2 (s mod 60))"

definition zone_text :: "gotime \<Rightarrow> string" where
  "zone_text t =
     (if zone t = 0 then ''Z''
      else let m = nat (abs (zone t)) div 60
           in (if sgn (zone t) * int m < 0 then ''-'' else ''+'')
              @ pad 2 (m div 60) @ '':'' @ pad 2 (m mod 60))"

definition FormatRFC3339 :: "gotime \<Rightarrow> string" where
  "FormatRFC3339 t = date_time_text t @ zone_text t"

definition fraction_text :: "gotime \<Rightarrow> string" where
  "fraction_text t = (if nanosecond t = 0 then []
     else CHR ''.'' # TrimRight (pad 9 (nat (nanosecond t))) (CHR ''0''))"

text \<open>
  \<open>Time.MarshalJSON\<close> between its quotes: RFC 3339 with nanoseconds, refused when the year
  is not four digits or the zone offset is a day or more.
\<close>

definition time_year :: "gotime \<Rightarrow> int" where
  "time_year t = fst (date_of (local_seconds t div 86400))"

definition time_text :: "gotime \<Rightarrow> string option" where
  "time_text t =
     (if 0 \<le> time_year t \<and> time_year t \<le> 9999 \<and> nat (abs (zone t)) div 3600 < 24
      then Some (date_time_text t @ fraction_text t @ zone_text t) else None)"

text \<open>
  \<open>time.Parse(time.RFC3339, s)\<close>: the layout's chunks in order. As in the library the hour
  may be one digit, a fraction of a second (after a dot or a comma) is accepted though the
  layout has none, and a zone offset may reach 24 hours 60 minutes.
\<close>

definition expect :: "char \<Rightarrow> string \<Rightarrow> string option" where
  "expect c s = (case s of d # r \<Rightarrow> if d = c then Some r else None | [] \<Rightarrow> None)"

definition getnum :: "bool \<Rightarrow> string \<Rightarrow> (nat \<times> string) option" where
  "getnum fixed s = (case s of
      a # b # r \<Rightarrow> if \<not> is_digit a then None
                 else if is_digit b then Some (10 * digit_val a + digit_val b, r)
                 else if fixed then None else Some (digit_val a, b # r)
    | [a] \<Rightarrow> if is_digit a \<and> \<not> fixed then Some (digit_val a, []) else None
    | [] \<Rightarrow> None)"

definition fraction :: "string \<Rightarrow> nat \<times> string" where
  "fraction s = (case s of
      p # d # r \<Rightarrow>
        if (p = CHR ''.'' \<or> p = CHR '','') \<and> is_digit d
        then let ds = takeWhile is_digit (d # r); k = take 9 ds
             in (digits_val k * 10 ^ (9 - length k), dropWhile is_digit (d # r))
        else (0, s)
    | _ \<Rightarrow> (0, s))"

definition parse_zone :: "string \<Rightarrow> (int \<times> string) option" where
  "parse_zone s = (case s of
      [] \<Rightarrow> None
    | c # r \<Rightarrow>
        if c = CHR ''Z'' then Some (0, r)
        else if length s < 6 \<or> s ! 3 \<noteq> CHR '':'' then None
        else do {
          (h, _) \<leftarrow> getnum True (take 2 r);
          (m, _) \<leftarrow> getnum True (take 2 (drop 3 r));
          if h > 24 \<or> m > 60 then None
          else if c = CHR ''+'' then Some (int (h * 60 + m) * 60, drop 6 s)
          else if c = CHR ''-'' then Some (- int (h * 60 + m) * 60, drop 6 s)
          else None
        })"

definition ParseRFC3339 :: "string \<Rightarrow> gotime option" where
  "ParseRFC3339 s = do {
     y \<leftarrow> (if length s \<ge> 4 \<and> list_all is_digit (take 4 s) then Some (digits_val (take 4 s)) else None);
     s \<leftarrow> expect (CHR ''-'') (drop 4 s);
     (mo, s) \<leftarrow> getnum True s;
     s \<leftarrow> (if mo = 0 \<or> mo > 12 then None else expect (CHR ''-'') s);
     (d, s) \<leftarrow> getnum True s;
     s \<leftarrow> expect (CHR ''T'') s;
     (h, s) \<leftarrow> getnum False s;
     s \<leftarrow> (if h > 23 then None else expect (CHR '':'') s);
     (mi, s) \<leftarrow> getnum True s;
     s \<leftarrow> (if mi > 59 then None else expect (CHR '':'') s);
     (se, s) \<leftarrow> getnum True s;
     (ns, s) \<leftarrow> (if se > 59 then None else Some (fraction s));
     (z, s) \<leftarrow> parse_zone s;
     (if s \<noteq> [] \<or> d = 0 \<or> int d > month_days (int y) ! (mo - 1) then None
      else Some \<lparr>inst = (civil_days (int y) (mo - 1) (int d - 1) * 86400
                          + int (h * 3600 + mi * 60 + se) - z) * Second + int ns, zone = z\<rparr>)
   }"

end
