(* ===== verification/Ceilings.thy ===== *)
theory Ceilings
  imports Parameters
begin

text \<open>
  Parameter ceilings (\<open>ParameterLimits\<close> in \<open>constraints.go\<close>): what \<open>Validate\<close> accepts and
  what \<open>Matches\<close> permits, with the declarative reading of a ceiling and the proof that the
  loops implement it.
\<close>

section \<open>Limits\<close>

record ParameterLimit =
  pl_Type :: string
  pl_Optional :: bool
  pl_AllowedValues :: "string list option"
  pl_Minimum :: "string option"
  pl_Maximum :: "string option"

text \<open>\<open>Fields\<close> is a map, or nil.\<close>

record ParameterLimits =
  pls_Fields :: "(string \<times> ParameterLimit) list option"

text \<open>\<open>len\<close> and \<open>range\<close> of a slice that may be nil.\<close>

definition items :: "'a list option \<Rightarrow> 'a list" where
  "items s = (case s of Some xs \<Rightarrow> xs | None \<Rightarrow> [])"

definition inRange :: "ParameterLimit \<Rightarrow> jval \<Rightarrow> bool result" where
  "inRange p value =
     (case value of
        JNumber n \<Rightarrow>
          and_then (case pl_Minimum p of None \<Rightarrow> Inr True
                    | Some m \<Rightarrow> and_then (compareNumber n m) (\<lambda>c. Inr (c \<ge> 0)))
            (\<lambda>above. if \<not> above then Inr False
              else case pl_Maximum p of None \<Rightarrow> Inr True
                   | Some m \<Rightarrow> and_then (compareNumber n m) (\<lambda>c. Inr (c \<le> 0)))
      | _ \<Rightarrow> Inr (pl_Minimum p = None \<and> pl_Maximum p = None))"

definition check_bound :: "string \<Rightarrow> string option \<Rightarrow> unit result" where
  "check_bound kind n =
     (case n of
        None \<Rightarrow> ok
      | Some l \<Rightarrow> and_then (or_fail (decodeParameterJSON l) ''invalid numeric limit'')
          (\<lambda>value. if \<not> parameterType value kind then fail ''invalid numeric limit'' else ok))"

definition check_range :: "ParameterLimit \<Rightarrow> unit result" where
  "check_range p =
     (if pl_Minimum p = None \<and> pl_Maximum p = None then ok
      else if pl_Type p \<noteq> ''integer'' \<and> pl_Type p \<noteq> ''number'' then fail ''numeric limits require numeric type''
      else and_then (check_bound (pl_Type p) (pl_Minimum p)) (\<lambda>_.
           and_then (check_bound (pl_Type p) (pl_Maximum p)) (\<lambda>_.
             case (pl_Minimum p, pl_Maximum p) of
               (Some lo, Some hi) \<Rightarrow> and_then (compareNumber lo hi)
                  (\<lambda>c. if c > 0 then fail ''parameter range is inverted'' else ok)
             | _ \<Rightarrow> ok)))"

fun check_allowed :: "ParameterLimit \<Rightarrow> string list \<Rightarrow> unit result" where
  "check_allowed p [] = ok"
| "check_allowed p (raw # raws) =
     and_then (or_fail (decodeParameterJSON raw) ''invalid allowed parameter value'') (\<lambda>value.
       if \<not> parameterType value (pl_Type p) then fail ''invalid allowed parameter value''
       else and_then (inRange p value) (\<lambda>inside.
         if \<not> inside then fail ''invalid allowed parameter value'' else check_allowed p raws))"

definition parameter_types :: "string list" where
  "parameter_types = [''string'', ''boolean'', ''integer'', ''number'', ''object'', ''array'']"

definition check_limit :: "string \<Rightarrow> ParameterLimit \<Rightarrow> unit result" where
  "check_limit key p =
     (if key = [] \<or> length key > 256 \<or> length (items (pl_AllowedValues p)) > 64
      then fail ''invalid parameter limit''
      else if pl_Type p \<notin> set parameter_types then fail ''unsupported parameter type''
      else and_then (check_range p) (\<lambda>_.
        if pl_AllowedValues p = Some [] then fail ''empty allowed values''
        else if (pl_Type p = ''object'' \<or> pl_Type p = ''array'') \<and> items (pl_AllowedValues p) = []
        then fail ''structured parameters require exact allowed values''
        else check_allowed p (items (pl_AllowedValues p))))"

fun check_fields :: "(string \<times> ParameterLimit) list \<Rightarrow> unit result" where
  "check_fields [] = ok"
| "check_fields ((key, p) # others) = and_then (check_limit key p) (\<lambda>_. check_fields others)"

definition ParameterLimits_Validate :: "ParameterLimits \<Rightarrow> unit result" where
  "ParameterLimits_Validate p =
     (case pls_Fields p of
        None \<Rightarrow> fail ''parameter fields must be an explicit bounded object''
      | Some entries \<Rightarrow>
          if length entries > 64 then fail ''parameter fields must be an explicit bounded object''
          else check_fields entries)"

section \<open>Matching\<close>

definition allows_value :: "ParameterLimit \<Rightarrow> jval \<Rightarrow> bool" where
  "allows_value p value =
     (items (pl_AllowedValues p) = [] \<or>
      list_ex (\<lambda>raw. case decodeParameterJSON raw of
                       Inr allowed \<Rightarrow> parameterEqual value allowed | Inl _ \<Rightarrow> False)
        (items (pl_AllowedValues p)))"

definition match_field :: "ParameterLimit \<Rightarrow> jval option \<Rightarrow> bool result" where
  "match_field p entry =
     (case entry of
        None \<Rightarrow> Inr (pl_Optional p)
      | Some value \<Rightarrow>
          if \<not> parameterType value (pl_Type p) then Inr False
          else and_then (inRange p value) (\<lambda>inside.
                 if \<not> inside then Inr False else Inr (allows_value p value)))"

fun match_fields :: "(string \<times> ParameterLimit) list \<Rightarrow> (string \<times> jval) list \<Rightarrow> bool result" where
  "match_fields [] vals = Inr True"
| "match_fields ((key, p) # others) vals =
     and_then (match_field p (map_of vals key)) (\<lambda>matched.
       if \<not> matched then Inr False else match_fields others vals)"

definition ParameterLimits_Matches :: "ParameterLimits \<Rightarrow> string \<Rightarrow> bool result" where
  "ParameterLimits_Matches p raw =
     and_then (no_error (ParameterLimits_Validate p)) (\<lambda>valid.
       if \<not> valid then Inr False
       else case decodeParameterJSON raw of
              Inr (JObject vals) \<Rightarrow>
                if list_all (\<lambda>(key, _). key \<in> fst ` set (items (pls_Fields p))) vals
                then match_fields (items (pls_Fields p)) vals
                else Inr False
            | Inl Panic \<Rightarrow> Inl Panic
            | _ \<Rightarrow> Inr False)"

section \<open>The declarative reading\<close>

definition at_least :: "string \<Rightarrow> string \<Rightarrow> bool" where
  "at_least n m \<longleftrightarrow> (\<exists>x y. SetString n = Some x \<and> SetString m = Some y \<and> y \<le> x)"

definition in_bounds :: "ParameterLimit \<Rightarrow> jval \<Rightarrow> bool" where
  "in_bounds p v \<longleftrightarrow> (case v of
     JNumber n \<Rightarrow> (\<forall>m. pl_Minimum p = Some m \<longrightarrow> at_least n m) \<and> (\<forall>m. pl_Maximum p = Some m \<longrightarrow> at_least m n)
   | _ \<Rightarrow> pl_Minimum p = None \<and> pl_Maximum p = None)"

definition admits :: "ParameterLimit \<Rightarrow> jval \<Rightarrow> bool" where
  "admits p v \<longleftrightarrow> parameterType v (pl_Type p) \<and> in_bounds p v \<and> allows_value p v"

definition permits :: "(string \<times> ParameterLimit) list \<Rightarrow> (string \<times> jval) list \<Rightarrow> bool" where
  "permits flds vals \<longleftrightarrow> fst ` set vals \<subseteq> fst ` set flds \<and>
     (\<forall>(key, p) \<in> set flds. case map_of vals key of None \<Rightarrow> pl_Optional p | Some v \<Rightarrow> admits p v)"

lemma compareNumber_iff:
  "and_then (compareNumber n m) (\<lambda>c. Inr (c \<ge> 0)) = Inr True \<longleftrightarrow> at_least n m"
  "and_then (compareNumber n m) (\<lambda>c. Inr (c \<le> 0)) = Inr True \<longleftrightarrow> at_least m n"
  by (auto simp: compareNumber_def at_least_def split: option.splits)

lemma inRange_True: "inRange p v = Inr True \<longleftrightarrow> in_bounds p v"
proof (cases v)
  case (JNumber n)
  have lower: "(case pl_Minimum p of None \<Rightarrow> Inr True | Some m \<Rightarrow> and_then (compareNumber n m) (\<lambda>c. Inr (c \<ge> 0)))
      = Inr True \<longleftrightarrow> (\<forall>m. pl_Minimum p = Some m \<longrightarrow> at_least n m)"
    and upper: "(case pl_Maximum p of None \<Rightarrow> Inr True | Some m \<Rightarrow> and_then (compareNumber n m) (\<lambda>c. Inr (c \<le> 0)))
      = Inr True \<longleftrightarrow> (\<forall>m. pl_Maximum p = Some m \<longrightarrow> at_least m n)"
    by (cases "pl_Minimum p"; cases "pl_Maximum p"; simp add: compareNumber_iff)+
  have split: "and_then r (\<lambda>b. if \<not> b then Inr False else q) = Inr True \<longleftrightarrow> r = Inr True \<and> q = Inr True" for r q
    by (auto simp: result_iff split: if_splits)
  show ?thesis by (simp only: inRange_def in_bounds_def JNumber jval.case split lower upper)
qed (auto simp: inRange_def in_bounds_def)

lemma match_field_True:
  "match_field p entry = Inr True \<longleftrightarrow> (case entry of None \<Rightarrow> pl_Optional p | Some v \<Rightarrow> admits p v)"
  by (auto simp: match_field_def admits_def inRange_True [symmetric] and_then_def
      split: option.splits sum.splits if_splits)

lemma match_fields_True:
  "match_fields flds vals = Inr True \<longleftrightarrow>
     (\<forall>(key, p) \<in> set flds. case map_of vals key of None \<Rightarrow> pl_Optional p | Some v \<Rightarrow> admits p v)"
proof (induction flds)
  case (Cons f flds)
  obtain key p where f: "f = (key, p)" by (cases f)
  have "match_fields (f # flds) vals = Inr True \<longleftrightarrow>
      match_field p (map_of vals key) = Inr True \<and> match_fields flds vals = Inr True"
    by (auto simp: f and_then_def split: sum.splits if_splits)
  then show ?case using Cons by (simp add: f match_field_True)
qed simp

lemma check_fields_ok: "check_fields flds = ok \<longleftrightarrow> (\<forall>(key, p) \<in> set flds. check_limit key p = ok)"
  by (induction flds rule: check_fields.induct) (auto simp: result_iff)

lemma Validate_ok:
  "ParameterLimits_Validate p = ok \<longleftrightarrow> (\<exists>flds. pls_Fields p = Some flds \<and> length flds \<le> 64 \<and>
     (\<forall>(key, l) \<in> set flds. check_limit key l = ok))"
  by (auto simp: ParameterLimits_Validate_def check_fields_ok split: option.splits)

lemma Matches_True:
  "ParameterLimits_Matches p raw = Inr True \<longleftrightarrow> ParameterLimits_Validate p = ok \<and>
     (\<exists>vals. decodeParameterJSON raw = Inr (JObject vals) \<and> permits (items (pls_Fields p)) vals)"
proof -
  have closed: "list_all (\<lambda>(key, _). key \<in> K) entries \<longleftrightarrow> fst ` set entries \<subseteq> K"
    for entries :: "(string \<times> jval) list" and K
    by (auto simp: list_all_iff)
  show ?thesis
  proof (cases "ParameterLimits_Validate p")
    case (Inl e)
    then show ?thesis by (cases e) (auto simp: ParameterLimits_Matches_def)
  next
    case (Inr u)
    then show ?thesis
      by (auto simp: ParameterLimits_Matches_def closed permits_def match_fields_True
          split: sum.splits jval.splits fault.splits if_splits)
  qed
qed

lemma check_allowed_ok:
  "check_allowed p raws = ok \<longleftrightarrow> (\<forall>raw \<in> set raws. \<exists>v. decodeParameterJSON raw = Inr v \<and>
     parameterType v (pl_Type p) \<and> in_bounds p v)"
  by (induction raws) (auto simp: result_iff inRange_True [symmetric])

lemma check_limit_ok:
  "check_limit key p = ok \<longleftrightarrow> key \<noteq> [] \<and> length key \<le> 256 \<and> length (items (pl_AllowedValues p)) \<le> 64 \<and>
     pl_Type p \<in> set parameter_types \<and> check_range p = ok \<and> pl_AllowedValues p \<noteq> Some [] \<and>
     (pl_Type p \<in> {''object'', ''array''} \<longrightarrow> items (pl_AllowedValues p) \<noteq> []) \<and>
     (\<forall>raw \<in> set (items (pl_AllowedValues p)). \<exists>v. decodeParameterJSON raw = Inr v \<and>
        parameterType v (pl_Type p) \<and> in_bounds p v)"
  by (auto simp: check_limit_def result_iff check_allowed_ok)

text \<open>A validated ceiling admits each of its explicit values.\<close>

lemma allowed_value_admitted:
  assumes "check_limit key p = ok" "raw \<in> set (items (pl_AllowedValues p))"
  shows "\<exists>v. decodeParameterJSON raw = Inr v \<and> admits p v"
proof -
  obtain v where v: "decodeParameterJSON raw = Inr v" "parameterType v (pl_Type p)" "in_bounds p v"
    using assms by (auto simp: check_limit_ok)
  then have "parameterEqual v v" using decode_sound parameterEqual_refl by blast
  then have "allows_value p v"
    using v(1) assms(2) by (force simp: allows_value_def list_ex_iff)
  with v show ?thesis by (auto simp: admits_def)
qed

section \<open>Panics\<close>

text \<open>
  Bounds that \<open>encoding/json\<close> decoded are number literals; a bound set in Go code can be any
  string.
\<close>

definition literal_bounds :: "ParameterLimit \<Rightarrow> bool" where
  "literal_bounds p \<longleftrightarrow> (\<forall>n. pl_Minimum p = Some n \<or> pl_Maximum p = Some n \<longrightarrow> is_number n)"

lemma decode_avoids [avoids_intros]: "avoids {Panic} (decodeParameterJSON raw)"
  by (simp add: no_panic_iff decode_no_panic)

lemma compareNumber_avoids [avoids_intros]:
  "is_number a \<Longrightarrow> is_number b \<Longrightarrow> avoids {Panic} (compareNumber a b)"
  using compareNumber_total [of a b] by (auto simp: avoids_def)

lemma compareNumber_no_error [avoids_intros]: "avoids (range Error) (compareNumber a b)"
  by (auto simp: avoids_def compareNumber_def split: option.splits)

lemma literal_boundsD:
  "literal_bounds p \<Longrightarrow> pl_Minimum p = Some n \<Longrightarrow> is_number n"
  "literal_bounds p \<Longrightarrow> pl_Maximum p = Some n \<Longrightarrow> is_number n"
  by (auto simp: literal_bounds_def)

lemma inRange_avoids:
  assumes "literal_bounds p" "param_value v"
  shows "avoids {Panic} (inRange p v)"
proof (cases v)
  case (JNumber n)
  with assms have "is_number n" by (simp add: bounded_number_def)
  then show ?thesis unfolding inRange_def JNumber jval.case
    by (intro avoids_intros) (auto dest: literal_boundsD [OF assms(1)])
qed (simp_all add: inRange_def avoids_intros)

lemma inRange_no_error [avoids_intros]: "avoids (range Error) (inRange p v)"
  unfolding inRange_def by (cases v) (simp_all, (intro avoids_intros)+)

lemma check_bound_avoids: "avoids {Panic} (check_bound k n)"
  unfolding check_bound_def by (intro avoids_intros)

lemma check_range_avoids: "literal_bounds p \<Longrightarrow> avoids {Panic} (check_range p)"
  unfolding check_range_def prod.case
  by (intro avoids_intros check_bound_avoids) (auto dest: literal_boundsD)

lemma check_allowed_avoids: "literal_bounds p \<Longrightarrow> avoids {Panic} (check_allowed p raws)"
proof (induction raws)
  case (Cons raw raws)
  then show ?case unfolding check_allowed.simps
    by (intro avoids_intros inRange_avoids) (auto simp: result_iff dest: decode_sound)
qed (simp add: avoids_intros)

lemma check_limit_avoids: "literal_bounds p \<Longrightarrow> avoids {Panic} (check_limit key p)"
  unfolding check_limit_def by (intro avoids_intros check_range_avoids check_allowed_avoids)

lemma check_fields_avoids:
  "(\<forall>(key, p) \<in> set flds. literal_bounds p) \<Longrightarrow> avoids {Panic} (check_fields flds)"
proof (induction flds rule: check_fields.induct)
  case (2 key p others)
  then show ?case unfolding check_fields.simps by (intro avoids_intros check_limit_avoids) auto
qed (simp add: avoids_intros)

definition literal_limits :: "ParameterLimits \<Rightarrow> bool" where
  "literal_limits p \<longleftrightarrow> (\<forall>(key, l) \<in> set (items (pls_Fields p)). literal_bounds l)"

lemma Validate_avoids: "literal_limits p \<Longrightarrow> avoids {Panic} (ParameterLimits_Validate p)"
  unfolding ParameterLimits_Validate_def
  by (intro avoids_intros check_fields_avoids) (simp add: literal_limits_def items_def)

lemma match_field_avoids:
  "literal_bounds p \<Longrightarrow> (\<And>v. entry = Some v \<Longrightarrow> param_value v) \<Longrightarrow> avoids {Panic} (match_field p entry)"
  unfolding match_field_def by (intro avoids_intros inRange_avoids) auto

lemma match_field_no_error: "avoids (range Error) (match_field p entry)"
  unfolding match_field_def by (intro avoids_intros)

lemma match_fields_avoids:
  "(\<forall>(key, p) \<in> set flds. literal_bounds p) \<Longrightarrow> (\<forall>(k, v) \<in> set vals. param_value v) \<Longrightarrow>
     avoids {Panic} (match_fields flds vals)"
proof (induction flds vals rule: match_fields.induct)
  case (2 key p others vals)
  then show ?case unfolding match_fields.simps
    by (intro avoids_intros match_field_avoids) (auto dest: map_of_SomeD)
qed (simp add: avoids_intros)

lemma match_fields_no_error: "avoids (range Error) (match_fields flds vals)"
proof (induction flds vals rule: match_fields.induct)
  case (2 key p others vals)
  then show ?case unfolding match_fields.simps by (intro avoids_intros match_field_no_error) auto
qed (simp add: avoids_intros)

lemma decoded_case_avoids:
  assumes "\<And>vals. decodeParameterJSON raw = Inr (JObject vals) \<Longrightarrow> avoids F (f vals)"
  shows "avoids F (case decodeParameterJSON raw of
     Inr (JObject vals) \<Rightarrow> f vals | Inl Panic \<Rightarrow> Inl Panic | _ \<Rightarrow> Inr False)"
  using assms decode_no_panic [of raw]
  by (auto simp: avoids_intros split: sum.splits jval.splits fault.splits)

text \<open>\<open>Matches\<close> returns a verdict, never an error; with literal bounds it does not panic.\<close>

lemma Matches_no_error: "avoids (range Error) (ParameterLimits_Matches p raw)"
  unfolding ParameterLimits_Matches_def
  by (intro avoids_intros decoded_case_avoids match_fields_no_error)

lemma Matches_avoids: "literal_limits p \<Longrightarrow> avoids {Panic} (ParameterLimits_Matches p raw)"
  unfolding ParameterLimits_Matches_def
  by (intro avoids_intros decoded_case_avoids match_fields_avoids Validate_avoids)
    (auto simp: literal_limits_def list_all_iff dest!: decode_sound)

lemma Matches_total: "literal_limits p \<Longrightarrow> \<exists>b. ParameterLimits_Matches p raw = Inr b"
  using avoids_all [OF Matches_avoids Matches_no_error] .

end
