(* ===== verification/Decoding.thy ===== *)
theory Decoding
  imports Structs GoTime Ceilings
begin

text \<open>
  \<open>decodeStrict\<close> of \<open>http.go\<close>: \<open>encoding/json\<close> into a struct with unknown fields refused and
  nothing after the value. A struct type is a table of its fields; a field's decoder takes
  the raw text of the member and updates the record, as \<open>Unmarshal\<close> writes into its target
  (null leaves plain fields alone, a repeated member is decoded over the earlier one). Any
  type error makes the whole call fail.
\<close>

section \<open>Members with their raw text\<close>

fun split_members :: "nat \<Rightarrow> string \<Rightarrow> (string \<times> string) list option" where
  "split_members 0 s = None"
| "split_members (Suc n) s =
     (case scan_name s of
        None \<Rightarrow> None
      | Some (k, s1) \<Rightarrow>
          (case scan_value maxNestingDepth s1 of
             None \<Rightarrow> None
           | Some (_, s2) \<Rightarrow>
               let t = skip_ws s1; raw = take (length t - length s2) t
               in (case skip_ws s2 of
                     [] \<Rightarrow> None
                   | c # s3 \<Rightarrow>
                       if c = CHR '','' then map_option ((#) (k, raw)) (split_members n s3)
                       else if c = CHR ''}'' then Some [(k, raw)] else None)))"

definition raw_members :: "string \<Rightarrow> (string \<times> string) list option" where
  "raw_members raw =
     (case skip_ws raw of
        [] \<Rightarrow> None
      | c # s \<Rightarrow> if c \<noteq> CHR ''{'' then None
                else if HasPrefix (skip_ws s) ''}'' then Some [] else split_members (length s) s)"

fun split_elements :: "nat \<Rightarrow> string \<Rightarrow> string list option" where
  "split_elements 0 s = None"
| "split_elements (Suc n) s =
     (case scan_value maxNestingDepth s of
        None \<Rightarrow> None
      | Some (_, s2) \<Rightarrow>
          let t = skip_ws s; raw = take (length t - length s2) t
          in (case skip_ws s2 of
                [] \<Rightarrow> None
              | c # s3 \<Rightarrow>
                  if c = CHR '','' then map_option ((#) raw) (split_elements n s3)
                  else if c = CHR '']'' then Some [raw] else None))"

definition raw_elements :: "string \<Rightarrow> string list option" where
  "raw_elements raw =
     (case skip_ws raw of
        [] \<Rightarrow> None
      | c # s \<Rightarrow> if c \<noteq> CHR ''['' then None
                else if HasPrefix (skip_ws s) '']'' then Some [] else split_elements (length s) s)"

section \<open>Fields\<close>

text \<open>
  A field is found by its exact name, else by its name up to case: ASCII letters, and the two
  runes that fold to ASCII (long s and the Kelvin sign).
\<close>

fun fold_name :: "string \<Rightarrow> string" where
  "fold_name [] = []"
| "fold_name (c # s) =
     (if is_lower c then byte (code c - 0x20) # fold_name s
      else if take 2 (c # s) = map byte [0xC5, 0xBF] then CHR ''S'' # fold_name (drop 1 s)
      else if take 3 (c # s) = map byte [0xE2, 0x84, 0xAA] then CHR ''K'' # fold_name (drop 2 s)
      else c # fold_name s)"

type_synonym 'r decoder = "string \<Rightarrow> 'r \<Rightarrow> 'r option"

definition find_field :: "(string \<times> 'r decoder) list \<Rightarrow> string \<Rightarrow> 'r decoder option" where
  "find_field flds k =
     (case map_of flds k of
        Some d \<Rightarrow> Some d
      | None \<Rightarrow> map_option snd (find (\<lambda>(name, _). fold_name name = fold_name k) flds))"

fun decode_members :: "(string \<times> 'r decoder) list \<Rightarrow> (string \<times> string) list \<Rightarrow> 'r \<Rightarrow> 'r option" where
  "decode_members flds [] r = Some r"
| "decode_members flds ((k, raw) # ms) r =
     (case find_field flds k of
        None \<Rightarrow> None
      | Some d \<Rightarrow> Option.bind (d raw r) (decode_members flds ms))"

definition decode_struct :: "(string \<times> 'r decoder) list \<Rightarrow> 'r decoder" where
  "decode_struct flds raw r =
     (if parse_json raw = Some JNull then Some r
      else Option.bind (raw_members raw) (\<lambda>ms. decode_members flds ms r))"

text \<open>\<open>decodeStrict[T]\<close>, from the zero value of the type.\<close>

definition decodeStrict :: "(string \<times> 'r decoder) list \<Rightarrow> 'r \<Rightarrow> string \<Rightarrow> 'r option" where
  "decodeStrict flds zero body = (if json_Valid body then decode_struct flds body zero else None)"

definition on_value :: "(jval \<Rightarrow> 'a \<Rightarrow> 'a option) \<Rightarrow> 'a decoder" where
  "on_value f raw v = (case parse_json raw of None \<Rightarrow> None | Some JNull \<Rightarrow> Some v | Some j \<Rightarrow> f j v)"

definition decode_string :: "string decoder" where
  "decode_string = on_value (\<lambda>j v. case j of JString s \<Rightarrow> Some s | _ \<Rightarrow> None)"

definition decode_bool :: "bool decoder" where
  "decode_bool = on_value (\<lambda>j v. case j of JBool b \<Rightarrow> Some b | _ \<Rightarrow> None)"

text \<open>\<open>strconv.ParseInt(literal, 10, 64)\<close>; a fraction or an exponent is an error.\<close>

definition decode_int :: "int decoder" where
  "decode_int = on_value (\<lambda>j v. case j of JNumber l \<Rightarrow> Atoi l | _ \<Rightarrow> None)"

text \<open>A \<open>json.Number\<close> takes a number, or a string that spells one.\<close>

definition decode_number :: "string decoder" where
  "decode_number = on_value (\<lambda>j v. case j of JNumber l \<Rightarrow> Some l
     | JString s \<Rightarrow> if is_number s then Some s else None | _ \<Rightarrow> None)"

definition decode_raw :: "string decoder" where
  "decode_raw raw v = Some raw"

text \<open>\<open>Time.UnmarshalJSON\<close> takes the text between the quotes as it stands.\<close>

definition decode_time :: "gotime decoder" where
  "decode_time raw t =
     (if raw = ''null'' then Some t
      else if length raw < 2 \<or> hd raw \<noteq> CHR 0x22 \<or> last raw \<noteq> CHR 0x22 then None
      else ParseRFC3339 (butlast (tl raw)))"

text \<open>Slices: null is nil; element \<open>i\<close> is decoded over the old element \<open>i\<close>, if there is one.\<close>

fun decode_each :: "'a decoder \<Rightarrow> 'a \<Rightarrow> string list \<Rightarrow> 'a list \<Rightarrow> 'a list option" where
  "decode_each d zero [] old = Some []"
| "decode_each d zero (raw # raws) old =
     (let (v, old) = (case old of [] \<Rightarrow> (zero, []) | o1 # os \<Rightarrow> (o1, os))
      in Option.bind (d raw v) (\<lambda>w. map_option ((#) w) (decode_each d zero raws old)))"

definition decode_slice :: "'a decoder \<Rightarrow> 'a \<Rightarrow> 'a list option decoder" where
  "decode_slice d zero raw old =
     (if parse_json raw = Some JNull then Some None
      else Option.bind (raw_elements raw) (\<lambda>raws. map_option Some (decode_each d zero raws (items old))))"

definition decode_pointer :: "'a decoder \<Rightarrow> 'a \<Rightarrow> 'a option decoder" where
  "decode_pointer d zero raw old =
     (if parse_json raw = Some JNull then Some None
      else map_option Some (d raw (case old of None \<Rightarrow> zero | Some v \<Rightarrow> v)))"

text \<open>A map of structs: each entry starts from the zero value, the last of equal keys stays.\<close>

fun decode_entries :: "'a decoder \<Rightarrow> 'a \<Rightarrow> (string \<times> string) list \<Rightarrow> (string \<times> 'a) list \<Rightarrow> (string \<times> 'a) list option" where
  "decode_entries d zero [] m = Some m"
| "decode_entries d zero ((k, raw) # ms) m =
     Option.bind (d raw zero) (\<lambda>v. decode_entries d zero ms (AList.update k v m))"

definition decode_map :: "'a decoder \<Rightarrow> 'a \<Rightarrow> (string \<times> 'a) list option decoder" where
  "decode_map d zero raw old =
     (if parse_json raw = Some JNull then Some None
      else Option.bind (raw_members raw) (\<lambda>ms. map_option Some (decode_entries d zero ms (items old))))"

text \<open>A field of a record, from its selector and its update.\<close>

definition at_field :: "('r \<Rightarrow> 'a) \<Rightarrow> (('a \<Rightarrow> 'a) \<Rightarrow> 'r \<Rightarrow> 'r) \<Rightarrow> 'a decoder \<Rightarrow> 'r decoder" where
  "at_field sel upd d raw r = map_option (\<lambda>v. upd (\<lambda>_. v) r) (d raw (sel r))"

text \<open>A slice whose nil value the model does not keep apart from the empty one.\<close>

definition decode_list :: "'a decoder \<Rightarrow> 'a \<Rightarrow> 'a list decoder" where
  "decode_list d zero raw old = map_option items (decode_slice d zero raw (Some old))"

section \<open>Failures\<close>

lemma decodeStrict_valid: "decodeStrict flds zero body = Some r \<Longrightarrow> json_Valid body"
  by (simp add: decodeStrict_def split: if_splits)

text \<open>A member that no field answers to refuses the whole body.\<close>

lemma decode_members_known:
  "decode_members flds ms r = Some r' \<Longrightarrow> (k, raw) \<in> set ms \<Longrightarrow> find_field flds k \<noteq> None"
  by (induction flds ms r rule: decode_members.induct) (auto split: option.splits Option.bind_splits)

end
