(* ===== verification/Selections.thy ===== *)
theory Selections
  imports GoText Prelude
begin

text \<open>
  Selectors of an authorization: resources (\<open>constraints.go\<close>) and capabilities
  (\<open>capability_selection.go\<close>). A nil slice is \<open>None\<close>, so that an explicit empty selection is
  distinct from an absent one; slices of which the code only takes the length and the
  elements are lists.
\<close>

section \<open>Resources\<close>

definition exact_id :: "string \<Rightarrow> bool" where
  "exact_id i \<longleftrightarrow> \<not> (TrimSpace i = [] \<or> TrimSpace i \<noteq> i \<or> list_ex (\<lambda>c. c \<in> {CHR 0x00, CHR 0x0D, CHR 0x0A}) i)"

fun check_ids :: "string set \<Rightarrow> string list \<Rightarrow> unit result" where
  "check_ids seen [] = ok"
| "check_ids seen (i # ids) =
     (if \<not> exact_id i \<or> i \<in> seen then fail ''exact resource identity is empty, malformed or duplicated''
      else check_ids (insert i seen) ids)"

definition ValidateResourceSelection :: "string list \<Rightarrow> string list option \<Rightarrow> unit result" where
  "ValidateResourceSelection prefixes ids =
     (if (case ids of None \<Rightarrow> False | Some xs \<Rightarrow> xs = [] \<or> prefixes \<noteq> [])
      then fail ''exact resources must be nonempty and cannot be mixed with prefixes''
      else case ids of None \<Rightarrow> ok | Some xs \<Rightarrow> check_ids {} xs)"

definition MatchesResources :: "string \<Rightarrow> string list \<Rightarrow> string list option \<Rightarrow> bool" where
  "MatchesResources resource prefixes ids =
     (if ValidateResourceSelection prefixes ids \<noteq> ok then False
      else case ids of
             Some xs \<Rightarrow> resource \<in> set xs
           | None \<Rightarrow> if prefixes = [] then True else list_ex (\<lambda>p. HasPrefix resource p) prefixes)"

interpretation ids_loop: seen_loop check_ids exact_id "\<lambda>i. i"
  by unfold_locales auto

lemma ValidateResourceSelection_ok [result_iff]:
  "ValidateResourceSelection prefixes ids = ok \<longleftrightarrow>
     (case ids of None \<Rightarrow> True
      | Some xs \<Rightarrow> xs \<noteq> [] \<and> prefixes = [] \<and> (\<forall>i \<in> set xs. exact_id i) \<and> distinct xs)"
  by (auto simp: ValidateResourceSelection_def ids_loop.loop_empty_iff split: option.splits)

lemma check_ids_avoids [avoids_intros]: "avoids {Panic} (check_ids seen ids)"
  by (induction ids arbitrary: seen) (simp_all add: avoids_intros)

lemma ValidateResourceSelection_avoids [avoids_intros]: "avoids {Panic} (ValidateResourceSelection ps ids)"
  unfolding ValidateResourceSelection_def by (intro avoids_intros)

text \<open>The whole meaning of a resource selection.\<close>

lemma MatchesResources_iff:
  "MatchesResources r prefixes ids \<longleftrightarrow>
     (case ids of
        Some xs \<Rightarrow> ValidateResourceSelection prefixes ids = ok \<and> r \<in> set xs
      | None \<Rightarrow> prefixes = [] \<or> (\<exists>p \<in> set prefixes. HasPrefix r p))"
  by (auto simp: MatchesResources_def result_iff list_ex_iff split: option.splits)

lemma MatchesResources_perm:
  assumes "mset xs = mset ys"
  shows "MatchesResources r prefixes (Some xs) = MatchesResources r prefixes (Some ys)"
proof -
  have "set xs = set ys" using assms by (rule mset_eq_setD)
  moreover have "distinct xs = distinct ys" using assms by (metis mset_eq_imp_distinct_iff)
  moreover have "xs = [] \<longleftrightarrow> ys = []" using assms by auto
  ultimately show ?thesis by (simp add: MatchesResources_iff result_iff)
qed

section \<open>Capabilities\<close>

record CapabilitySelector =
  cs_Ref :: string
  cs_Digest :: string

definition no_selector :: CapabilitySelector where
  "no_selector = \<lparr> cs_Ref = [], cs_Digest = [] \<rparr>"

definition CapabilitySelector_Validate :: "CapabilitySelector \<Rightarrow> unit result" where
  "CapabilitySelector_Validate c =
     (if \<not> identityPattern (cs_Ref c) \<or> \<not> authorizationDigestPattern (cs_Digest c)
      then fail ''capability reference and digest must identify an exact signed implementation''
      else ok)"

fun check_selected :: "string set \<Rightarrow> CapabilitySelector list \<Rightarrow> unit result" where
  "check_selected seen [] = ok"
| "check_selected seen (capability # selected) =
     and_then (CapabilitySelector_Validate capability) (\<lambda>_.
       if cs_Ref capability \<in> seen then fail ''capability reference is duplicated or ambiguous''
       else check_selected (insert (cs_Ref capability) seen) selected)"

definition ValidateCapabilitySelection :: "CapabilitySelector list option \<Rightarrow> unit result" where
  "ValidateCapabilitySelection selected =
     (case selected of
        None \<Rightarrow> ok
      | Some xs \<Rightarrow> if length xs = 0 \<or> length xs > 64
                  then fail ''capability selection must contain between one and 64 identities''
                  else check_selected {} xs)"

definition MatchesCapabilities :: "CapabilitySelector \<Rightarrow> CapabilitySelector list option \<Rightarrow> bool" where
  "MatchesCapabilities actual selected =
     (if ValidateCapabilitySelection selected \<noteq> ok then False
      else case selected of
             None \<Rightarrow> True
           | Some xs \<Rightarrow> if CapabilitySelector_Validate actual \<noteq> ok then False
                       else list_ex (\<lambda>capability. capability = actual) xs)"

lemma Selector_Validate_ok [result_iff]:
  "CapabilitySelector_Validate c = ok \<longleftrightarrow> identityPattern (cs_Ref c) \<and> authorizationDigestPattern (cs_Digest c)"
  by (simp add: CapabilitySelector_Validate_def)

lemma no_selector_invalid [simp]: "CapabilitySelector_Validate no_selector \<noteq> ok"
  by (simp add: result_iff no_selector_def identityPattern_def class_match_def)

interpretation selected_loop: seen_loop check_selected "\<lambda>c. CapabilitySelector_Validate c = ok" cs_Ref
  by unfold_locales (auto simp: result_iff)

lemma ValidateCapabilitySelection_ok [result_iff]:
  "ValidateCapabilitySelection selected = ok \<longleftrightarrow>
     (case selected of None \<Rightarrow> True
      | Some xs \<Rightarrow> xs \<noteq> [] \<and> length xs \<le> 64 \<and>
          (\<forall>c \<in> set xs. CapabilitySelector_Validate c = ok) \<and> distinct (map cs_Ref xs))"
  by (auto simp: ValidateCapabilitySelection_def selected_loop.loop_empty_iff split: option.splits)

lemma Selector_Validate_avoids [avoids_intros]: "avoids {Panic} (CapabilitySelector_Validate c)"
  unfolding CapabilitySelector_Validate_def by (intro avoids_intros)

lemma check_selected_avoids [avoids_intros]: "avoids {Panic} (check_selected seen cs)"
  by (induction cs arbitrary: seen) (auto simp: avoids_intros intro!: avoids_intros)

lemma ValidateCapabilitySelection_avoids [avoids_intros]: "avoids {Panic} (ValidateCapabilitySelection s)"
  unfolding ValidateCapabilitySelection_def by (intro avoids_intros)

lemma MatchesCapabilities_iff:
  "MatchesCapabilities c selected \<longleftrightarrow>
     (case selected of None \<Rightarrow> True
      | Some xs \<Rightarrow> ValidateCapabilitySelection selected = ok \<and> c \<in> set xs)"
  by (auto simp: MatchesCapabilities_def result_iff list_ex_iff split: option.splits)

text \<open>A reference names at most one digest in a valid selection.\<close>

lemma selection_functional:
  assumes "ValidateCapabilitySelection (Some xs) = ok" "c \<in> set xs" "d \<in> set xs" "cs_Ref c = cs_Ref d"
  shows "c = d"
  using assms by (auto simp: result_iff distinct_map dest: inj_onD)

end
