(* ===== verification/Authorizations.thy ===== *)
theory Authorizations
  imports Ceilings Selections Structs
begin

text \<open>
  Authorizations (\<open>protocol.go\<close>), the features an issuer declares and the rule matching of
  \<open>constraints.go\<close> and \<open>capability_selection.go\<close>.
\<close>

section \<open>Rules and authorizations\<close>

record AuthorizationRule =
  ar_ID :: string
  ar_Effect :: string
  ar_Providers :: "string list"
  ar_Operations :: "string list"
  ar_Capabilities :: "CapabilitySelector list option"
  ar_ResourcePrefixes :: "string list"
  ar_ResourceIDs :: "string list option"
  ar_ParameterLimits :: "ParameterLimits option"

record Authorization =
  au_ProfileDigest :: string
  au_PolicyRelease :: string
  au_Provider :: string
  au_AccountRef :: string
  au_Environments :: "string list"
  au_ResourcePrefixes :: "string list"
  au_ResourceIDs :: "string list option"
  au_Rules :: "AuthorizationRule list"

text \<open>
  \<open>for label, value := range map[...]\<close>: Go iterates the labels in an arbitrary order; the
  model takes the order of the literal. Only the label in the message depends on it.
\<close>

fun check_required :: "(string \<times> string) list \<Rightarrow> unit result" where
  "check_required [] = ok"
| "check_required ((label, value) # others) =
     (if blank value then fail (label @ '' is required'') else check_required others)"

definition check_rule_limits :: "AuthorizationRule \<Rightarrow> unit result" where
  "check_rule_limits rule =
     (case ar_ParameterLimits rule of
        None \<Rightarrow> ok
      | Some limits \<Rightarrow>
          if ar_Effect rule \<noteq> ''allow'' \<and> ar_Effect rule \<noteq> ''require_typed_capability''
          then fail ''parameter ceilings require an allow or typed rule''
          else ParameterLimits_Validate limits)"

definition rule_effects :: "string list" where
  "rule_effects = [''allow'', ''deny'', ''require_approval'', ''require_typed_capability'', ''stop_session'']"

fun check_rules :: "string set \<Rightarrow> AuthorizationRule list \<Rightarrow> unit result" where
  "check_rules seen [] = ok"
| "check_rules seen (rule # rules) =
     and_then (ValidateCapabilitySelection (ar_Capabilities rule)) (\<lambda>_.
     and_then (ValidateResourceSelection (ar_ResourcePrefixes rule) (ar_ResourceIDs rule)) (\<lambda>_.
     and_then (check_rule_limits rule) (\<lambda>_.
       if blank (ar_ID rule) then fail ''authorization rule id is required''
       else if ar_ID rule \<in> seen then fail ''authorization rule is duplicated''
       else if ar_Effect rule \<notin> set rule_effects then fail ''authorization rule effect is invalid''
       else if list_ex blank (ar_Providers rule @ ar_Operations rule @ ar_ResourcePrefixes rule)
       then fail ''authorization rule contains an empty matcher''
       else check_rules (insert (ar_ID rule) seen) rules)))"

definition Authorization_Validate :: "Authorization \<Rightarrow> unit result" where
  "Authorization_Validate a =
     and_then (ValidateResourceSelection (au_ResourcePrefixes a) (au_ResourceIDs a)) (\<lambda>_.
     and_then (check_required [(''profile digest'', au_ProfileDigest a), (''policy release'', au_PolicyRelease a),
                 (''provider'', au_Provider a), (''account ref'', au_AccountRef a)]) (\<lambda>_.
       if \<not> authorizationDigestPattern (au_ProfileDigest a) \<or> length (au_Environments a) = 0 \<or> length (au_Rules a) = 0
       then fail ''authorization identity, environments, and rules are required''
       else if list_ex blank (au_Environments a @ au_ResourcePrefixes a)
       then fail ''authorization scope contains an empty matcher''
       else check_rules {} (au_Rules a)))"

section \<open>The digest\<close>

definition bound_member :: "string \<Rightarrow> string option \<Rightarrow> (string \<times> string) list result" where
  "bound_member name n =
     (case n of None \<Rightarrow> Inr [] | Some l \<Rightarrow> and_then (number_text l) (\<lambda>t. Inr [(name, t)]))"

definition strings_text :: "string list \<Rightarrow> string" where
  "strings_text xs = array_text (map quote xs)"

definition ParameterLimit_text :: "ParameterLimit \<Rightarrow> string result" where
  "ParameterLimit_text p =
     and_then (traverse raw_text (items (pl_AllowedValues p))) (\<lambda>raws.
     and_then (bound_member ''minimum'' (pl_Minimum p)) (\<lambda>lo.
     and_then (bound_member ''maximum'' (pl_Maximum p)) (\<lambda>hi.
       Inr (object_text ([(''type'', quote (pl_Type p))] @
         omit (\<not> pl_Optional p) ''optional'' ''true'' @
         omit (raws = []) ''allowed_values'' (array_text raws) @ lo @ hi)))))"

definition ParameterLimits_text :: "ParameterLimits \<Rightarrow> string result" where
  "ParameterLimits_text p =
     (case pls_Fields p of
        None \<Rightarrow> Inr (object_text [(''fields'', ''null'')])
      | Some entries \<Rightarrow>
          and_then (traverse (\<lambda>(key, l). and_then (ParameterLimit_text l) (\<lambda>t. Inr (key, t))) (sort_key fst entries))
            (\<lambda>ms. Inr (object_text [(''fields'', object_text ms)])))"

definition CapabilitySelector_text :: "CapabilitySelector \<Rightarrow> string" where
  "CapabilitySelector_text c = object_text [(''ref'', quote (cs_Ref c)), (''digest'', quote (cs_Digest c))]"

definition AuthorizationRule_text :: "AuthorizationRule \<Rightarrow> string result" where
  "AuthorizationRule_text r =
     and_then (case ar_ParameterLimits r of None \<Rightarrow> Inr []
               | Some l \<Rightarrow> and_then (ParameterLimits_text l) (\<lambda>t. Inr [(''parameter_limits'', t)])) (\<lambda>limits.
       Inr (object_text ([(''id'', quote (ar_ID r)), (''effect'', quote (ar_Effect r))] @
         omit (ar_Providers r = []) ''providers'' (strings_text (ar_Providers r)) @
         omit (ar_Operations r = []) ''operations'' (strings_text (ar_Operations r)) @
         omit (items (ar_Capabilities r) = []) ''capabilities''
           (array_text (map CapabilitySelector_text (items (ar_Capabilities r)))) @
         omit (ar_ResourcePrefixes r = []) ''resource_prefixes'' (strings_text (ar_ResourcePrefixes r)) @
         omit (items (ar_ResourceIDs r) = []) ''resource_ids'' (strings_text (items (ar_ResourceIDs r))) @
         limits)))"

definition Authorization_text :: "Authorization \<Rightarrow> string result" where
  "Authorization_text a =
     and_then (traverse AuthorizationRule_text (au_Rules a)) (\<lambda>rules.
       Inr (object_text ([(''profile_digest'', quote (au_ProfileDigest a)),
         (''policy_release'', quote (au_PolicyRelease a)), (''provider'', quote (au_Provider a)),
         (''account_ref'', quote (au_AccountRef a)), (''environments'', strings_text (au_Environments a))] @
         omit (au_ResourcePrefixes a = []) ''resource_prefixes'' (strings_text (au_ResourcePrefixes a)) @
         omit (items (au_ResourceIDs a) = []) ''resource_ids'' (strings_text (items (au_ResourceIDs a))) @
         [(''rules'', array_text rules)])))"

text \<open>\<open>bytes.TrimSpace\<close> of the marshalled text, which starts and ends with a brace.\<close>

definition AuthorizationDigest :: "Authorization \<Rightarrow> string result" where
  "AuthorizationDigest authorization =
     and_then (Authorization_Validate authorization) (\<lambda>_.
     and_then (Authorization_text authorization) (\<lambda>encoded. Inr (sha_digest (TrimSpace encoded))))"

section \<open>Features\<close>

definition AuthorizationExactResourcesV1 :: string where
  "AuthorizationExactResourcesV1 = ''exact_resources_v1''"
definition AuthorizationParameterLimitsV1 :: string where
  "AuthorizationParameterLimitsV1 = ''parameter_limits_v1''"
definition AuthorizationCapabilityBindingsV1 :: string where
  "AuthorizationCapabilityBindingsV1 = ''capability_bindings_v1''"

lemmas feature_defs = AuthorizationExactResourcesV1_def AuthorizationParameterLimitsV1_def
  AuthorizationCapabilityBindingsV1_def

fun check_features :: "string set \<Rightarrow> string list \<Rightarrow> unit result" where
  "check_features seen [] = ok"
| "check_features seen (feature # features) =
     (if (feature \<noteq> AuthorizationExactResourcesV1 \<and> feature \<noteq> AuthorizationParameterLimitsV1 \<and>
          feature \<noteq> AuthorizationCapabilityBindingsV1) \<or> feature \<in> seen
      then fail ''unsupported or duplicate credential authorization feature''
      else check_features (insert feature seen) features)"

definition ValidateAuthorizationFeatures :: "string list \<Rightarrow> unit result" where
  "ValidateAuthorizationFeatures features = check_features {} features"

definition CheckAuthorizationSupport :: "Authorization \<Rightarrow> string list \<Rightarrow> unit result" where
  "CheckAuthorizationSupport a features =
     and_then (Authorization_Validate a) (\<lambda>_.
     and_then (ValidateAuthorizationFeatures features) (\<lambda>_.
       let exact = au_ResourceIDs a \<noteq> None \<or> list_ex (\<lambda>rule. ar_ResourceIDs rule \<noteq> None) (au_Rules a);
           parameters = list_ex (\<lambda>rule. ar_ParameterLimits rule \<noteq> None) (au_Rules a);
           capabilities = list_ex (\<lambda>rule. ar_Capabilities rule \<noteq> None) (au_Rules a)
       in if exact \<and> AuthorizationExactResourcesV1 \<notin> set features
          then fail ''credential release does not enforce exact resources''
          else if parameters \<and> AuthorizationParameterLimitsV1 \<notin> set features
          then fail ''credential release does not enforce parameter limits''
          else if capabilities \<and> AuthorizationCapabilityBindingsV1 \<notin> set features
          then fail ''credential release does not enforce capability bindings''
          else ok))"

section \<open>Matching rules\<close>

definition MatchesAuthorizationRule :: "AuthorizationRule \<Rightarrow> string \<Rightarrow> string \<Rightarrow> string \<Rightarrow> CapabilitySelector \<Rightarrow> bool" where
  "MatchesAuthorizationRule rule provider operation resource capability =
     ((ar_Providers rule = [] \<or> provider \<in> set (ar_Providers rule)) \<and>
      (ar_Operations rule = [] \<or> operation \<in> set (ar_Operations rule)) \<and>
      MatchesResources resource (ar_ResourcePrefixes rule) (ar_ResourceIDs rule) \<and>
      MatchesCapabilities capability (ar_Capabilities rule))"

fun ParametersWithinCapabilityRules ::
  "AuthorizationRule list \<Rightarrow> string \<Rightarrow> string \<Rightarrow> string \<Rightarrow> CapabilitySelector \<Rightarrow> string \<Rightarrow> bool result" where
  "ParametersWithinCapabilityRules [] provider operation resource capability parameters = Inr True"
| "ParametersWithinCapabilityRules (rule # rules) provider operation resource capability parameters =
     (if ValidateCapabilitySelection (ar_Capabilities rule) \<noteq> ok \<or>
         (ar_Capabilities rule \<noteq> None \<and> CapabilitySelector_Validate capability \<noteq> ok)
      then Inr False
      else if ar_ParameterLimits rule = None \<or>
         \<not> MatchesAuthorizationRule rule provider operation resource capability
      then ParametersWithinCapabilityRules rules provider operation resource capability parameters
      else and_then (ParameterLimits_Matches (the (ar_ParameterLimits rule)) parameters) (\<lambda>inside.
             if \<not> inside then Inr False
             else ParametersWithinCapabilityRules rules provider operation resource capability parameters))"

definition ParametersWithinRules ::
  "AuthorizationRule list \<Rightarrow> string \<Rightarrow> string \<Rightarrow> string \<Rightarrow> string \<Rightarrow> bool result" where
  "ParametersWithinRules rules provider operation resource parameters =
     (if list_ex (\<lambda>rule. ar_Capabilities rule \<noteq> None) rules then Inr False
      else ParametersWithinCapabilityRules rules provider operation resource no_selector parameters)"

section \<open>What validation decides\<close>

definition rule_ok :: "AuthorizationRule \<Rightarrow> bool" where
  "rule_ok r \<longleftrightarrow> ValidateCapabilitySelection (ar_Capabilities r) = ok \<and>
     ValidateResourceSelection (ar_ResourcePrefixes r) (ar_ResourceIDs r) = ok \<and>
     (\<forall>l. ar_ParameterLimits r = Some l \<longrightarrow>
        ar_Effect r \<in> {''allow'', ''require_typed_capability''} \<and> ParameterLimits_Validate l = ok) \<and>
     \<not> blank (ar_ID r) \<and> ar_Effect r \<in> set rule_effects \<and>
     (\<forall>m \<in> set (ar_Providers r) \<union> set (ar_Operations r) \<union> set (ar_ResourcePrefixes r). \<not> blank m)"

lemma check_rule_limits_ok [result_iff]:
  "check_rule_limits r = ok \<longleftrightarrow> (\<forall>l. ar_ParameterLimits r = Some l \<longrightarrow>
     ar_Effect r \<in> {''allow'', ''require_typed_capability''} \<and> ParameterLimits_Validate l = ok)"
  by (auto simp: check_rule_limits_def split: option.split)

interpretation rules_loop: seen_loop check_rules rule_ok ar_ID
proof unfold_locales
  show "check_rules S [] = ok" for S by simp
  show "check_rules S (r # rs) = ok \<longleftrightarrow> rule_ok r \<and> ar_ID r \<notin> S \<and> check_rules (insert (ar_ID r) S) rs = ok"
    for S r rs
    unfolding check_rules.simps and_then_Inr if_fail_Inr rule_ok_def list_ex_iff
    by (auto simp: check_rule_limits_ok)
qed

lemma check_required_ok: "check_required xs = ok \<longleftrightarrow> (\<forall>(label, v) \<in> set xs. \<not> blank v)"
  by (induction xs rule: check_required.induct) auto

lemma digestPattern_not_blank: "digestPattern d \<Longrightarrow> \<not> blank d"
  using digestPattern_solid [of d] solid_list_not_blank [of d]
  by blast

lemma Authorization_Validate_ok [result_iff]:
  "Authorization_Validate a = ok \<longleftrightarrow>
     ValidateResourceSelection (au_ResourcePrefixes a) (au_ResourceIDs a) = ok \<and>
     digestPattern (au_ProfileDigest a) \<and> \<not> blank (au_PolicyRelease a) \<and> \<not> blank (au_Provider a) \<and>
     \<not> blank (au_AccountRef a) \<and> au_Environments a \<noteq> [] \<and> au_Rules a \<noteq> [] \<and>
     (\<forall>m \<in> set (au_Environments a) \<union> set (au_ResourcePrefixes a). \<not> blank m) \<and>
     (\<forall>r \<in> set (au_Rules a). rule_ok r) \<and> distinct (map ar_ID (au_Rules a))"
  unfolding Authorization_Validate_def and_then_Inr if_fail_Inr check_required_ok
    rules_loop.loop_empty_iff list_ex_iff authorizationDigestPattern_def
  by (auto dest: digestPattern_not_blank)

lemma check_required_avoids [avoids_intros]: "avoids {Panic} (check_required xs)"
  by (induction xs rule: check_required.induct) (auto intro!: avoids_intros)

text \<open>Validation panics only through ceilings with bounds that are no number literals.\<close>

definition literal_rule :: "AuthorizationRule \<Rightarrow> bool" where
  "literal_rule r \<longleftrightarrow> (\<forall>l. ar_ParameterLimits r = Some l \<longrightarrow> literal_limits l)"

lemma check_rule_limits_avoids [avoids_intros]: "literal_rule r \<Longrightarrow> avoids {Panic} (check_rule_limits r)"
  unfolding check_rule_limits_def by (intro avoids_intros Validate_avoids) (simp add: literal_rule_def)

lemma check_rules_avoids:
  "\<forall>r \<in> set rs. literal_rule r \<Longrightarrow> avoids {Panic} (check_rules seen rs)"
proof (induction rs arbitrary: seen)
  case (Cons r rs)
  then show ?case unfolding check_rules.simps by (intro avoids_intros) auto
qed (simp add: avoids_intros)

lemma Authorization_Validate_avoids [avoids_intros]:
  "\<forall>r \<in> set (au_Rules a). literal_rule r \<Longrightarrow> avoids {Panic} (Authorization_Validate a)"
  unfolding Authorization_Validate_def by (intro avoids_intros check_rules_avoids)

section \<open>What support means\<close>

definition known_features :: "string set" where
  "known_features = {AuthorizationExactResourcesV1, AuthorizationParameterLimitsV1, AuthorizationCapabilityBindingsV1}"

interpretation features_loop: seen_loop check_features "\<lambda>f. f \<in> known_features" "\<lambda>f. f"
  by unfold_locales (auto simp: known_features_def)

lemma ValidateAuthorizationFeatures_ok [result_iff]:
  "ValidateAuthorizationFeatures fs = ok \<longleftrightarrow> set fs \<subseteq> known_features \<and> distinct fs"
  by (auto simp: ValidateAuthorizationFeatures_def features_loop.loop_empty_iff)

text \<open>The features an authorization needs.\<close>

definition needed_features :: "Authorization \<Rightarrow> string set" where
  "needed_features a =
     (if au_ResourceIDs a \<noteq> None \<or> (\<exists>r \<in> set (au_Rules a). ar_ResourceIDs r \<noteq> None)
      then {AuthorizationExactResourcesV1} else {}) \<union>
     (if \<exists>r \<in> set (au_Rules a). ar_ParameterLimits r \<noteq> None then {AuthorizationParameterLimitsV1} else {}) \<union>
     (if \<exists>r \<in> set (au_Rules a). ar_Capabilities r \<noteq> None then {AuthorizationCapabilityBindingsV1} else {})"

lemma CheckAuthorizationSupport_ok [result_iff]:
  "CheckAuthorizationSupport a fs = ok \<longleftrightarrow> Authorization_Validate a = ok \<and>
     ValidateAuthorizationFeatures fs = ok \<and> needed_features a \<subseteq> set fs"
  unfolding CheckAuthorizationSupport_def and_then_Inr Let_def if_fail_Inr list_ex_iff needed_features_def
  by auto

section \<open>Ceilings of a rule list\<close>

text \<open>A rule is usable for a request when its selection is valid and the capability identified.\<close>

definition usable :: "AuthorizationRule \<Rightarrow> CapabilitySelector \<Rightarrow> bool" where
  "usable r c \<longleftrightarrow> ValidateCapabilitySelection (ar_Capabilities r) = ok \<and>
     (ar_Capabilities r \<noteq> None \<longrightarrow> CapabilitySelector_Validate c = ok)"

lemma Within_True:
  "ParametersWithinCapabilityRules rules p op res c raw = Inr True \<longleftrightarrow>
     (\<forall>r \<in> set rules. usable r c \<and>
        (\<forall>l. ar_ParameterLimits r = Some l \<longrightarrow> MatchesAuthorizationRule r p op res c \<longrightarrow>
           ParameterLimits_Matches l raw = Inr True))"
proof (induction rules)
  case (Cons r rules)
  show ?case
  proof (cases "usable r c \<and> ar_ParameterLimits r \<noteq> None \<and> MatchesAuthorizationRule r p op res c")
    case True
    then obtain l where l: "ar_ParameterLimits r = Some l" by blast
    show ?thesis
    proof (cases "ParameterLimits_Matches l raw")
      case (Inr b)
      then show ?thesis using True l Cons by (cases b) (auto simp: usable_def)
    next
      case (Inl e)
      then show ?thesis using True l Cons by (auto simp: usable_def)
    qed
  next
    case False
    then show ?thesis using Cons by (auto simp: usable_def)
  qed
qed simp

lemma Within_no_error: "avoids (range Error) (ParametersWithinCapabilityRules rules p op res c raw)"
proof (induction rules)
  case (Cons r rules)
  then show ?case unfolding ParametersWithinCapabilityRules.simps
    by (intro avoids_intros Matches_no_error)
qed (simp add: avoids_intros)

lemma Within_avoids:
  "\<forall>r \<in> set rules. literal_rule r \<Longrightarrow> avoids {Panic} (ParametersWithinCapabilityRules rules p op res c raw)"
proof (induction rules)
  case (Cons r rules)
  then show ?case unfolding ParametersWithinCapabilityRules.simps
    by (intro avoids_intros Matches_avoids) (auto simp: literal_rule_def)
qed (simp add: avoids_intros)

end
