(* ===== verification/Capability.thy ===== *)
theory Capability
  imports Structs GoTime
begin

text \<open>
  Typed action capabilities: \<open>ActionSemantics\<close> of \<open>assessment.go\<close>, \<open>ResourceDiscovery\<close> of
  \<open>discovery.go\<close>, \<open>ActionCapability\<close> and its digest of \<open>manifest.go\<close>. The digest is proved
  to bind every field of the capability.
\<close>

section \<open>Action semantics\<close>

text \<open>\<open>ActionEffect\<close> is an open string type; these are its named values.\<close>

type_synonym ActionEffect = string

definition EffectRead :: ActionEffect where "EffectRead = ''read''"
definition EffectWrite :: ActionEffect where "EffectWrite = ''write''"
definition EffectDelete :: ActionEffect where "EffectDelete = ''delete''"
definition EffectAccessChange :: ActionEffect where "EffectAccessChange = ''access_change''"
definition EffectDataExport :: ActionEffect where "EffectDataExport = ''data_export''"
definition EffectCodeExecution :: ActionEffect where "EffectCodeExecution = ''code_execution''"
definition EffectAvailabilityChange :: ActionEffect where "EffectAvailabilityChange = ''availability_change''"
definition EffectUnknown :: ActionEffect where "EffectUnknown = ''unknown''"

lemmas effect_defs = EffectRead_def EffectWrite_def EffectDelete_def EffectAccessChange_def
  EffectDataExport_def EffectCodeExecution_def EffectAvailabilityChange_def EffectUnknown_def

definition known_effects :: "ActionEffect list" where
  "known_effects = [EffectRead, EffectWrite, EffectDelete, EffectAccessChange, EffectDataExport,
     EffectCodeExecution, EffectAvailabilityChange, EffectUnknown]"

definition ActionSemanticsProtocol :: string where
  "ActionSemanticsProtocol = ''misconfig.action-semantics/v1''"

record ActionSemantics =
  as_Protocol :: string
  as_Effects :: "ActionEffect list"

fun check_effects :: "ActionEffect set \<Rightarrow> ActionEffect list \<Rightarrow> unit result" where
  "check_effects seen [] = ok"
| "check_effects seen (effect # effects) =
     (if effect \<notin> set known_effects then fail ''action effect is unsupported''
      else if effect \<in> seen then fail ''action effect is duplicated''
      else check_effects (insert effect seen) effects)"

definition ActionSemantics_Validate :: "ActionSemantics \<Rightarrow> unit result" where
  "ActionSemantics_Validate s =
     (if as_Protocol s \<noteq> ActionSemanticsProtocol \<or> length (as_Effects s) = 0 \<or> length (as_Effects s) > 8
      then fail ''action semantics are missing or incompatible''
      else check_effects {} (as_Effects s))"

interpretation effects_loop: seen_loop check_effects "\<lambda>e. e \<in> set known_effects" "\<lambda>e. e"
  by unfold_locales auto

lemma ActionSemantics_Validate_ok [result_iff]:
  "ActionSemantics_Validate s = ok \<longleftrightarrow> as_Protocol s = ActionSemanticsProtocol \<and> as_Effects s \<noteq> [] \<and>
     set (as_Effects s) \<subseteq> set known_effects \<and> distinct (as_Effects s)"
proof -
  have "length es \<le> 8" if "set es \<subseteq> set known_effects" "distinct es" for es
  proof -
    have "length es = card (set es)" using that(2) by (simp add: distinct_card)
    also have "\<dots> \<le> card (set known_effects)" using that(1) by (simp add: card_mono)
    also have "\<dots> \<le> length known_effects" by (rule card_length)
    finally show ?thesis by (simp add: known_effects_def)
  qed
  from this [of "as_Effects s"] show ?thesis
    by (auto simp: ActionSemantics_Validate_def effects_loop.loop_empty_iff not_less)
qed

lemma check_effects_avoids [avoids_intros]: "avoids {Panic} (check_effects seen es)"
  by (induction es arbitrary: seen) (simp_all add: avoids_intros)

lemma ActionSemantics_Validate_avoids [avoids_intros]: "avoids {Panic} (ActionSemantics_Validate s)"
  unfolding ActionSemantics_Validate_def by (intro avoids_intros)

section \<open>Discovery contract\<close>

definition ResourceDiscoveryProtocol :: string where
  "ResourceDiscoveryProtocol = ''misconfig.resource-discovery/v1''"

record ResourceDiscovery =
  rd_Protocol :: string
  rd_MaximumPageSize :: int
  rd_MaximumAgeSeconds :: int

definition ResourceDiscovery_Validate :: "ResourceDiscovery \<Rightarrow> unit result" where
  "ResourceDiscovery_Validate d =
     (if rd_Protocol d \<noteq> ResourceDiscoveryProtocol \<or> rd_MaximumPageSize d < 1 \<or> rd_MaximumPageSize d > 200 \<or>
         rd_MaximumAgeSeconds d < 1 \<or> rd_MaximumAgeSeconds d > 300
      then fail ''resource discovery contract is invalid'' else ok)"

lemma ResourceDiscovery_Validate_ok [result_iff]:
  "ResourceDiscovery_Validate d = ok \<longleftrightarrow> rd_Protocol d = ResourceDiscoveryProtocol \<and>
     rd_MaximumPageSize d \<in> {1..200} \<and> rd_MaximumAgeSeconds d \<in> {1..300}"
  by (auto simp: ResourceDiscovery_Validate_def)

lemma ResourceDiscovery_Validate_avoids [avoids_intros]: "avoids {Panic} (ResourceDiscovery_Validate d)"
  unfolding ResourceDiscovery_Validate_def by (intro avoids_intros)

section \<open>Capabilities\<close>

record ActionCapability =
  ac_Ref :: string
  ac_Operation :: string
  ac_MaximumTTLSeconds :: int
  ac_Reversible :: bool
  ac_ParametersSchema :: jval
  ac_ExecutionSchema :: jval
  ac_VerificationSchema :: jval
  ac_Discovery :: "ResourceDiscovery option"
  ac_Semantics :: "ActionSemantics option"

definition ActionCapability_Validate :: "ActionCapability \<Rightarrow> unit result" where
  "ActionCapability_Validate a =
     and_then (case ac_Semantics a of None \<Rightarrow> ok | Some s \<Rightarrow> ActionSemantics_Validate s) (\<lambda>_.
     and_then (case ac_Discovery a of None \<Rightarrow> ok | Some d \<Rightarrow> ResourceDiscovery_Validate d) (\<lambda>_.
       if \<not> identityPattern (ac_Ref a) \<or> \<not> operationPattern (ac_Operation a)
       then fail ''action capability identity is invalid''
       else if ac_MaximumTTLSeconds a \<le> 0 \<or> ac_MaximumTTLSeconds a > 900
       then fail ''action capability authority ttl is invalid''
       else and_then (validateSchema (ac_ParametersSchema a) ''action parameters'') (\<lambda>_.
            and_then (validateSchema (ac_ExecutionSchema a) ''action execution'') (\<lambda>_.
              validateSchema (ac_VerificationSchema a) ''action verification''))))"

text \<open>What \<open>json.Marshal\<close> writes, fields in declaration order.\<close>

definition ResourceDiscovery_json :: "ResourceDiscovery \<Rightarrow> jval" where
  "ResourceDiscovery_json d =
     JObject [(''protocol'', JString (rd_Protocol d)),
       (''maximum_page_size'', int_json (rd_MaximumPageSize d)),
       (''maximum_age_seconds'', int_json (rd_MaximumAgeSeconds d))]"

definition ActionSemantics_json :: "ActionSemantics \<Rightarrow> jval" where
  "ActionSemantics_json s =
     JObject [(''protocol'', JString (as_Protocol s)), (''effects'', strings_json (as_Effects s))]"

definition ActionCapability_json :: "ActionCapability \<Rightarrow> jval" where
  "ActionCapability_json a =
     JObject ([(''ref'', JString (ac_Ref a)), (''operation'', JString (ac_Operation a)),
       (''maximum_ttl_seconds'', int_json (ac_MaximumTTLSeconds a)),
       (''reversible'', JBool (ac_Reversible a)),
       (''parameters_schema'', any_json (ac_ParametersSchema a)),
       (''execution_schema'', any_json (ac_ExecutionSchema a)),
       (''verification_schema'', any_json (ac_VerificationSchema a))] @
       (case ac_Discovery a of None \<Rightarrow> [] | Some d \<Rightarrow> [(''resource_discovery'', ResourceDiscovery_json d)]) @
       (case ac_Semantics a of None \<Rightarrow> [] | Some s \<Rightarrow> [(''semantics'', ActionSemantics_json s)]))"

definition ActionCapabilityDigest :: "ActionCapability \<Rightarrow> string result" where
  "ActionCapabilityDigest action =
     and_then (ActionCapability_Validate action) (\<lambda>_. Inr (sha_digest (json_text (ActionCapability_json action))))"

section \<open>What validation decides\<close>

definition schema_ok :: "jval \<Rightarrow> bool" where
  "schema_ok v \<longleftrightarrow> validateSchema v [] = ok"

lemma validateSchema_ok [result_iff]: "validateSchema v label = ok \<longleftrightarrow> schema_ok v"
  unfolding schema_ok_def by (rule validateSchema_label)

lemma ActionCapability_Validate_ok [result_iff]:
  "ActionCapability_Validate a = ok \<longleftrightarrow>
     (\<forall>s. ac_Semantics a = Some s \<longrightarrow> ActionSemantics_Validate s = ok) \<and>
     (\<forall>d. ac_Discovery a = Some d \<longrightarrow> ResourceDiscovery_Validate d = ok) \<and>
     identityPattern (ac_Ref a) \<and> operationPattern (ac_Operation a) \<and>
     ac_MaximumTTLSeconds a \<in> {1..900} \<and>
     schema_ok (ac_ParametersSchema a) \<and> schema_ok (ac_ExecutionSchema a) \<and> schema_ok (ac_VerificationSchema a)"
  by (cases "ac_Semantics a"; cases "ac_Discovery a")
    (auto simp: ActionCapability_Validate_def and_then_Inr validateSchema_ok)

lemma ActionCapability_Validate_avoids [avoids_intros]: "avoids {Panic} (ActionCapability_Validate a)"
  unfolding ActionCapability_Validate_def by (intro avoids_intros)

lemma ActionCapabilityDigest_iff [result_iff]:
  "ActionCapabilityDigest a = Inr d \<longleftrightarrow>
     ActionCapability_Validate a = ok \<and> d = sha_digest (json_text (ActionCapability_json a))"
  by (auto simp: ActionCapabilityDigest_def and_then_Inr)

lemma ActionCapabilityDigest_avoids [avoids_intros]: "avoids {Panic} (ActionCapabilityDigest a)"
  unfolding ActionCapabilityDigest_def by (intro avoids_intros)

section \<open>The digest binds the capability\<close>

definition same_capability :: "ActionCapability \<Rightarrow> ActionCapability \<Rightarrow> bool" where
  "same_capability a b \<longleftrightarrow> ac_Ref a = ac_Ref b \<and> ac_Operation a = ac_Operation b \<and>
     ac_MaximumTTLSeconds a = ac_MaximumTTLSeconds b \<and> ac_Reversible a = ac_Reversible b \<and>
     same_any (ac_ParametersSchema a) (ac_ParametersSchema b) \<and>
     same_any (ac_ExecutionSchema a) (ac_ExecutionSchema b) \<and>
     same_any (ac_VerificationSchema a) (ac_VerificationSchema b) \<and>
     ac_Discovery a = ac_Discovery b \<and> ac_Semantics a = ac_Semantics b"

definition wf_schemas :: "ActionCapability \<Rightarrow> bool" where
  "wf_schemas a \<longleftrightarrow> wf_json (ac_ParametersSchema a) \<and> wf_json (ac_ExecutionSchema a) \<and> wf_json (ac_VerificationSchema a)"

lemma effects_valid: "set es \<subseteq> set known_effects \<Longrightarrow> list_all ValidString es"
proof -
  have "list_all ValidString known_effects"
    by (rule ascii_list) (simp add: known_effects_def effect_defs)
  then show "set es \<subseteq> set known_effects \<Longrightarrow> list_all ValidString es" by (auto simp: list_all_iff)
qed

lemma parts_json_inject [simp]:
  "ResourceDiscovery_json d = ResourceDiscovery_json d' \<longleftrightarrow> d = d'"
  "ActionSemantics_json s = ActionSemantics_json s' \<longleftrightarrow> s = s'"
  "lits (ResourceDiscovery_json d) = ResourceDiscovery_json d"
  "lits (ActionSemantics_json s) = ActionSemantics_json s"
  by (auto simp: ResourceDiscovery_json_def ActionSemantics_json_def)

lemma capability_json_same:
  "lits (ActionCapability_json a) = lits (ActionCapability_json b) \<longleftrightarrow> same_capability a b"
  by (cases "ac_Discovery a"; cases "ac_Discovery b"; cases "ac_Semantics a"; cases "ac_Semantics b")
    (auto simp: ActionCapability_json_def same_capability_def same_any_def)

lemma capability_json_wf:
  assumes "ActionCapability_Validate a = ok" "wf_schemas a"
  shows "wf_json (ActionCapability_json a)"
proof -
  have v: "ValidString (ac_Ref a)" "ValidString (ac_Operation a)"
    using assms(1) identityPattern_solid operationPattern_solid solid_list_valid by (auto simp: result_iff)
  have n: "list_all ValidString [''ref'', ''operation'', ''maximum_ttl_seconds'', ''reversible'',
      ''parameters_schema'', ''execution_schema'', ''verification_schema'', ''resource_discovery'',
      ''semantics'', ''protocol'', ''effects'', ''maximum_page_size'', ''maximum_age_seconds'',
      ResourceDiscoveryProtocol, ActionSemanticsProtocol]"
    by (rule ascii_list) (simp add: ResourceDiscoveryProtocol_def ActionSemanticsProtocol_def)
  show ?thesis
    using assms v n effects_valid
    by (auto simp: ActionCapability_json_def ResourceDiscovery_json_def ActionSemantics_json_def
        wf_schemas_def ActionCapability_Validate_ok ActionSemantics_Validate_ok ResourceDiscovery_Validate_ok
        split: option.split)
qed

definition capability_encoding :: "ActionCapability \<Rightarrow> string \<Rightarrow> bool" where
  "capability_encoding a e \<longleftrightarrow> ActionCapability_Validate a = ok \<and> e = json_text (ActionCapability_json a)"

interpretation capability_binding: digest_binding ActionCapabilityDigest capability_encoding same_capability wf_schemas
proof unfold_locales
  show "\<exists>e. capability_encoding a e \<and> d = sha_digest e" if "ActionCapabilityDigest a = Inr d" for a d
    using that by (simp add: capability_encoding_def ActionCapabilityDigest_iff)
  show "same_capability a b"
    if "capability_encoding a e" "capability_encoding b e" "wf_schemas a" "wf_schemas b" for a b e
    using that json_text_inject capability_json_wf capability_json_same
    unfolding capability_encoding_def by metis
qed

end
