(* ===== verification/Encodings.thy ===== *)
theory Encodings
  imports Json
begin

text \<open>
  Two encodings of the standard library that manifests rely on: \<open>base64.RawURLEncoding\<close>
  with its round trip, and the part of \<open>net/url.Parse\<close> that decides whether a text is a URL
  and what its components are, with its result for the URLs of plain hosts.
\<close>

section \<open>Base64\<close>

definition b64_alphabet :: string where
  "b64_alphabet = ''ABCDEFGHIJKLMNOPQRSTUVWXYZabcdefghijklmnopqrstuvwxyz0123456789-_''"

definition b64_char :: "nat \<Rightarrow> char" where
  "b64_char n = b64_alphabet ! n"

definition b64_value :: "char \<Rightarrow> nat option" where
  "b64_value c = map_of (zip b64_alphabet [0..<64]) c"

fun b64_encode :: "nat list \<Rightarrow> string" where
  "b64_encode [] = []"
| "b64_encode [a] = [b64_char (a div 4), b64_char (a mod 4 * 16)]"
| "b64_encode [a, b] = [b64_char (a div 4), b64_char (a mod 4 * 16 + b div 16), b64_char (b mod 16 * 4)]"
| "b64_encode (a # b # c # s) =
     [b64_char (a div 4), b64_char (a mod 4 * 16 + b div 16), b64_char (b mod 16 * 4 + c div 64), b64_char (c mod 64)]
     @ b64_encode s"

text \<open>Leftover bits of the last character are dropped, as the decoder is not strict.\<close>

fun b64_decode :: "nat list \<Rightarrow> nat list option" where
  "b64_decode [] = Some []"
| "b64_decode [_] = None"
| "b64_decode [w, x] = Some [w * 4 + x div 16]"
| "b64_decode [w, x, y] = Some [w * 4 + x div 16, x mod 16 * 16 + y div 4]"
| "b64_decode (w # x # y # z # s) =
     map_option (\<lambda>bs. [w * 4 + x div 16, x mod 16 * 16 + y div 4, y mod 4 * 64 + z] @ bs) (b64_decode s)"

definition RawURL_EncodeToString :: "string \<Rightarrow> string" where
  "RawURL_EncodeToString s = b64_encode (map code s)"

text \<open>Carriage returns and newlines are skipped wherever they stand.\<close>

definition RawURL_DecodeString :: "string \<Rightarrow> string option" where
  "RawURL_DecodeString s =
     (case those (map b64_value (filter (\<lambda>c. c \<noteq> CHR 0x0D \<and> c \<noteq> CHR 0x0A) s)) of
        None \<Rightarrow> None | Some vs \<Rightarrow> map_option (map byte) (b64_decode vs))"

lemma b64_char_table:
  "list_all (\<lambda>n. b64_value (b64_char n) = Some n \<and> b64_char n \<noteq> CHR 0x0D \<and> b64_char n \<noteq> CHR 0x0A) [0..<64]"
  by code_simp

lemma b64_value_char [simp]:
  "n < 64 \<Longrightarrow> b64_value (b64_char n) = Some n" "n < 64 \<Longrightarrow> b64_char n \<noteq> CHR 0x0D" "n < 64 \<Longrightarrow> b64_char n \<noteq> CHR 0x0A"
  using b64_char_table by (auto simp: list_all_iff)

lemma b64_decode_encode:
  "list_all (\<lambda>a. a < 256) bs \<Longrightarrow>
     filter (\<lambda>c. c \<noteq> CHR 0x0D \<and> c \<noteq> CHR 0x0A) (b64_encode bs) = b64_encode bs \<and>
     (\<exists>vs. those (map b64_value (b64_encode bs)) = Some vs \<and> b64_decode vs = Some bs)"
proof (induction bs rule: b64_encode.induct)
  case (2 a)
  then have "a < 256" by simp
  then have "a div 4 < 64" "a mod 4 * 16 < 64" by presburger+
  then show ?case by auto
next
  case (3 a b)
  then have "a < 256" "b < 256" by simp_all
  then have d: "a div 4 < 64" "b div 16 < 16" by (simp_all add: less_mult_imp_div_less)
  have m: "a mod 4 < 4" "b mod 16 < 16" by simp_all
  have "a mod 4 * 16 + b div 16 < 64" "b mod 16 * 4 < 64" using d m by linarith+
  with d show ?case by (simp add: div_mult_mod_eq)
next
  case (4 a b c s)
  then have bytes: "a < 256" "b < 256" "c < 256" by simp_all
  then have d: "a div 4 < 64" "b div 16 < 16" "c div 64 < 4" by (simp_all add: less_mult_imp_div_less)
  have m: "a mod 4 < 4" "b mod 16 < 16" "c mod 64 < 64" by simp_all
  have b: "a div 4 < 64" "a mod 4 * 16 + b div 16 < 64" "b mod 16 * 4 + c div 64 < 64" "c mod 64 < 64"
    using d m by linarith+
  have v: "a div 4 * 4 + (a mod 4 * 16 + b div 16) div 16 = a"
    "(a mod 4 * 16 + b div 16) mod 16 * 16 + (b mod 16 * 4 + c div 64) div 4 = b"
    "(b mod 16 * 4 + c div 64) mod 4 * 64 + c mod 64 = c"
    using d by (simp_all add: div_mult_mod_eq)
  obtain vs where vs: "those (map b64_value (b64_encode s)) = Some vs" "b64_decode vs = Some s"
    and f: "filter (\<lambda>c. c \<noteq> CHR 0x0D \<and> c \<noteq> CHR 0x0A) (b64_encode s) = b64_encode s"
    using 4 by auto
  show ?case using b vs v by (simp add: f)
qed simp

lemma RawURL_roundtrip [simp]: "RawURL_DecodeString (RawURL_EncodeToString s) = Some s"
proof -
  have "list_all (\<lambda>a. a < 256) (map code s)" by (simp add: list_all_iff code_less)
  from b64_decode_encode [OF this] show ?thesis
    by (auto simp: RawURL_DecodeString_def RawURL_EncodeToString_def comp_def)
qed

section \<open>URLs\<close>

definition cut :: "char \<Rightarrow> string \<Rightarrow> string \<times> string" where
  "cut c s = (takeWhile (\<lambda>x. x \<noteq> c) s, drop 1 (dropWhile (\<lambda>x. x \<noteq> c) s))"

text \<open>\<open>getScheme\<close>: \<open>None\<close> is the error, an empty scheme leaves the text whole.\<close>

definition getScheme :: "string \<Rightarrow> (string \<times> string) option" where
  "getScheme s =
     (let letter = (\<lambda>c. is_lower c \<or> is_upper c);
          other = (\<lambda>c. is_digit c \<or> c \<in> set ''+-.'');
          scheme = takeWhile (\<lambda>c. letter c \<or> other c) s;
          rest = dropWhile (\<lambda>c. letter c \<or> other c) s
      in if s \<noteq> [] \<and> other (hd s) then Some ([], s)
         else if HasPrefix rest '':'' then (if scheme = [] then None else Some (scheme, drop 1 rest))
         else Some ([], s))"

datatype url_part = PathPart | HostPart | ZonePart | UserPart | FragmentPart

definition host_char :: "char \<Rightarrow> bool" where
  "host_char c \<longleftrightarrow> is_lower c \<or> is_upper c \<or> is_digit c \<or>
     c \<in> {CHR 0x22, CHR 0x27} \<or> c \<in> set ''!$&()*+,;=:[]<>-_.~''"

text \<open>Whether \<open>unescape\<close> accepts the text of a component.\<close>

fun unescape_ok :: "url_part \<Rightarrow> string \<Rightarrow> bool" where
  "unescape_ok part [] = True"
| "unescape_ok part (c # s) =
     (if c = CHR ''%'' then
        (case s of
           a # b # t \<Rightarrow>
             (case (hex_val a, hex_val b) of
                (Some x, Some y) \<Rightarrow>
                  (part = HostPart \<longrightarrow> \<not> (x < 8 \<and> [a, b] \<noteq> ''25'')) \<and>
                  (part = ZonePart \<longrightarrow> [a, b] = ''25'' \<or> 16 * x + y = 0x20 \<or>
                     16 * x + y < 0x80 \<and> host_char (byte (16 * x + y))) \<and>
                  unescape_ok part t
              | _ \<Rightarrow> False)
         | _ \<Rightarrow> False)
      else (part \<in> {HostPart, ZonePart} \<and> code c < 0x80 \<longrightarrow> host_char c) \<and> unescape_ok part s)"

definition validOptionalPort :: "string \<Rightarrow> bool" where
  "validOptionalPort port \<longleftrightarrow> (case port of [] \<Rightarrow> True | c # cs \<Rightarrow> c = CHR '':'' \<and> list_all is_digit cs)"

text \<open>Text before and from the last occurrence of a character.\<close>

definition split_last :: "char \<Rightarrow> string \<Rightarrow> (string \<times> string) option" where
  "split_last c s =
     (if c \<notin> set s then None
      else let after = rev (takeWhile (\<lambda>x. x \<noteq> c) (rev s))
           in Some (take (length s - length after - 1) s, c # after))"

fun find_sub :: "string \<Rightarrow> string \<Rightarrow> (string \<times> string) option" where
  "find_sub p [] = (if p = [] then Some ([], []) else None)"
| "find_sub p (c # s) =
     (if HasPrefix (c # s) p then Some ([], c # s)
      else map_option (\<lambda>(a, b). (c # a, b)) (find_sub p s))"

definition host_ok :: "string \<Rightarrow> bool" where
  "host_ok host =
     (if HasPrefix host ''['' then
        (case split_last (CHR '']'') host of
           None \<Rightarrow> False
         | Some (ip, rest) \<Rightarrow> validOptionalPort (drop 1 rest) \<and>
             (case find_sub ''%25'' ip of
                Some (addr, zone) \<Rightarrow> unescape_ok HostPart addr \<and> unescape_ok ZonePart zone \<and> unescape_ok HostPart rest
              | None \<Rightarrow> unescape_ok HostPart host))
      else (case split_last (CHR '':'') host of None \<Rightarrow> True | Some (_, port) \<Rightarrow> validOptionalPort port)
           \<and> unescape_ok HostPart host)"

definition user_char :: "char \<Rightarrow> bool" where
  "user_char c \<longleftrightarrow> is_lower c \<or> is_upper c \<or> is_digit c \<or> c = CHR 0x27 \<or> c \<in> set ''-._:~!$&()*+,;=%@''"

text \<open>
  The components before unescaping, which keeps empty components empty. An opaque URL has no
  path.
\<close>

record url =
  url_Scheme :: string
  url_User :: "string option"
  url_Host :: string
  url_Path :: string
  url_RawQuery :: string
  url_Fragment :: string

definition to_lower :: "char \<Rightarrow> char" where
  "to_lower c = (if is_upper c then byte (code c + 0x20) else c)"

definition parse_authority :: "string \<Rightarrow> (string option \<times> string) option" where
  "parse_authority authority =
     (case split_last (CHR ''@'') authority of
        None \<Rightarrow> if host_ok authority then Some (None, authority) else None
      | Some (user, rest) \<Rightarrow>
          if host_ok (drop 1 rest) \<and> list_all user_char user \<and> unescape_ok UserPart user
          then Some (Some user, drop 1 rest) else None)"

definition url_Parse :: "string \<Rightarrow> url option" where
  "url_Parse raw =
     (let (u, fragment) = cut (CHR ''#'') raw
      in if list_ex (\<lambda>c. code c < 0x20 \<or> code c = 0x7F) u \<or> \<not> unescape_ok FragmentPart fragment then None
         else if u = ''*'' then Some \<lparr> url_Scheme = [], url_User = None, url_Host = [], url_Path = ''*'', url_RawQuery = [],
           url_Fragment = fragment \<rparr>
         else case getScheme u of
           None \<Rightarrow> None
         | Some (scheme, rest0) \<Rightarrow>
             let (rest, query) = cut (CHR ''?'') rest0;
                 result = \<lparr> url_Scheme = map to_lower scheme, url_User = None, url_Host = [], url_Path = [],
                            url_RawQuery = query, url_Fragment = fragment \<rparr>
             in if \<not> HasPrefix rest ''/'' \<and> scheme \<noteq> [] then Some result
                else if \<not> HasPrefix rest ''/'' \<and> CHR '':'' \<in> set (fst (cut (CHR ''/'') rest)) then None
                else if (scheme \<noteq> [] \<or> \<not> HasPrefix rest ''///'') \<and> HasPrefix rest ''//''
                then let authority = takeWhile (\<lambda>c. c \<noteq> CHR ''/'') (drop 2 rest);
                         path = dropWhile (\<lambda>c. c \<noteq> CHR ''/'') (drop 2 rest)
                     in (case parse_authority authority of
                           None \<Rightarrow> None
                         | Some (user, host) \<Rightarrow>
                             if unescape_ok PathPart path
                             then Some (result \<lparr> url_User := user, url_Host := host, url_Path := path \<rparr>) else None)
                else if unescape_ok PathPart rest then Some (result \<lparr> url_Path := rest \<rparr>) else None)"

text \<open>The path a client asks for: \<open>URL.RequestURI\<close> asks for the root where a URL has no path.\<close>

definition request_path :: "url \<Rightarrow> string" where
  "request_path u = (if url_Path u = [] then ''/'' else url_Path u)"

text \<open>Equations that evaluate the parser on a concrete text.\<close>

lemmas url_eval = url_Parse_def cut_def getScheme_def parse_authority_def host_ok_def split_last_def host_char_def
  validOptionalPort_def HasPrefix_def is_lower_def is_upper_def is_digit_def between_def to_lower_def Let_def

section \<open>URLs of plain hosts\<close>

definition plain_char :: "char \<Rightarrow> bool" where
  "plain_char c \<longleftrightarrow> is_lower c \<or> is_digit c \<or> c \<in> set ''-.''"

lemma plain_char_not:
  "plain_char c \<Longrightarrow> c \<notin> set ''/?#@:[%*''" "plain_char c \<Longrightarrow> host_char c"
  "plain_char c \<Longrightarrow> \<not> (code c < 0x20 \<or> code c = 0x7F)"
  by (auto simp: plain_char_def host_char_def is_lower_def is_digit_def between_def)

lemma plain_unescape: "\<forall>c \<in> set s. plain_char c \<or> c = CHR ''/'' \<Longrightarrow> part \<notin> {HostPart, ZonePart} \<Longrightarrow> unescape_ok part s"
  by (induction s) (auto dest: plain_char_not(1))

lemma plain_host_unescape: "list_all plain_char s \<Longrightarrow> unescape_ok HostPart s"
  by (induction s) (auto dest: plain_char_not)

lemma plain_authority:
  assumes "list_all plain_char host"
  shows "parse_authority host = Some (None, host)"
proof -
  have n: "CHR ''@'' \<notin> set host" "CHR '':'' \<notin> set host" "CHR ''['' \<notin> set host"
    using assms plain_char_not(1) unfolding list_all_iff by force+
  then have "\<not> HasPrefix host ''[''" by (cases host) (auto simp: HasPrefix_def)
  then have "host_ok host" using n(2) plain_host_unescape [OF assms] by (simp add: host_ok_def split_last_def)
  then show ?thesis using n(1) by (simp add: parse_authority_def split_last_def)
qed

lemma cut_append: "c \<notin> set s \<Longrightarrow> cut c (s @ c # t) = (s, t)" "c \<notin> set s \<Longrightarrow> cut c s = (s, [])"
proof -
  show "c \<notin> set s \<Longrightarrow> cut c (s @ c # t) = (s, t)" unfolding cut_def
    by (subst takeWhile_append2, force, subst dropWhile_append2, force, simp)
  show "c \<notin> set s \<Longrightarrow> cut c s = (s, [])" unfolding cut_def
    by (subst takeWhile_eq_all_conv [THEN iffD2], force, subst dropWhile_eq_Nil_conv [THEN iffD2], force, simp)
qed

lemma scheme_https: "getScheme (''https:'' @ s) = Some (''https'', s)"
  by (simp add: getScheme_def is_lower_def is_upper_def is_digit_def between_def HasPrefix_def Let_def)

text \<open>
  What is appended to a root endpoint that ends in a question mark or a number sign becomes its
  query or fragment.
\<close>

lemma url_Parse_marked:
  assumes host: "list_all plain_char host" and path: "\<forall>c \<in> set path. plain_char c \<or> c = CHR ''/''"
  shows "url_Parse (''https://'' @ host @ ''/?'' @ path) = Some \<lparr> url_Scheme = ''https'', url_User = None, url_Host = host,
       url_Path = ''/'', url_RawQuery = path, url_Fragment = [] \<rparr>" (is ?q)
    and "url_Parse (''https://'' @ host @ ''/#'' @ path) = Some \<lparr> url_Scheme = ''https'', url_User = None, url_Host = host,
       url_Path = ''/'', url_RawQuery = [], url_Fragment = path \<rparr>" (is ?f)
proof -
  have h: "\<forall>c \<in> set host. c \<notin> set ''/?#@:[%*'' \<and> \<not> (code c < 0x20 \<or> code c = 0x7F)"
    using host plain_char_not by (auto simp: list_all_iff)
  have t: "\<forall>c \<in> set path. c \<notin> set ''?#@:[%*'' \<and> \<not> (code c < 0x20 \<or> code c = 0x7F)"
    using path plain_char_not by fastforce
  have lower: "map to_lower ''https'' = ''https''" by (simp add: to_lower_def is_upper_def between_def)
  have c1: "cut (CHR ''#'') (''https://'' @ host @ ''/?'' @ path) = (''https:'' @ ''//'' @ host @ ''/?'' @ path, [])"
    using h t by (subst cut_append) auto
  have c2: "cut (CHR ''#'') (''https://'' @ host @ ''/#'' @ path) = (''https:'' @ ''//'' @ host @ ''/'', path)"
    using cut_append(1) [of "CHR ''#''" "''https:'' @ ''//'' @ host @ ''/''" path] h by auto
  have c3: "cut (CHR ''?'') (''//'' @ host @ ''/?'' @ path) = (''//'' @ host @ ''/'', path)"
    using cut_append(1) [of "CHR ''?''" "''//'' @ host @ ''/''" path] h by auto
  have c4: "cut (CHR ''?'') (''//'' @ host @ ''/'') = (''//'' @ host @ ''/'', [])"
    using h by (subst cut_append) auto
  have a: "takeWhile (\<lambda>c. c \<noteq> CHR ''/'') (host @ ''/'') = host" "dropWhile (\<lambda>c. c \<noteq> CHR ''/'') (host @ ''/'') = ''/''"
    using h by (subst takeWhile_append2 dropWhile_append2; force)+
  have n1: "\<not> list_ex (\<lambda>c. code c < 0x20 \<or> code c = 0x7F) (''https:'' @ ''//'' @ host @ ''/?'' @ path)"
    "\<not> list_ex (\<lambda>c. code c < 0x20 \<or> code c = 0x7F) (''https:'' @ ''//'' @ host @ ''/'')"
    using h t by (auto simp: list_ex_iff)
  have p: "HasPrefix (''//'' @ s) ''/''" "HasPrefix (''//'' @ s) ''//''" for s by (simp_all add: HasPrefix_def)
  have u: "unescape_ok FragmentPart path" "unescape_ok PathPart ''/''" "unescape_ok FragmentPart []"
    using plain_unescape [OF path] by simp_all
  show ?q unfolding url_Parse_def c1 Let_def prod.case scheme_https option.case c3
    using n1(1) u a p plain_authority [OF host] lower by simp
  show ?f unfolding url_Parse_def c2 Let_def prod.case scheme_https option.case c4
    using n1(2) u a p plain_authority [OF host] lower by simp
qed
end
