(* ===== verification/Manifests.thy ===== *)
theory Manifests
  imports Authorizations Capability Encodings
begin

text \<open>
  Provider releases (\<open>manifest.go\<close>): validation, canonical bytes, digest, signing and
  verification. Ed25519 is a parameter: a signing function on private keys and messages, a
  verification predicate on public keys, messages and signatures.
\<close>

section \<open>The data\<close>

record Publisher =
  pu_ID :: string
  pu_KeyID :: string

record Compatibility =
  co_Protocol :: string
  co_Major :: int

record Credential =
  cr_Kind :: string
  cr_MaximumTTLSeconds :: int
  cr_RevocationSemantics :: string
  cr_PayloadSchema :: jval
  cr_AuthorizationFeatures :: "string list"
  cr_LifetimeProtocol :: string

record RendererArtifact =
  ra_OS :: string
  ra_Arch :: string
  ra_Digest :: string

record Renderer =
  re_Protocol :: string
  re_Executable :: string
  re_Artifacts :: "RendererArtifact list"
  re_SensitiveEnvironment :: "string list"

record RuntimeArtifact =
  rt_Kind :: string
  rt_Reference :: string
  rt_Digest :: string

record Broker =
  br_Protocol :: string
  br_Transport :: string
  br_Endpoint :: string
  br_RuntimeArtifacts :: "RuntimeArtifact list"
  br_ConnectionVerification :: string

record Manifest =
  ma_Protocol :: string
  ma_Publisher :: Publisher
  ma_Compatibility :: Compatibility
  ma_Release :: string
  ma_Provider :: string
  ma_ConfigurationSchema :: jval
  ma_Credential :: "Credential option"
  ma_Renderer :: "Renderer option"
  ma_Broker :: Broker
  ma_Actions :: "ActionCapability list"

record SignedManifest =
  sm_Manifest :: Manifest
  sm_Digest :: string
  sm_Signature :: string

record TrustedPublisher =
  tp_ID :: string
  tp_KeyID :: string
  tp_PublicKey :: string

definition ManifestProtocol :: string where "ManifestProtocol = ''misconfig.provider-adapter/v2''"
definition BrokerProtocol :: string where "BrokerProtocol = ''misconfig.credential-broker/v2''"
definition RendererProtocol :: string where "RendererProtocol = ''misconfig.credential-renderer/v1''"
definition BrokerTransportInboundHTTPS :: string where "BrokerTransportInboundHTTPS = ''inbound-https''"
definition BrokerTransportOutboundPull :: string where "BrokerTransportOutboundPull = ''outbound-pull''"
definition CredentialLifetimeProtocol :: string where
  "CredentialLifetimeProtocol = ''misconfig.credential-lifetime/v1''"
definition ConnectionVerificationProtocol :: string where
  "ConnectionVerificationProtocol = ''misconfig.connection-verification/v1''"

lemmas manifest_protocols = ManifestProtocol_def BrokerProtocol_def RendererProtocol_def
  BrokerTransportInboundHTTPS_def BrokerTransportOutboundPull_def CredentialLifetimeProtocol_def
  ConnectionVerificationProtocol_def

definition TransportMode :: "Broker \<Rightarrow> string" where
  "TransportMode b = (if br_Transport b = [] then BrokerTransportInboundHTTPS else br_Transport b)"

definition SupportsCredentials :: "Manifest \<Rightarrow> bool" where
  "SupportsCredentials m = (ma_Credential m \<noteq> None \<and> ma_Renderer m \<noteq> None)"

section \<open>Validation\<close>

definition ValidateCredentialLifetimeProtocol :: "string \<Rightarrow> unit result" where
  "ValidateCredentialLifetimeProtocol protocol =
     (if protocol \<noteq> [] \<and> protocol \<noteq> CredentialLifetimeProtocol
      then fail ''credential lifetime protocol is incompatible'' else ok)"

text \<open>
  \<open>range value\<close> visits runes; the bytes of a multi-byte rune and invalid bytes are all at
  least 0x80, so the control test is a test on bytes.
\<close>

definition runtimeReferenceValid :: "string \<Rightarrow> bool" where
  "runtimeReferenceValid v =
     (let value = TrimSpace v
      in if value = [] \<or> length value > 1024 then False
         else \<not> list_ex (\<lambda>c. code c \<le> 0x20 \<or> code c = 0x7F) value)"

text \<open>The labels of a map literal, in the literal's order (see \<open>check_required\<close>).\<close>

fun check_identities :: "(string \<times> string) list \<Rightarrow> unit result" where
  "check_identities [] = ok"
| "check_identities ((label, value) # others) =
     (if \<not> identityPattern value then fail (label @ '' is invalid'') else check_identities others)"

fun check_renderer_artifacts :: "string set \<Rightarrow> RendererArtifact list \<Rightarrow> unit result" where
  "check_renderer_artifacts seen [] = ok"
| "check_renderer_artifacts seen (artifact # artifacts) =
     (let identity = ra_OS artifact @ [CHR 0x00] @ ra_Arch artifact
      in if \<not> executablePattern (ra_OS artifact) \<or> \<not> executablePattern (ra_Arch artifact) \<or> \<not> digestPattern (ra_Digest artifact)
         then fail ''renderer artifact contract is invalid''
         else if identity \<in> seen then fail ''renderer artifact platform is duplicated''
         else check_renderer_artifacts (insert identity seen) artifacts)"

fun check_environment :: "string set \<Rightarrow> string list \<Rightarrow> unit result" where
  "check_environment seen [] = ok"
| "check_environment seen (name # names) =
     (if \<not> environmentPattern name then fail ''renderer sensitive environment contract is invalid''
      else if name \<in> seen then fail ''renderer sensitive environment contract is duplicated''
      else check_environment (insert name seen) names)"

fun check_runtime_artifacts :: "string set \<Rightarrow> RuntimeArtifact list \<Rightarrow> unit result" where
  "check_runtime_artifacts seen [] = ok"
| "check_runtime_artifacts seen (artifact # artifacts) =
     (let identity = rt_Kind artifact @ [CHR 0x00] @ rt_Reference artifact
      in if \<not> identityPattern (rt_Kind artifact) \<or> \<not> runtimeReferenceValid (rt_Reference artifact) \<or> \<not> digestPattern (rt_Digest artifact)
         then fail ''outbound runtime artifact contract is invalid''
         else if identity \<in> seen then fail ''outbound runtime artifact is duplicated''
         else check_runtime_artifacts (insert identity seen) artifacts)"

fun check_actions :: "string set \<Rightarrow> ActionCapability list \<Rightarrow> unit result" where
  "check_actions seen [] = ok"
| "check_actions seen (action # actions) =
     and_then (ActionCapability_Validate action) (\<lambda>_.
       if ac_Ref action \<in> seen then fail ''action capability is duplicated''
       else check_actions (insert (ac_Ref action) seen) actions)"

text \<open>The block guarded by \<open>m.Credential != nil\<close>; the renderer is then present too.\<close>

definition check_credential :: "Credential \<Rightarrow> Renderer \<Rightarrow> unit result" where
  "check_credential c r =
     and_then (ValidateCredentialLifetimeProtocol (cr_LifetimeProtocol c)) (\<lambda>_.
     and_then (ValidateAuthorizationFeatures (cr_AuthorizationFeatures c)) (\<lambda>_.
     and_then (check_identities [(''credential kind'', cr_Kind c), (''revocation semantics'', cr_RevocationSemantics c)]) (\<lambda>_.
       if cr_MaximumTTLSeconds c \<le> 0 \<or> cr_MaximumTTLSeconds c > 86400 then fail ''maximum credential ttl is invalid''
       else if re_Protocol r \<noteq> RendererProtocol \<or> \<not> executablePattern (re_Executable r) \<or> length (re_Artifacts r) = 0
       then fail ''renderer contract is invalid''
       else and_then (check_renderer_artifacts {} (re_Artifacts r)) (\<lambda>_.
              check_environment {} (re_SensitiveEnvironment r)))))"

definition check_inbound :: "Broker \<Rightarrow> unit result" where
  "check_inbound b =
     (if (case url_Parse (br_Endpoint b) of
            None \<Rightarrow> True
          | Some endpoint \<Rightarrow> url_Scheme endpoint \<noteq> ''https'' \<or> url_Host endpoint = [] \<or> url_User endpoint \<noteq> None \<or>
              url_RawQuery endpoint \<noteq> [] \<or> url_Fragment endpoint \<noteq> [])
      then fail ''inbound broker endpoint must be an absolute https URL without credentials, query, or fragment''
      else if length (br_RuntimeArtifacts b) \<noteq> 0
      then fail ''inbound broker cannot publish outbound runtime artifacts''
      else ok)"

definition check_outbound :: "Broker \<Rightarrow> unit result" where
  "check_outbound b =
     (if \<not> blank (br_Endpoint b) \<or> length (br_RuntimeArtifacts b) = 0
      then fail ''outbound broker requires a signed runtime artifact and no inbound endpoint''
      else check_runtime_artifacts {} (br_RuntimeArtifacts b))"

definition check_broker :: "Broker \<Rightarrow> unit result" where
  "check_broker b =
     (if br_Protocol b \<noteq> BrokerProtocol then fail ''broker protocol is invalid''
      else if br_ConnectionVerification b \<noteq> [] \<and> br_ConnectionVerification b \<noteq> ConnectionVerificationProtocol
      then fail ''connection verification protocol is incompatible''
      else if br_ConnectionVerification b \<noteq> [] \<and> TransportMode b \<noteq> BrokerTransportOutboundPull
      then fail ''connection verification exchange requires outbound transport''
      else if TransportMode b = BrokerTransportInboundHTTPS then check_inbound b
      else if TransportMode b = BrokerTransportOutboundPull then check_outbound b
      else fail ''broker transport is invalid'')"

definition Manifest_Validate :: "Manifest \<Rightarrow> unit result" where
  "Manifest_Validate m =
     (if ma_Protocol m \<noteq> ManifestProtocol \<or> co_Protocol (ma_Compatibility m) \<noteq> ManifestProtocol \<or> co_Major (ma_Compatibility m) \<noteq> 2
      then fail ''provider adapter protocol is incompatible''
      else and_then (check_identities [(''publisher id'', pu_ID (ma_Publisher m)), (''publisher key id'', pu_KeyID (ma_Publisher m)),
                       (''release'', ma_Release m), (''provider'', ma_Provider m)]) (\<lambda>_.
        if (ma_Credential m = None) \<noteq> (ma_Renderer m = None)
        then fail ''credential and renderer contracts must be published together''
        else and_then (case (ma_Credential m, ma_Renderer m) of (Some c, Some r) \<Rightarrow> check_credential c r | _ \<Rightarrow> ok) (\<lambda>_.
             and_then (check_broker (ma_Broker m)) (\<lambda>_.
             and_then (validateSchema (ma_ConfigurationSchema m) ''configuration'') (\<lambda>_.
             and_then (case ma_Credential m of None \<Rightarrow> ok
                       | Some c \<Rightarrow> validateSchema (cr_PayloadSchema c) ''credential payload'') (\<lambda>_.
             and_then (check_actions {} (ma_Actions m)) (\<lambda>_.
               if ma_Credential m = None \<and> length (ma_Actions m) = 0
               then fail ''provider release must publish credentials, actions, or both''
               else ok)))))))"

section \<open>Canonical bytes\<close>

definition Credential_json :: "Credential \<Rightarrow> jval" where
  "Credential_json c =
     JObject ([(''kind'', JString (cr_Kind c)), (''maximum_ttl_seconds'', int_json (cr_MaximumTTLSeconds c)),
       (''revocation_semantics'', JString (cr_RevocationSemantics c)), (''payload_schema'', any_json (cr_PayloadSchema c))] @
       omit (cr_AuthorizationFeatures c = []) ''authorization_features'' (strings_json (cr_AuthorizationFeatures c)) @
       omit (cr_LifetimeProtocol c = []) ''lifetime_protocol'' (JString (cr_LifetimeProtocol c)))"

definition RendererArtifact_json :: "RendererArtifact \<Rightarrow> jval" where
  "RendererArtifact_json a =
     JObject [(''os'', JString (ra_OS a)), (''arch'', JString (ra_Arch a)), (''digest'', JString (ra_Digest a))]"

definition Renderer_json :: "Renderer \<Rightarrow> jval" where
  "Renderer_json r =
     JObject ([(''protocol'', JString (re_Protocol r)), (''executable'', JString (re_Executable r)),
       (''artifacts'', JArray (map RendererArtifact_json (re_Artifacts r)))] @
       omit (re_SensitiveEnvironment r = []) ''sensitive_environment'' (strings_json (re_SensitiveEnvironment r)))"

definition RuntimeArtifact_json :: "RuntimeArtifact \<Rightarrow> jval" where
  "RuntimeArtifact_json a =
     JObject [(''kind'', JString (rt_Kind a)), (''reference'', JString (rt_Reference a)), (''digest'', JString (rt_Digest a))]"

definition Broker_json :: "Broker \<Rightarrow> jval" where
  "Broker_json b =
     JObject ([(''protocol'', JString (br_Protocol b))] @
       omit (br_Transport b = []) ''transport'' (JString (br_Transport b)) @
       omit (br_Endpoint b = []) ''endpoint'' (JString (br_Endpoint b)) @
       omit (br_RuntimeArtifacts b = []) ''runtime_artifacts'' (JArray (map RuntimeArtifact_json (br_RuntimeArtifacts b))) @
       omit (br_ConnectionVerification b = []) ''connection_verification'' (JString (br_ConnectionVerification b)))"

definition Manifest_json :: "Manifest \<Rightarrow> jval" where
  "Manifest_json m =
     JObject ([(''protocol'', JString (ma_Protocol m)),
       (''publisher'', JObject [(''id'', JString (pu_ID (ma_Publisher m))), (''key_id'', JString (pu_KeyID (ma_Publisher m)))]),
       (''compatibility'', JObject [(''protocol'', JString (co_Protocol (ma_Compatibility m))),
          (''major'', int_json (co_Major (ma_Compatibility m)))]),
       (''release'', JString (ma_Release m)), (''provider'', JString (ma_Provider m)),
       (''configuration_schema'', any_json (ma_ConfigurationSchema m))] @
       (case ma_Credential m of None \<Rightarrow> [] | Some c \<Rightarrow> [(''credential'', Credential_json c)]) @
       (case ma_Renderer m of None \<Rightarrow> [] | Some r \<Rightarrow> [(''renderer'', Renderer_json r)]) @
       [(''broker'', Broker_json (ma_Broker m))] @
       omit (ma_Actions m = []) ''actions'' (JArray (map ActionCapability_json (ma_Actions m))))"

definition Canonical :: "Manifest \<Rightarrow> string result" where
  "Canonical manifest = and_then (Manifest_Validate manifest) (\<lambda>_. Inr (json_text (Manifest_json manifest)))"

definition Digest :: "Manifest \<Rightarrow> string result" where
  "Digest manifest = and_then (Canonical manifest) (\<lambda>canonical. Inr (sha_digest canonical))"

section \<open>Signing\<close>

text \<open>\<open>ed25519_Sign key message\<close> and \<open>ed25519_Verify key message signature\<close> are parameters.\<close>

type_synonym signer = "string \<Rightarrow> string \<Rightarrow> string"
type_synonym verifier = "string \<Rightarrow> string \<Rightarrow> string \<Rightarrow> bool"

definition Sign :: "signer \<Rightarrow> Manifest \<Rightarrow> string \<Rightarrow> SignedManifest result" where
  "Sign ed25519_Sign manifest privateKey =
     (if length privateKey \<noteq> 64 then fail ''ed25519 private key is invalid''
      else and_then (Canonical manifest) (\<lambda>canonical.
        Inr \<lparr> sm_Manifest = manifest, sm_Digest = sha_digest canonical,
              sm_Signature = RawURL_EncodeToString (ed25519_Sign privateKey canonical) \<rparr>))"

definition Verify :: "verifier \<Rightarrow> SignedManifest \<Rightarrow> TrustedPublisher \<Rightarrow> unit result" where
  "Verify ed25519_Verify sm trusted =
     (if pu_ID (ma_Publisher (sm_Manifest sm)) \<noteq> tp_ID trusted \<or>
         pu_KeyID (ma_Publisher (sm_Manifest sm)) \<noteq> tp_KeyID trusted \<or> length (tp_PublicKey trusted) \<noteq> 32
      then fail ''provider publisher is not trusted''
      else and_then (Canonical (sm_Manifest sm)) (\<lambda>canonical.
        if sm_Digest sm \<noteq> sha_digest canonical then fail ''provider manifest digest does not match''
        else case RawURL_DecodeString (sm_Signature sm) of
               None \<Rightarrow> fail ''provider manifest signature is invalid''
             | Some signature \<Rightarrow>
                 if \<not> ed25519_Verify (tp_PublicKey trusted) canonical signature
                 then fail ''provider manifest signature is invalid'' else ok))"

section \<open>What validation decides\<close>

definition renderer_artifact_ok :: "RendererArtifact \<Rightarrow> bool" where
  "renderer_artifact_ok a \<longleftrightarrow> executablePattern (ra_OS a) \<and> executablePattern (ra_Arch a) \<and> digestPattern (ra_Digest a)"

definition runtime_artifact_ok :: "RuntimeArtifact \<Rightarrow> bool" where
  "runtime_artifact_ok a \<longleftrightarrow> identityPattern (rt_Kind a) \<and> runtimeReferenceValid (rt_Reference a) \<and> digestPattern (rt_Digest a)"

interpretation renderer_artifacts_loop: seen_loop check_renderer_artifacts renderer_artifact_ok
    "\<lambda>a. ra_OS a @ [CHR 0x00] @ ra_Arch a"
  by unfold_locales (auto simp: renderer_artifact_ok_def Let_def)

interpretation environment_loop: seen_loop check_environment environmentPattern "\<lambda>n. n"
  by unfold_locales auto

interpretation runtime_artifacts_loop: seen_loop check_runtime_artifacts runtime_artifact_ok
    "\<lambda>a. rt_Kind a @ [CHR 0x00] @ rt_Reference a"
  by unfold_locales (auto simp: runtime_artifact_ok_def Let_def)

interpretation actions_loop: seen_loop check_actions "\<lambda>a. ActionCapability_Validate a = ok" ac_Ref
  by unfold_locales (auto simp: and_then_Inr)

lemma check_identities_ok: "check_identities xs = ok \<longleftrightarrow> (\<forall>(label, v) \<in> set xs. identityPattern v)"
  by (induction xs rule: check_identities.induct) auto

definition credential_ok :: "Credential \<Rightarrow> Renderer \<Rightarrow> bool" where
  "credential_ok c r \<longleftrightarrow> cr_LifetimeProtocol c \<in> {[], CredentialLifetimeProtocol} \<and>
     set (cr_AuthorizationFeatures c) \<subseteq> known_features \<and> distinct (cr_AuthorizationFeatures c) \<and>
     identityPattern (cr_Kind c) \<and> identityPattern (cr_RevocationSemantics c) \<and>
     cr_MaximumTTLSeconds c \<in> {1..86400} \<and>
     re_Protocol r = RendererProtocol \<and> executablePattern (re_Executable r) \<and> re_Artifacts r \<noteq> [] \<and>
     (\<forall>a \<in> set (re_Artifacts r). renderer_artifact_ok a) \<and>
     distinct (map (\<lambda>a. (ra_OS a, ra_Arch a)) (re_Artifacts r)) \<and>
     (\<forall>n \<in> set (re_SensitiveEnvironment r). environmentPattern n) \<and> distinct (re_SensitiveEnvironment r)"

lemma lifetime_protocol_ok [result_iff]:
  "ValidateCredentialLifetimeProtocol p = ok \<longleftrightarrow> p \<in> {[], CredentialLifetimeProtocol}"
  by (auto simp: ValidateCredentialLifetimeProtocol_def)

lemma platform_distinct:
  assumes "\<forall>a \<in> set xs. renderer_artifact_ok a"
  shows "distinct (map (\<lambda>a. ra_OS a @ CHR 0x00 # ra_Arch a) xs) \<longleftrightarrow> distinct (map (\<lambda>a. (ra_OS a, ra_Arch a)) xs)"
proof -
  have "CHR 0x00 \<notin> set (ra_OS a)" if "a \<in> set xs" for a
    using assms that executablePattern_solid solid_no_nul by (auto simp: renderer_artifact_ok_def)
  then have "inj_on (\<lambda>a. ra_OS a @ CHR 0x00 # ra_Arch a) (set xs) \<longleftrightarrow> inj_on (\<lambda>a. (ra_OS a, ra_Arch a)) (set xs)"
    unfolding inj_on_def using nul_join_inject by (metis append_Cons append_Nil prod.inject)
  then show ?thesis by (auto simp: distinct_map)
qed

lemma check_credential_ok [result_iff]: "check_credential c r = ok \<longleftrightarrow> credential_ok c r"
  unfolding check_credential_def and_then_Inr if_fail_Inr credential_ok_def
  by (auto simp: check_identities_ok lifetime_protocol_ok ValidateAuthorizationFeatures_ok
      renderer_artifacts_loop.loop_empty_iff environment_loop.loop_empty_iff platform_distinct)

definition manifest_ok :: "Manifest \<Rightarrow> bool" where
  "manifest_ok m \<longleftrightarrow> ma_Protocol m = ManifestProtocol \<and> co_Protocol (ma_Compatibility m) = ManifestProtocol \<and>
     co_Major (ma_Compatibility m) = 2 \<and>
     identityPattern (pu_ID (ma_Publisher m)) \<and> identityPattern (pu_KeyID (ma_Publisher m)) \<and>
     identityPattern (ma_Release m) \<and> identityPattern (ma_Provider m) \<and>
     (case (ma_Credential m, ma_Renderer m) of
        (Some c, Some r) \<Rightarrow> credential_ok c r \<and> schema_ok (cr_PayloadSchema c)
      | (None, None) \<Rightarrow> ma_Actions m \<noteq> []
      | _ \<Rightarrow> False) \<and>
     check_broker (ma_Broker m) = ok \<and> schema_ok (ma_ConfigurationSchema m) \<and>
     (\<forall>a \<in> set (ma_Actions m). ActionCapability_Validate a = ok) \<and> distinct (map ac_Ref (ma_Actions m))"

lemma Manifest_Validate_ok [result_iff]: "Manifest_Validate m = ok \<longleftrightarrow> manifest_ok m"
  unfolding Manifest_Validate_def if_fail_Inr and_then_Inr manifest_ok_def
  by (cases "ma_Credential m"; cases "ma_Renderer m")
    (auto simp: check_identities_ok actions_loop.loop_empty_iff check_credential_ok validateSchema_ok)

lemma broker_ok [result_iff]:
  "check_broker b = ok \<longleftrightarrow> br_Protocol b = BrokerProtocol \<and>
     (TransportMode b = BrokerTransportInboundHTTPS \<and> br_ConnectionVerification b = [] \<and> br_RuntimeArtifacts b = [] \<and>
        (\<exists>u. url_Parse (br_Endpoint b) = Some u \<and> url_Scheme u = ''https'' \<and> url_Host u \<noteq> [] \<and> url_User u = None \<and>
           url_RawQuery u = [] \<and> url_Fragment u = []) \<or>
      TransportMode b = BrokerTransportOutboundPull \<and> br_ConnectionVerification b \<in> {[], ConnectionVerificationProtocol} \<and>
        blank (br_Endpoint b) \<and> br_RuntimeArtifacts b \<noteq> [] \<and> (\<forall>a \<in> set (br_RuntimeArtifacts b). runtime_artifact_ok a) \<and>
        distinct (map (\<lambda>a. rt_Kind a @ [CHR 0x00] @ rt_Reference a) (br_RuntimeArtifacts b)))"
proof -
  have t: "BrokerTransportInboundHTTPS \<noteq> BrokerTransportOutboundPull"
    by (simp add: BrokerTransportInboundHTTPS_def BrokerTransportOutboundPull_def)
  have i: "check_inbound b = ok \<longleftrightarrow> br_RuntimeArtifacts b = [] \<and>
     (\<exists>u. url_Parse (br_Endpoint b) = Some u \<and> url_Scheme u = ''https'' \<and> url_Host u \<noteq> [] \<and> url_User u = None \<and>
        url_RawQuery u = [] \<and> url_Fragment u = [])"
    by (auto simp: check_inbound_def split: option.splits)
  show ?thesis
    unfolding check_broker_def check_outbound_def if_fail_Inr if_ok_Inr
    using t by (auto simp: i runtime_artifacts_loop.loop_empty_iff)
qed

text \<open>An endpoint with an empty query or fragment is accepted.\<close>

lemma marked_endpoint_accepted:
  assumes "host \<noteq> []" "list_all plain_char host" "mark \<in> {''?'', ''#''}"
  shows "check_inbound \<lparr> br_Protocol = BrokerProtocol, br_Transport = BrokerTransportInboundHTTPS,
      br_Endpoint = ''https://'' @ host @ ''/'' @ mark, br_RuntimeArtifacts = [], br_ConnectionVerification = [] \<rparr> = ok"
  using assms(1,3) url_Parse_marked [OF assms(2), of "[]"] by (auto simp: check_inbound_def)

end
