(* ===== verification/Actions.thy ===== *)
theory Actions
  imports Capability
begin

text \<open>
  Typed actions (\<open>protocol.go\<close>): the authority for a single action, the requests that carry
  it, and the receipts and verifications an adapter returns.
\<close>

section \<open>Subjects and authorities\<close>

record Subject =
  su_TenantID :: string
  su_ActorID :: string
  su_DeviceID :: string
  su_SessionID :: string
  su_ProfileID :: string
  su_AccountRef :: string
  su_Environment :: string

record ActionAuthority =
  aa_ID :: string
  aa_ActionDigest :: string
  aa_CapabilityDigest :: string
  aa_ApprovedBy :: string
  aa_ApprovedAt :: gotime
  aa_ExpiresAt :: gotime

definition ActionAuthority_Validate :: "ActionAuthority \<Rightarrow> gotime \<Rightarrow> string \<Rightarrow> string \<Rightarrow> int \<Rightarrow> unit result" where
  "ActionAuthority_Validate a now actionDigest capabilityDigest maximumTTL =
     (if blank (aa_ID a) \<or> blank (aa_ApprovedBy a) \<or>
         aa_ActionDigest a \<noteq> actionDigest \<or> aa_CapabilityDigest a \<noteq> capabilityDigest \<or>
         \<not> authorizationDigestPattern (aa_ActionDigest a) \<or> \<not> authorizationDigestPattern (aa_CapabilityDigest a) \<or>
         IsZero (aa_ApprovedAt a) \<or> IsZero (aa_ExpiresAt a) \<or> Before (aa_ExpiresAt a) (aa_ApprovedAt a) \<or>
         \<not> After (aa_ExpiresAt a) now \<or> After (aa_ExpiresAt a) (AddT (AddT now maximumTTL) Second)
      then fail ''action authority is invalid or expired'' else ok)"

section \<open>Execution\<close>

record ExecuteActionRequest =
  ex_RequestID :: string
  ex_ConnectionID :: string
  ex_Provider :: string
  ex_Release :: string
  ex_AccountRef :: string
  ex_Configuration :: string
  ex_Subject :: Subject
  ex_CapabilityRef :: string
  ex_CapabilityDigest :: string
  ex_ActionID :: string
  ex_ActionDigest :: string
  ex_Operation :: string
  ex_Resource :: string
  ex_Environment :: string
  ex_Parameters :: string
  ex_Authority :: ActionAuthority
  ex_Now :: gotime

definition ExecuteActionRequest_Validate :: "ExecuteActionRequest \<Rightarrow> ActionCapability \<Rightarrow> unit result" where
  "ExecuteActionRequest_Validate r capability =
     (if list_ex blank [ex_RequestID r, ex_ConnectionID r, ex_Provider r, ex_Release r, ex_AccountRef r,
           su_TenantID (ex_Subject r), su_ActorID (ex_Subject r), su_DeviceID (ex_Subject r), su_SessionID (ex_Subject r),
           su_ProfileID (ex_Subject r), ex_CapabilityRef r, ex_ActionID r, ex_Operation r, ex_Resource r, ex_Environment r]
      then fail ''typed action request identity is incomplete''
      else let capabilityDigest = ActionCapabilityDigest capability;
               actionDigest = ActionDigest (ex_CapabilityDigest r) (ex_Operation r) (ex_Resource r) (ex_Environment r) (ex_Parameters r)
           in if isl capabilityDigest \<or> isl actionDigest \<or> ex_CapabilityRef r \<noteq> ac_Ref capability \<or>
                 ex_Operation r \<noteq> ac_Operation capability \<or> Inr (ex_CapabilityDigest r) \<noteq> capabilityDigest \<or>
                 Inr (ex_ActionDigest r) \<noteq> actionDigest
              then fail ''typed action capability binding is invalid''
              else if length (ex_Configuration r) = 0 \<or> \<not> json_Valid (ex_Configuration r) \<or>
                 length (ex_Parameters r) = 0 \<or> \<not> json_Valid (ex_Parameters r) \<or> IsZero (ex_Now r)
              then fail ''typed action request payload is invalid''
              else if su_AccountRef (ex_Subject r) \<noteq> ex_AccountRef r \<or> su_Environment (ex_Subject r) \<noteq> ex_Environment r
              then fail ''typed action subject is outside the requested scope''
              else ActionAuthority_Validate (ex_Authority r) (ex_Now r) (ex_ActionDigest r) (ex_CapabilityDigest r)
                     (seconds (ac_MaximumTTLSeconds capability)))"

record ActionExecution =
  ae_ProviderReceipt :: string
  ae_ExecutionIdentity :: string
  ae_ExecutedAt :: gotime
  ae_Output :: string
  ae_OutputDigest :: string

definition ActionExecution_Validate :: "ActionExecution \<Rightarrow> unit result" where
  "ActionExecution_Validate e =
     (if blank (ae_ProviderReceipt e) \<or> blank (ae_ExecutionIdentity e) \<or> IsZero (ae_ExecutedAt e)
      then fail ''action execution identity is incomplete''
      else if JSONDigest (ae_Output e) \<noteq> Inr (ae_OutputDigest e)
      then fail ''action execution output digest does not match'' else ok)"

section \<open>Verification\<close>

record VerifyActionRequest =
  va_RequestID :: string
  va_ConnectionID :: string
  va_Provider :: string
  va_Release :: string
  va_AccountRef :: string
  va_Configuration :: string
  va_Subject :: Subject
  va_CapabilityRef :: string
  va_CapabilityDigest :: string
  va_ActionID :: string
  va_ActionDigest :: string
  va_Operation :: string
  va_Resource :: string
  va_Environment :: string
  va_Parameters :: string
  va_Execution :: ActionExecution
  va_Now :: gotime

definition VerifyActionRequest_Validate :: "VerifyActionRequest \<Rightarrow> ActionCapability \<Rightarrow> unit result" where
  "VerifyActionRequest_Validate r capability =
     (if list_ex blank [va_RequestID r, va_ConnectionID r, va_Provider r, va_Release r, va_AccountRef r,
           su_TenantID (va_Subject r), su_ActorID (va_Subject r), su_DeviceID (va_Subject r), su_SessionID (va_Subject r),
           su_ProfileID (va_Subject r), va_CapabilityRef r, va_ActionID r, va_Operation r, va_Resource r, va_Environment r]
      then fail ''typed action verification identity is incomplete''
      else let capabilityDigest = ActionCapabilityDigest capability;
               actionDigest = ActionDigest (va_CapabilityDigest r) (va_Operation r) (va_Resource r) (va_Environment r) (va_Parameters r)
           in if isl capabilityDigest \<or> isl actionDigest \<or> va_CapabilityRef r \<noteq> ac_Ref capability \<or>
                 va_Operation r \<noteq> ac_Operation capability \<or> Inr (va_CapabilityDigest r) \<noteq> capabilityDigest \<or>
                 Inr (va_ActionDigest r) \<noteq> actionDigest
              then fail ''typed action verification binding is invalid''
              else if length (va_Configuration r) = 0 \<or> \<not> json_Valid (va_Configuration r) \<or>
                 length (va_Parameters r) = 0 \<or> \<not> json_Valid (va_Parameters r) \<or> IsZero (va_Now r) \<or>
                 su_AccountRef (va_Subject r) \<noteq> va_AccountRef r \<or> su_Environment (va_Subject r) \<noteq> va_Environment r \<or>
                 ActionExecution_Validate (va_Execution r) \<noteq> ok
              then fail ''typed action verification payload is invalid''
              else ok)"

record ActionVerification =
  av_State :: string
  av_VerifiedAt :: gotime
  av_VerifierRelease :: string
  av_Evidence :: string
  av_EvidenceDigest :: string

definition ActionVerification_Validate :: "ActionVerification \<Rightarrow> unit result" where
  "ActionVerification_Validate v =
     (if av_State v \<noteq> ''verified'' \<and> av_State v \<noteq> ''failed'' then fail ''action verification state is invalid''
      else if IsZero (av_VerifiedAt v) \<or> blank (av_VerifierRelease v)
      then fail ''action verification identity is incomplete''
      else if JSONDigest (av_Evidence v) \<noteq> Inr (av_EvidenceDigest v)
      then fail ''action verification evidence digest does not match'' else ok)"

section \<open>What validation decides\<close>

lemma ActionAuthority_Validate_ok [result_iff]:
  "ActionAuthority_Validate a now ad cd ttl = ok \<longleftrightarrow>
     \<not> blank (aa_ID a) \<and> \<not> blank (aa_ApprovedBy a) \<and> aa_ActionDigest a = ad \<and> aa_CapabilityDigest a = cd \<and>
     digestPattern ad \<and> digestPattern cd \<and> \<not> IsZero (aa_ApprovedAt a) \<and> \<not> IsZero (aa_ExpiresAt a) \<and>
     inst (aa_ApprovedAt a) \<le> inst (aa_ExpiresAt a) \<and>
     inst now < inst (aa_ExpiresAt a) \<and> inst (aa_ExpiresAt a) \<le> inst now + ttl + Second"
  by (auto simp: ActionAuthority_Validate_def authorizationDigestPattern_def time_defs)

text \<open>What a request has to bind, for an action on a capability.\<close>

definition binds_action :: "ActionCapability \<Rightarrow> string \<Rightarrow> string \<Rightarrow> string \<Rightarrow> string \<Rightarrow> string \<Rightarrow> string \<Rightarrow> string \<Rightarrow> bool" where
  "binds_action capability ref cd ad op res env ps \<longleftrightarrow> ref = ac_Ref capability \<and> op = ac_Operation capability \<and>
     ActionCapabilityDigest capability = Inr cd \<and> ActionDigest cd op res env ps = Inr ad"

lemma binding_iff:
  "\<not> (isl c \<or> isl a \<or> ref \<noteq> ac_Ref k \<or> op \<noteq> ac_Operation k \<or> Inr cd \<noteq> c \<or> Inr ad \<noteq> a) \<longleftrightarrow>
     ref = ac_Ref k \<and> op = ac_Operation k \<and> c = Inr cd \<and> a = Inr ad"
  by (cases c; cases a) auto

lemma ExecuteActionRequest_Validate_ok [result_iff]:
  "ExecuteActionRequest_Validate r c = ok \<longleftrightarrow>
     (\<forall>i \<in> {ex_RequestID r, ex_ConnectionID r, ex_Provider r, ex_Release r, ex_AccountRef r,
        su_TenantID (ex_Subject r), su_ActorID (ex_Subject r), su_DeviceID (ex_Subject r), su_SessionID (ex_Subject r),
        su_ProfileID (ex_Subject r), ex_CapabilityRef r, ex_ActionID r, ex_Operation r, ex_Resource r, ex_Environment r}.
        \<not> blank i) \<and>
     binds_action c (ex_CapabilityRef r) (ex_CapabilityDigest r) (ex_ActionDigest r) (ex_Operation r)
       (ex_Resource r) (ex_Environment r) (ex_Parameters r) \<and>
     ex_Configuration r \<noteq> [] \<and> json_Valid (ex_Configuration r) \<and> ex_Parameters r \<noteq> [] \<and> json_Valid (ex_Parameters r) \<and>
     \<not> IsZero (ex_Now r) \<and> su_AccountRef (ex_Subject r) = ex_AccountRef r \<and> su_Environment (ex_Subject r) = ex_Environment r \<and>
     ActionAuthority_Validate (ex_Authority r) (ex_Now r) (ex_ActionDigest r) (ex_CapabilityDigest r)
       (seconds (ac_MaximumTTLSeconds c)) = ok"
  unfolding ExecuteActionRequest_Validate_def Let_def if_fail_Inr binding_iff binds_action_def by auto

lemma VerifyActionRequest_Validate_ok [result_iff]:
  "VerifyActionRequest_Validate r c = ok \<longleftrightarrow>
     (\<forall>i \<in> {va_RequestID r, va_ConnectionID r, va_Provider r, va_Release r, va_AccountRef r,
        su_TenantID (va_Subject r), su_ActorID (va_Subject r), su_DeviceID (va_Subject r), su_SessionID (va_Subject r),
        su_ProfileID (va_Subject r), va_CapabilityRef r, va_ActionID r, va_Operation r, va_Resource r, va_Environment r}.
        \<not> blank i) \<and>
     binds_action c (va_CapabilityRef r) (va_CapabilityDigest r) (va_ActionDigest r) (va_Operation r)
       (va_Resource r) (va_Environment r) (va_Parameters r) \<and>
     va_Configuration r \<noteq> [] \<and> json_Valid (va_Configuration r) \<and> va_Parameters r \<noteq> [] \<and> json_Valid (va_Parameters r) \<and>
     \<not> IsZero (va_Now r) \<and> su_AccountRef (va_Subject r) = va_AccountRef r \<and> su_Environment (va_Subject r) = va_Environment r \<and>
     ActionExecution_Validate (va_Execution r) = ok"
  unfolding VerifyActionRequest_Validate_def Let_def if_fail_Inr binding_iff binds_action_def by auto

lemma ActionExecution_Validate_ok [result_iff]:
  "ActionExecution_Validate e = ok \<longleftrightarrow> \<not> blank (ae_ProviderReceipt e) \<and> \<not> blank (ae_ExecutionIdentity e) \<and>
     \<not> IsZero (ae_ExecutedAt e) \<and> JSONDigest (ae_Output e) = Inr (ae_OutputDigest e)"
  by (auto simp: ActionExecution_Validate_def)

lemma ActionVerification_Validate_ok [result_iff]:
  "ActionVerification_Validate v = ok \<longleftrightarrow> av_State v \<in> {''verified'', ''failed''} \<and> \<not> IsZero (av_VerifiedAt v) \<and>
     \<not> blank (av_VerifierRelease v) \<and> JSONDigest (av_Evidence v) = Inr (av_EvidenceDigest v)"
  by (auto simp: ActionVerification_Validate_def)

lemma binds_action_capability:
  assumes "binds_action c ref cd ad op res env ps" "binds_action c' ref' cd ad' op' res' env' ps'"
    and "wf_schemas c" "wf_schemas c'"
  shows "same_capability c c' \<or> (\<exists>e e'. capability_encoding c e \<and> capability_encoding c' e' \<and> sha_collision e e')"
  using assms capability_binding.digest_binds unfolding binds_action_def by blast

end
