(* ===== verification/Lifetimes.thy ===== *)
theory Lifetimes
  imports Manifests Actions
begin

text \<open>
  Credential lifetimes (\<open>credential_lifetime.go\<close>) and the issue request they bound
  (\<open>protocol.go\<close>): a task deadline is checked before issuing and against the expiry of the
  issued material.
\<close>

record CredentialLifetime =
  cl_Protocol :: string
  cl_TaskExpiresAt :: gotime

record IssueRequest =
  is_RequestID :: string
  is_ConnectionID :: string
  is_Provider :: string
  is_Release :: string
  is_AccountRef :: string
  is_Configuration :: string
  is_Subject :: Subject
  is_Authorization :: Authorization
  is_AuthorizationDigest :: string
  is_Now :: gotime
  is_Lifetime :: "CredentialLifetime option"

record Material =
  mt_Kind :: string
  mt_Payload :: string
  mt_ExpiresAt :: gotime
  mt_TargetIdentity :: string
  mt_RevocationSemantics :: string
  mt_AuthorizationDigest :: string

definition ValidateIssueLifetime :: "IssueRequest \<Rightarrow> Credential \<Rightarrow> gotime \<Rightarrow> unit result" where
  "ValidateIssueLifetime request credential now =
     and_then (ValidateCredentialLifetimeProtocol (cr_LifetimeProtocol credential)) (\<lambda>_.
       if cr_LifetimeProtocol credential = []
       then (if is_Lifetime request \<noteq> None then fail ''issuer does not support a task deadline'' else ok)
       else if (case is_Lifetime request of
                  None \<Rightarrow> True
                | Some lifetime \<Rightarrow> cl_Protocol lifetime \<noteq> CredentialLifetimeProtocol \<or>
                    IsZero now \<or> IsZero (is_Now request) \<or> After (is_Now request) (AddT now (30 * Second)) \<or>
                    \<not> After (AddT (is_Now request) Minute) now \<or> \<not> After (cl_TaskExpiresAt lifetime) now \<or>
                    \<not> After (cl_TaskExpiresAt lifetime) (is_Now request))
       then fail ''credential task deadline is missing, invalid or expired''
       else ok)"

definition ValidateIssuedLifetime :: "IssueRequest \<Rightarrow> Credential \<Rightarrow> Material \<Rightarrow> gotime \<Rightarrow> unit result" where
  "ValidateIssuedLifetime request credential material now =
     and_then (ValidateIssueLifetime request credential now) (\<lambda>_.
       if IsZero (is_Now request) \<or> IsZero now \<or> cr_MaximumTTLSeconds credential \<le> 0 \<or> cr_MaximumTTLSeconds credential > 86400 \<or>
          \<not> After (mt_ExpiresAt material) now \<or>
          After (mt_ExpiresAt material) (AddT (is_Now request) (seconds (cr_MaximumTTLSeconds credential)))
       then fail ''issued credential lifetime exceeds its release or is no longer live''
       else if (case is_Lifetime request of None \<Rightarrow> False
                | Some lifetime \<Rightarrow> After (mt_ExpiresAt material) (cl_TaskExpiresAt lifetime))
       then fail ''issued native credential outlives its task''
       else ok)"

section \<open>What validation decides\<close>

lemma IssueLifetime_ok [result_iff]:
  "ValidateIssueLifetime r c now = ok \<longleftrightarrow>
     (cr_LifetimeProtocol c = [] \<and> is_Lifetime r = None \<or>
      cr_LifetimeProtocol c = CredentialLifetimeProtocol \<and>
        (\<exists>l. is_Lifetime r = Some l \<and> cl_Protocol l = CredentialLifetimeProtocol \<and>
           \<not> IsZero now \<and> \<not> IsZero (is_Now r) \<and> inst (is_Now r) \<le> inst now + 30 * Second \<and>
           inst now < inst (is_Now r) + Minute \<and> inst now < inst (cl_TaskExpiresAt l) \<and>
           inst (is_Now r) < inst (cl_TaskExpiresAt l)))"
proof -
  have "CredentialLifetimeProtocol \<noteq> []" by (simp add: CredentialLifetimeProtocol_def)
  then show ?thesis
    by (cases "is_Lifetime r")
      (auto simp: ValidateIssueLifetime_def and_then_Inr lifetime_protocol_ok time_defs not_less)
qed

lemma IssuedLifetime_ok [result_iff]:
  "ValidateIssuedLifetime r c m now = ok \<longleftrightarrow> ValidateIssueLifetime r c now = ok \<and>
     \<not> IsZero (is_Now r) \<and> \<not> IsZero now \<and> cr_MaximumTTLSeconds c \<in> {1..86400} \<and>
     inst now < inst (mt_ExpiresAt m) \<and>
     inst (mt_ExpiresAt m) \<le> inst (is_Now r) + cr_MaximumTTLSeconds c * Second \<and>
     (\<forall>l. is_Lifetime r = Some l \<longrightarrow> inst (mt_ExpiresAt m) \<le> inst (cl_TaskExpiresAt l))"
  by (cases "is_Lifetime r")
    (auto simp: ValidateIssuedLifetime_def and_then_Inr time_defs not_less seconds_exact)

text \<open>A deadline request is accepted within a minute, thirty seconds ahead of the clock at most.\<close>

definition deadline_fresh :: "Credential \<Rightarrow> CredentialLifetime \<Rightarrow> IssueRequest \<Rightarrow> gotime \<Rightarrow> gotime \<Rightarrow> bool" where
  "deadline_fresh c l r now sent \<longleftrightarrow>
     cr_LifetimeProtocol c \<noteq> [] \<and> ValidateIssueLifetime (r\<lparr>is_Now := sent, is_Lifetime := Some l\<rparr>) c now = ok"

interpretation issue_window: freshness "deadline_fresh c l r" "30 * Second" Minute for c l r
  by unfold_locales (auto simp: deadline_fresh_def IssueLifetime_ok)

end
