(* ===== verification/Discovery.thy ===== *)
theory Discovery
  imports Capability Ceilings
begin

text \<open>
  Resource discovery (\<open>discovery.go\<close>): requests, their digest over exact numbers, and the
  pages that answer them. An accepted page for an exact revalidation splits the requested
  identities into found and missing ones.
\<close>

section \<open>Texts and identities\<close>

definition discoveryText :: "string \<Rightarrow> nat \<Rightarrow> bool" where
  "discoveryText value maximum =
     (value \<noteq> [] \<and> length value \<le> maximum \<and> ValidString value \<and> TrimSpace value = value \<and> \<not> has_control value)"

fun check_discovery_ids :: "string set \<Rightarrow> string list \<Rightarrow> unit result" where
  "check_discovery_ids seen [] = ok"
| "check_discovery_ids seen (i # ids) =
     (if \<not> discoveryText i 2048 \<or> i \<in> seen then fail ''discovery resource IDs are invalid or duplicated''
      else check_discovery_ids (insert i seen) ids)"

definition validDiscoveryIDs :: "string list \<Rightarrow> unit result" where
  "validDiscoveryIDs ids = check_discovery_ids {} ids"

interpretation discovery_ids_loop: seen_loop check_discovery_ids "\<lambda>i. discoveryText i 2048" "\<lambda>i. i"
  by unfold_locales auto

lemma validDiscoveryIDs_ok [result_iff]:
  "validDiscoveryIDs ids = ok \<longleftrightarrow> (\<forall>i \<in> set ids. discoveryText i 2048) \<and> distinct ids"
  by (simp add: validDiscoveryIDs_def discovery_ids_loop.loop_empty_iff)

section \<open>Requests\<close>

record DiscoveryRequest =
  dr_Protocol :: string
  dr_RequestID :: string
  dr_TenantID :: string
  dr_ConnectionID :: string
  dr_Provider :: string
  dr_Release :: string
  dr_ManifestDigest :: string
  dr_AccountRef :: string
  dr_CapabilityRef :: string
  dr_CapabilityDigest :: string
  dr_Configuration :: string
  dr_Query :: string
  dr_Cursor :: string
  dr_Limit :: int
  dr_ResourceIDs :: "string list option"
  dr_Now :: gotime

definition check_exact :: "DiscoveryRequest \<Rightarrow> unit result" where
  "check_exact r =
     (case dr_ResourceIDs r of
        None \<Rightarrow> ok
      | Some ids \<Rightarrow>
          if dr_Query r \<noteq> [] \<or> dr_Cursor r \<noteq> [] \<or> length ids = 0 \<or> int (length ids) > dr_Limit r
          then fail ''exact resource revalidation cannot search or paginate''
          else validDiscoveryIDs ids)"

definition DiscoveryRequest_Validate :: "DiscoveryRequest \<Rightarrow> ActionCapability \<Rightarrow> unit result" where
  "DiscoveryRequest_Validate r capability =
     and_then (ActionCapability_Validate capability) (\<lambda>_.
       case ac_Discovery capability of
         None \<Rightarrow> fail ''capability does not support resource discovery''
       | Some discovery \<Rightarrow>
           if ActionCapabilityDigest capability \<noteq> Inr (dr_CapabilityDigest r) \<or> dr_Protocol r \<noteq> ResourceDiscoveryProtocol \<or>
              dr_CapabilityRef r \<noteq> ac_Ref capability \<or> \<not> digestPattern (dr_ManifestDigest r) \<or> IsZero (dr_Now r)
           then fail ''discovery request identity is invalid''
           else if list_ex (\<lambda>i. \<not> discoveryText i 2048)
              [dr_RequestID r, dr_TenantID r, dr_ConnectionID r, dr_Provider r, dr_Release r, dr_AccountRef r]
           then fail ''discovery coordinates are invalid''
           else if dr_Limit r < 1 \<or> dr_Limit r > rd_MaximumPageSize discovery \<or>
              length (dr_Configuration r) > 64 * 1024 \<or> \<not> json_Valid (dr_Configuration r)
           then fail ''discovery request exceeds its bounds''
           else if (case decodeParameterJSON (dr_Configuration r) of Inr (JObject _) \<Rightarrow> False | _ \<Rightarrow> True)
           then fail ''discovery configuration must be an unambiguous object''
           else if dr_Query r \<noteq> [] \<and> \<not> discoveryText (dr_Query r) 256 \<or> dr_Cursor r \<noteq> [] \<and> \<not> discoveryText (dr_Cursor r) 4096
           then fail ''discovery query or cursor is invalid''
           else check_exact r)"

text \<open>The marshalled request; \<open>None\<close> when the time has no JSON text.\<close>

definition DiscoveryRequest_text :: "DiscoveryRequest \<Rightarrow> string result" where
  "DiscoveryRequest_text r =
     and_then (raw_text (dr_Configuration r)) (\<lambda>configuration.
       case time_text (dr_Now r) of
         None \<Rightarrow> fail ''json: error calling MarshalJSON for type time.Time''
       | Some now \<Rightarrow>
           Inr (object_text ([(''protocol'', quote (dr_Protocol r)), (''request_id'', quote (dr_RequestID r)),
             (''tenant_id'', quote (dr_TenantID r)), (''connection_id'', quote (dr_ConnectionID r)),
             (''provider'', quote (dr_Provider r)), (''release'', quote (dr_Release r)),
             (''manifest_digest'', quote (dr_ManifestDigest r)), (''account_ref'', quote (dr_AccountRef r)),
             (''capability_ref'', quote (dr_CapabilityRef r)), (''capability_digest'', quote (dr_CapabilityDigest r)),
             (''configuration'', configuration)] @
             omit (dr_Query r = []) ''query'' (quote (dr_Query r)) @
             omit (dr_Cursor r = []) ''cursor'' (quote (dr_Cursor r)) @
             [(''limit'', Itoa (dr_Limit r))] @
             omit (items (dr_ResourceIDs r) = []) ''resource_ids'' (array_text (map quote (items (dr_ResourceIDs r)))) @
             [(''now'', quote now)])))"

definition DiscoveryRequestDigest :: "DiscoveryRequest \<Rightarrow> ActionCapability \<Rightarrow> string result" where
  "DiscoveryRequestDigest r capability =
     and_then (DiscoveryRequest_Validate r capability) (\<lambda>_.
     and_then (decodeParameterJSON (dr_Configuration r)) (\<lambda>configuration.
     and_then (DiscoveryRequest_text (r\<lparr>dr_Configuration := Marshal_any (canonicalDiscoveryNumbers configuration)\<rparr>))
       (\<lambda>encoded. Inr (sha_digest encoded))))"

section \<open>Pages\<close>

record DiscoveredResource =
  ds_ID :: string
  ds_Label :: string
  ds_Kind :: string

record DiscoveryPage =
  dp_Protocol :: string
  dp_RequestDigest :: string
  dp_ObservedAt :: gotime
  dp_Resources :: "DiscoveredResource list option"
  dp_NextCursor :: string
  dp_MissingResourceIDs :: "string list"

text \<open>The two loops extend \<open>seen\<close>; their result is the set they leave behind.\<close>

fun check_resources :: "string set \<Rightarrow> DiscoveredResource list \<Rightarrow> string set result" where
  "check_resources seen [] = Inr seen"
| "check_resources seen (resource # resources) =
     (if \<not> discoveryText (ds_ID resource) 2048 \<or> \<not> discoveryText (ds_Label resource) 256 \<or>
         \<not> discoveryText (ds_Kind resource) 128 \<or> ds_ID resource \<in> seen
      then fail ''discovery resource identity is invalid or duplicated''
      else check_resources (insert (ds_ID resource) seen) resources)"

fun check_missing :: "string set \<Rightarrow> string list \<Rightarrow> string set result" where
  "check_missing seen [] = Inr seen"
| "check_missing seen (i # ids) =
     (if \<not> discoveryText i 2048 \<or> i \<in> seen
      then fail ''missing resource identity is invalid or contradictory''
      else check_missing (insert i seen) ids)"

definition check_stale :: "gotime \<Rightarrow> gotime \<Rightarrow> gotime \<Rightarrow> int \<Rightarrow> bool" where
  "check_stale now observed sent age =
     (IsZero now \<or> IsZero observed \<or> After sent (AddT now (30 * Second)) \<or> After observed (AddT now (30 * Second)) \<or>
      \<not> After (AddT observed (seconds age)) now \<or> \<not> After (AddT sent (seconds age)) now)"

definition DiscoveryPage_Validate :: "DiscoveryPage \<Rightarrow> DiscoveryRequest \<Rightarrow> ActionCapability \<Rightarrow> gotime \<Rightarrow> unit result" where
  "DiscoveryPage_Validate p r capability now =
     and_then (DiscoveryRequestDigest r capability) (\<lambda>digest.
       if dp_Protocol p \<noteq> ResourceDiscoveryProtocol \<or> dp_RequestDigest p \<noteq> digest \<or> dp_Resources p = None \<or>
          int (length (items (dp_Resources p)) + length (dp_MissingResourceIDs p)) > dr_Limit r
       then fail ''discovery response identity or bounds are invalid''
       else if (case ac_Discovery capability of None \<Rightarrow> True
                | Some discovery \<Rightarrow> check_stale now (dp_ObservedAt p) (dr_Now r) (rd_MaximumAgeSeconds discovery))
       then fail ''discovery evidence is stale or future dated''
       else if dp_NextCursor p \<noteq> [] \<and> (\<not> discoveryText (dp_NextCursor p) 4096 \<or> dp_NextCursor p = dr_Cursor r)
       then fail ''discovery pagination did not advance''
       else and_then (check_resources {} (items (dp_Resources p))) (\<lambda>seen.
         case dr_ResourceIDs r of
           None \<Rightarrow> if length (dp_MissingResourceIDs p) \<noteq> 0
                  then fail ''search response cannot declare missing selected resources'' else ok
         | Some ids \<Rightarrow>
             if dp_NextCursor p \<noteq> [] then fail ''exact revalidation cannot paginate''
             else and_then (check_missing seen (dp_MissingResourceIDs p)) (\<lambda>seen.
               if card seen \<noteq> length ids then fail ''exact revalidation omitted or substituted a resource''
               else if list_ex (\<lambda>i. i \<notin> seen) ids then fail ''exact revalidation omitted or substituted a resource''
               else ok)))"

section \<open>Requests at a time\<close>

text \<open>\<open>ValidateAt\<close> of \<open>discovery_transport.go\<close>\<close>

definition ValidateAt :: "DiscoveryRequest \<Rightarrow> ActionCapability \<Rightarrow> gotime \<Rightarrow> unit result" where
  "ValidateAt r capability now =
     and_then (DiscoveryRequest_Validate r capability) (\<lambda>_.
       if (case ac_Discovery capability of None \<Rightarrow> True
           | Some discovery \<Rightarrow> IsZero now \<or> After (dr_Now r) (AddT now (30 * Second)) \<or>
               \<not> After (AddT (dr_Now r) (seconds (rd_MaximumAgeSeconds discovery))) now)
       then fail ''discovery request is stale or future dated'' else ok)"

section \<open>What validation decides\<close>

lemma DiscoveryRequest_Validate_ok [result_iff]:
  "DiscoveryRequest_Validate r c = ok \<longleftrightarrow>
     ActionCapabilityDigest c = Inr (dr_CapabilityDigest r) \<and>
     (\<exists>d. ac_Discovery c = Some d \<and> dr_Limit r \<in> {1..rd_MaximumPageSize d}) \<and>
     dr_Protocol r = ResourceDiscoveryProtocol \<and> dr_CapabilityRef r = ac_Ref c \<and>
     digestPattern (dr_ManifestDigest r) \<and> \<not> IsZero (dr_Now r) \<and>
     (\<forall>i \<in> {dr_RequestID r, dr_TenantID r, dr_ConnectionID r, dr_Provider r, dr_Release r, dr_AccountRef r}.
        discoveryText i 2048) \<and>
     length (dr_Configuration r) \<le> 64 * 1024 \<and> json_Valid (dr_Configuration r) \<and>
     (\<exists>ms. decodeParameterJSON (dr_Configuration r) = Inr (JObject ms)) \<and>
     (dr_Query r \<noteq> [] \<longrightarrow> discoveryText (dr_Query r) 256) \<and> (dr_Cursor r \<noteq> [] \<longrightarrow> discoveryText (dr_Cursor r) 4096) \<and>
     check_exact r = ok"
proof -
  have obj: "(case x of Inr (JObject _) \<Rightarrow> False | _ \<Rightarrow> True) \<longleftrightarrow> \<not> (\<exists>ms. x = Inr (JObject ms))" for x :: "jval result"
    by (auto split: sum.splits jval.splits)
  show ?thesis
    unfolding DiscoveryRequest_Validate_def and_then_Inr obj
    by (cases "ac_Discovery c") (auto simp: ActionCapabilityDigest_iff)
qed

lemma check_exact_ok [result_iff]:
  "check_exact r = ok \<longleftrightarrow> (\<forall>ids. dr_ResourceIDs r = Some ids \<longrightarrow> dr_Query r = [] \<and> dr_Cursor r = [] \<and> ids \<noteq> [] \<and>
     int (length ids) \<le> dr_Limit r \<and> (\<forall>i \<in> set ids. discoveryText i 2048) \<and> distinct ids)"
  by (auto simp: check_exact_def validDiscoveryIDs_ok split: option.split)

definition resource_ok :: "DiscoveredResource \<Rightarrow> bool" where
  "resource_ok x \<longleftrightarrow> discoveryText (ds_ID x) 2048 \<and> discoveryText (ds_Label x) 256 \<and> discoveryText (ds_Kind x) 128"

lemma check_resources_iff:
  "check_resources S xs = Inr T \<longleftrightarrow> (\<forall>x \<in> set xs. resource_ok x) \<and> distinct (map ds_ID xs) \<and>
     ds_ID ` set xs \<inter> S = {} \<and> T = S \<union> ds_ID ` set xs"
  by (induction xs arbitrary: S) (auto simp: resource_ok_def)

lemma check_missing_iff:
  "check_missing S xs = Inr T \<longleftrightarrow> (\<forall>i \<in> set xs. discoveryText i 2048) \<and> distinct xs \<and>
     set xs \<inter> S = {} \<and> T = S \<union> set xs"
  by (induction xs arbitrary: S) auto

text \<open>
  Both loops are one seen-set loop once the set they return is dropped, so their verdicts
  have the same contract.
\<close>

definition forget :: "'a result \<Rightarrow> unit result" where
  "forget r = and_then r (\<lambda>_. ok)"

interpretation resources_loop: seen_loop "\<lambda>S xs. forget (check_resources S xs)" resource_ok ds_ID
  by unfold_locales (auto simp: forget_def resource_ok_def)

interpretation missing_loop: seen_loop "\<lambda>S xs. forget (check_missing S xs)" "\<lambda>i. discoveryText i 2048" "\<lambda>i. i"
  by unfold_locales (auto simp: forget_def)

text \<open>The identities a page reports as found.\<close>

definition found :: "DiscoveryPage \<Rightarrow> string list" where
  "found p = map ds_ID (items (dp_Resources p))"

lemma DiscoveryPage_Validate_ok:
  "DiscoveryPage_Validate p r c now = ok \<longleftrightarrow>
     DiscoveryRequestDigest r c = Inr (dp_RequestDigest p) \<and> dp_Protocol p = ResourceDiscoveryProtocol \<and>
     dp_Resources p \<noteq> None \<and> int (length (found p) + length (dp_MissingResourceIDs p)) \<le> dr_Limit r \<and>
     (\<exists>d. ac_Discovery c = Some d \<and> \<not> check_stale now (dp_ObservedAt p) (dr_Now r) (rd_MaximumAgeSeconds d)) \<and>
     (dp_NextCursor p \<noteq> [] \<longrightarrow> discoveryText (dp_NextCursor p) 4096 \<and> dp_NextCursor p \<noteq> dr_Cursor r) \<and>
     (\<forall>x \<in> set (items (dp_Resources p)). resource_ok x) \<and> distinct (found p) \<and>
     (case dr_ResourceIDs r of
        None \<Rightarrow> dp_MissingResourceIDs p = []
      | Some ids \<Rightarrow> dp_NextCursor p = [] \<and> (\<forall>i \<in> set (dp_MissingResourceIDs p). discoveryText i 2048) \<and>
          distinct (found p @ dp_MissingResourceIDs p) \<and>
          length ids = length (found p @ dp_MissingResourceIDs p) \<and> set ids \<subseteq> set (found p @ dp_MissingResourceIDs p))"
proof -
  have card: "card (ds_ID ` set xs \<union> set ys) = length xs + length ys"
    if "distinct (map ds_ID xs)" "distinct ys" "ds_ID ` set xs \<inter> set ys = {}" for xs ys
  proof -
    have "card (ds_ID ` set xs) = length xs" using distinct_card [OF that(1)] by simp
    then show ?thesis using that by (simp add: card_Un_disjoint distinct_card)
  qed
  show ?thesis
    unfolding DiscoveryPage_Validate_def and_then_Inr if_fail_Inr check_resources_iff
    by (cases "dr_ResourceIDs r"; cases "ac_Discovery c")
      (auto simp: found_def check_missing_iff and_then_Inr list_ex_iff card Int_commute)
qed

lemma ValidateAt_ok [result_iff]:
  "ValidateAt r c now = ok \<longleftrightarrow> DiscoveryRequest_Validate r c = ok \<and>
     (\<exists>d. ac_Discovery c = Some d \<and> \<not> IsZero now \<and> inst (dr_Now r) \<le> inst now + 30 * Second \<and>
        inst now < inst (dr_Now r) + seconds (rd_MaximumAgeSeconds d))"
  by (cases "ac_Discovery c") (auto simp: ValidateAt_def and_then_Inr time_defs not_less)

lemma discovery_age:
  assumes "ActionCapability_Validate c = ok" "ac_Discovery c = Some d"
  shows "seconds (rd_MaximumAgeSeconds d) = rd_MaximumAgeSeconds d * Second" "rd_MaximumAgeSeconds d \<in> {1..300}"
  using assms by (auto simp: ActionCapability_Validate_ok ResourceDiscovery_Validate_ok seconds_exact)

text \<open>Requests and pages live at most five minutes, whatever the capability declares.\<close>

definition request_fresh :: "DiscoveryRequest \<Rightarrow> ActionCapability \<Rightarrow> gotime \<Rightarrow> gotime \<Rightarrow> bool" where
  "request_fresh r c now sent \<longleftrightarrow> ValidateAt (r\<lparr>dr_Now := sent\<rparr>) c now = ok"

definition page_fresh :: "DiscoveryPage \<Rightarrow> DiscoveryRequest \<Rightarrow> ActionCapability \<Rightarrow> gotime \<Rightarrow> gotime \<Rightarrow> bool" where
  "page_fresh p r c now observed \<longleftrightarrow> DiscoveryPage_Validate (p\<lparr>dp_ObservedAt := observed\<rparr>) r c now = ok"

lemma digest_capability_ok: "ActionCapabilityDigest c = Inr d \<Longrightarrow> ActionCapability_Validate c = ok"
  by (simp add: ActionCapabilityDigest_iff)

interpretation request_window: freshness "request_fresh r c" "30 * Second" "5 * Minute" for r c
proof unfold_locales
  fix now sent assume a: "request_fresh r c now sent"
  then obtain d where d: "ac_Discovery c = Some d" "inst sent \<le> inst now + 30 * Second"
      "inst now < inst sent + seconds (rd_MaximumAgeSeconds d)" and c: "ActionCapability_Validate c = ok"
    by (auto simp: request_fresh_def ValidateAt_ok DiscoveryRequest_Validate_ok dest: digest_capability_ok)
  show "inst sent \<le> inst now + 30 * Second" by (rule d)
  show "inst now \<le> inst sent + 5 * Minute"
    using d(3) discovery_age [OF c d(1)] by (simp add: Minute_def Second_def)
qed

lemma request_digest_valid:
  assumes "DiscoveryRequestDigest r c = Inr d"
  shows "DiscoveryRequest_Validate r c = ok" "ActionCapability_Validate c = ok"
proof -
  show "DiscoveryRequest_Validate r c = ok" using assms by (auto simp: DiscoveryRequestDigest_def and_then_Inr)
  then show "ActionCapability_Validate c = ok" by (auto simp: DiscoveryRequest_Validate_ok dest: digest_capability_ok)
qed

interpretation page_window: freshness "page_fresh p r c" "30 * Second" "5 * Minute" for p r c
proof unfold_locales
  fix now sent assume "page_fresh p r c now sent"
  then have v: "DiscoveryPage_Validate (p\<lparr>dp_ObservedAt := sent\<rparr>) r c now = ok" by (simp add: page_fresh_def)
  then have c: "ActionCapability_Validate c = ok" unfolding DiscoveryPage_Validate_ok
    by (elim conjE) (rule request_digest_valid(2))
  obtain d where d: "ac_Discovery c = Some d" "\<not> check_stale now sent (dr_Now r) (rd_MaximumAgeSeconds d)"
    using v unfolding DiscoveryPage_Validate_ok by auto
  show "inst sent \<le> inst now + 30 * Second" "inst now \<le> inst sent + 5 * Minute"
    using d(2) discovery_age [OF c d(1)] by (auto simp: check_stale_def time_defs Minute_def Second_def)
qed

text \<open>What two acceptances of one request or page say of the clock, and one of its age.\<close>

lemma request_span:
  assumes "ValidateAt r c now = ok" "ValidateAt r c later = ok"
  shows "inst later - inst now \<le> 330 * Second" "inst (dr_Now r) \<le> inst now + 30 * Second"
proof -
  have q: "request_fresh r c now (dr_Now r)" "request_fresh r c later (dr_Now r)"
    using assms by (simp_all add: request_fresh_def)
  show "inst later - inst now \<le> 330 * Second" "inst (dr_Now r) \<le> inst now + 30 * Second"
    using request_window.accept_span [OF q] request_window.accept_window [OF q(1)] by (simp_all add: Minute_def)
qed

lemma page_span:
  assumes "DiscoveryPage_Validate p r c now = ok" "DiscoveryPage_Validate p r c later = ok"
  shows "inst later - inst now \<le> 330 * Second" "inst (dp_ObservedAt p) \<le> inst now + 30 * Second"
proof -
  have q: "page_fresh p r c now (dp_ObservedAt p)" "page_fresh p r c later (dp_ObservedAt p)"
    using assms by (simp_all add: page_fresh_def)
  show "inst later - inst now \<le> 330 * Second" "inst (dp_ObservedAt p) \<le> inst now + 30 * Second"
    using page_window.accept_span [OF q] page_window.accept_window [OF q(1)] by (simp_all add: Minute_def)
qed

lemma request_age:
  assumes "ValidateAt r c now = ok"
  shows "\<exists>d. ac_Discovery c = Some d \<and> inst now < inst (dr_Now r) + rd_MaximumAgeSeconds d * Second"
proof -
  obtain d where d: "ac_Discovery c = Some d" "inst now < inst (dr_Now r) + seconds (rd_MaximumAgeSeconds d)"
    and c: "ActionCapability_Validate c = ok"
    using assms by (auto simp: ValidateAt_ok DiscoveryRequest_Validate_ok dest: digest_capability_ok)
  then show ?thesis using discovery_age(1) [OF c d(1)] by simp
qed

lemma page_age:
  assumes "DiscoveryPage_Validate p r c now = ok"
  shows "\<exists>d. ac_Discovery c = Some d \<and> inst now < inst (dp_ObservedAt p) + rd_MaximumAgeSeconds d * Second"
proof -
  obtain d x where d: "ac_Discovery c = Some d" "\<not> check_stale now (dp_ObservedAt p) (dr_Now r) (rd_MaximumAgeSeconds d)"
    and x: "DiscoveryRequestDigest r c = Inr x"
    using assms unfolding DiscoveryPage_Validate_ok by blast
  then show ?thesis using discovery_age(1) [OF request_digest_valid(2) [OF x] d(1)]
    by (auto simp: check_stale_def time_defs)
qed

end
