(* ===== verification/Wire.thy ===== *)
theory Wire
  imports Decoding Lifetimes Discovery
begin

text \<open>
  The requests and responses of the broker protocol (\<open>protocol.go\<close>): their records, the text
  \<open>json.Marshal\<close> writes for them and the field tables \<open>decodeStrict\<close> reads them with. The
  types an adapter exchanges with its renderer are data only.
\<close>

section \<open>Records without operations\<close>

record PrepareRequest =
  pr_RequestID :: string
  pr_TenantID :: string
  pr_ConnectionID :: string
  pr_Provider :: string
  pr_Release :: string
  pr_AccountRef :: string
  pr_Name :: string
  pr_Input :: string
  pr_Now :: gotime

record Connection =
  cn_Configuration :: string
  cn_Onboarding :: string

record VerifyRequest =
  vr_RequestID :: string
  vr_TenantID :: string
  vr_ConnectionID :: string
  vr_Provider :: string
  vr_Release :: string
  vr_AccountRef :: string
  vr_Configuration :: string
  vr_Now :: gotime

record Verification =
  vf_TargetIdentity :: string
  vf_VerifiedAt :: gotime

record ConfigureRequest =
  cf_Protocol :: string
  cf_Release :: string
  cf_ManifestDigest :: string
  cf_Provider :: string
  cf_CredentialKind :: string
  cf_SessionID :: string
  cf_AccountRef :: string
  cf_Environments :: "string list"
  cf_ResourcePrefixes :: "string list"
  cf_ResourceIDs :: "string list option"
  cf_ActivePath :: string
  cf_RuntimeExecutable :: string
  cf_RendererExecutable :: string
  cf_RuntimeDirectory :: string
  cf_LeaseCommand :: "string list"

record RenderRequest =
  rq_Protocol :: string
  rq_Release :: string
  rq_ManifestDigest :: string
  rq_SessionID :: string
  rq_ActivePath :: string
  rq_RuntimePath :: string
  rq_Material :: string

record RenderedMaterial =
  rm_Stdout :: string

record RenderedFile =
  rf_Name :: string
  rf_Content :: string
  rf_Mode :: nat

record RenderedEnvironment =
  rv_Remove :: "string list"
  rv_Set :: "(string \<times> string) list"
  rv_Files :: "RenderedFile list"

section \<open>What is written\<close>

definition time_json :: "gotime \<Rightarrow> string result" where
  "time_json t =
     (case time_text t of
        None \<Rightarrow> fail ''json: error calling MarshalJSON for type time.Time'' | Some s \<Rightarrow> str s)"

lemma time_json_avoids [avoids_intros]: "avoids {Panic} (time_json t)"
  unfolding time_json_def by (intro avoids_intros)

definition PrepareRequest_text :: "PrepareRequest \<Rightarrow> string result" where
  "PrepareRequest_text r =
     struct_text [(''request_id'', str (pr_RequestID r)), (''tenant_id'', str (pr_TenantID r)),
       (''connection_id'', str (pr_ConnectionID r)), (''provider'', str (pr_Provider r)),
       (''release'', str (pr_Release r)), (''account_ref'', str (pr_AccountRef r)), (''name'', str (pr_Name r)),
       (''input'', raw_text (pr_Input r)), (''now'', time_json (pr_Now r))]"

definition Connection_text :: "Connection \<Rightarrow> string result" where
  "Connection_text c =
     struct_text [(''configuration'', raw_text (cn_Configuration c)), (''onboarding'', raw_text (cn_Onboarding c))]"

definition VerifyRequest_text :: "VerifyRequest \<Rightarrow> string result" where
  "VerifyRequest_text r =
     struct_text [(''request_id'', str (vr_RequestID r)), (''tenant_id'', str (vr_TenantID r)),
       (''connection_id'', str (vr_ConnectionID r)), (''provider'', str (vr_Provider r)),
       (''release'', str (vr_Release r)), (''account_ref'', str (vr_AccountRef r)),
       (''configuration'', raw_text (vr_Configuration r)), (''now'', time_json (vr_Now r))]"

definition Verification_text :: "Verification \<Rightarrow> string result" where
  "Verification_text v =
     struct_text [(''target_identity'', str (vf_TargetIdentity v)), (''verified_at'', time_json (vf_VerifiedAt v))]"

definition Subject_text :: "Subject \<Rightarrow> string result" where
  "Subject_text s =
     struct_text [(''tenant_id'', str (su_TenantID s)), (''actor_id'', str (su_ActorID s)),
       (''device_id'', str (su_DeviceID s)), (''session_id'', str (su_SessionID s)),
       (''profile_id'', str (su_ProfileID s)), (''account_ref'', str (su_AccountRef s)),
       (''environment'', str (su_Environment s))]"

definition CredentialLifetime_text :: "CredentialLifetime \<Rightarrow> string result" where
  "CredentialLifetime_text l =
     struct_text [(''protocol'', str (cl_Protocol l)), (''task_expires_at'', time_json (cl_TaskExpiresAt l))]"

definition IssueRequest_text :: "IssueRequest \<Rightarrow> string result" where
  "IssueRequest_text r =
     struct_text ([(''request_id'', str (is_RequestID r)), (''connection_id'', str (is_ConnectionID r)),
       (''provider'', str (is_Provider r)), (''release'', str (is_Release r)), (''account_ref'', str (is_AccountRef r)),
       (''configuration'', raw_text (is_Configuration r)), (''subject'', Subject_text (is_Subject r)),
       (''authorization'', Authorization_text (is_Authorization r)),
       (''authorization_digest'', str (is_AuthorizationDigest r)), (''now'', time_json (is_Now r))] @
       (case is_Lifetime r of None \<Rightarrow> [] | Some l \<Rightarrow> [(''lifetime'', CredentialLifetime_text l)]))"

definition Material_text :: "Material \<Rightarrow> string result" where
  "Material_text m =
     struct_text [(''kind'', str (mt_Kind m)), (''payload'', raw_text (mt_Payload m)),
       (''expires_at'', time_json (mt_ExpiresAt m)), (''target_identity'', str (mt_TargetIdentity m)),
       (''revocation_semantics'', str (mt_RevocationSemantics m)),
       (''authorization_digest'', str (mt_AuthorizationDigest m))]"

definition ActionAuthority_text :: "ActionAuthority \<Rightarrow> string result" where
  "ActionAuthority_text a =
     struct_text [(''id'', str (aa_ID a)), (''action_digest'', str (aa_ActionDigest a)),
       (''capability_digest'', str (aa_CapabilityDigest a)), (''approved_by'', str (aa_ApprovedBy a)),
       (''approved_at'', time_json (aa_ApprovedAt a)), (''expires_at'', time_json (aa_ExpiresAt a))]"

definition ExecuteActionRequest_text :: "ExecuteActionRequest \<Rightarrow> string result" where
  "ExecuteActionRequest_text r =
     struct_text [(''request_id'', str (ex_RequestID r)), (''connection_id'', str (ex_ConnectionID r)),
       (''provider'', str (ex_Provider r)), (''release'', str (ex_Release r)), (''account_ref'', str (ex_AccountRef r)),
       (''configuration'', raw_text (ex_Configuration r)), (''subject'', Subject_text (ex_Subject r)),
       (''capability_ref'', str (ex_CapabilityRef r)), (''capability_digest'', str (ex_CapabilityDigest r)),
       (''action_id'', str (ex_ActionID r)), (''action_digest'', str (ex_ActionDigest r)),
       (''operation'', str (ex_Operation r)), (''resource'', str (ex_Resource r)),
       (''environment'', str (ex_Environment r)), (''parameters'', raw_text (ex_Parameters r)),
       (''authority'', ActionAuthority_text (ex_Authority r)), (''now'', time_json (ex_Now r))]"

definition ActionExecution_text :: "ActionExecution \<Rightarrow> string result" where
  "ActionExecution_text e =
     struct_text [(''provider_receipt'', str (ae_ProviderReceipt e)), (''execution_identity'', str (ae_ExecutionIdentity e)),
       (''executed_at'', time_json (ae_ExecutedAt e)), (''output'', raw_text (ae_Output e)),
       (''output_digest'', str (ae_OutputDigest e))]"

definition VerifyActionRequest_text :: "VerifyActionRequest \<Rightarrow> string result" where
  "VerifyActionRequest_text r =
     struct_text [(''request_id'', str (va_RequestID r)), (''connection_id'', str (va_ConnectionID r)),
       (''provider'', str (va_Provider r)), (''release'', str (va_Release r)), (''account_ref'', str (va_AccountRef r)),
       (''configuration'', raw_text (va_Configuration r)), (''subject'', Subject_text (va_Subject r)),
       (''capability_ref'', str (va_CapabilityRef r)), (''capability_digest'', str (va_CapabilityDigest r)),
       (''action_id'', str (va_ActionID r)), (''action_digest'', str (va_ActionDigest r)),
       (''operation'', str (va_Operation r)), (''resource'', str (va_Resource r)),
       (''environment'', str (va_Environment r)), (''parameters'', raw_text (va_Parameters r)),
       (''execution'', ActionExecution_text (va_Execution r)), (''now'', time_json (va_Now r))]"

definition ActionVerification_text :: "ActionVerification \<Rightarrow> string result" where
  "ActionVerification_text v =
     struct_text [(''state'', str (av_State v)), (''verified_at'', time_json (av_VerifiedAt v)),
       (''verifier_release'', str (av_VerifierRelease v)), (''evidence'', raw_text (av_Evidence v)),
       (''evidence_digest'', str (av_EvidenceDigest v))]"

definition DiscoveredResource_text :: "DiscoveredResource \<Rightarrow> string" where
  "DiscoveredResource_text x =
     object_text [(''id'', quote (ds_ID x)), (''label'', quote (ds_Label x)), (''kind'', quote (ds_Kind x))]"

definition DiscoveryPage_text :: "DiscoveryPage \<Rightarrow> string result" where
  "DiscoveryPage_text p =
     struct_text ([(''protocol'', str (dp_Protocol p)), (''request_digest'', str (dp_RequestDigest p)),
       (''observed_at'', time_json (dp_ObservedAt p)),
       (''resources'', Inr (case dp_Resources p of None \<Rightarrow> ''null'' | Some xs \<Rightarrow> array_text (map DiscoveredResource_text xs)))] @
       omit (dp_NextCursor p = []) ''next_cursor'' (str (dp_NextCursor p)) @
       omit (dp_MissingResourceIDs p = []) ''missing_resource_ids'' (Inr (strings_text (dp_MissingResourceIDs p))))"

section \<open>What is read\<close>

text \<open>Zero values and field tables, in the order of the declarations.\<close>

definition zero_time :: gotime where
  "zero_time = \<lparr> inst = 0, zone = 0 \<rparr>"

definition zero_prepare :: PrepareRequest where
  "zero_prepare = \<lparr> pr_RequestID = [], pr_TenantID = [], pr_ConnectionID = [], pr_Provider = [], pr_Release = [], pr_AccountRef = [], pr_Name = [], pr_Input = [], pr_Now = zero_time \<rparr>"

definition prepare_fields :: "(string \<times> PrepareRequest decoder) list" where
  "prepare_fields =
     [(''request_id'', at_field pr_RequestID pr_RequestID_update decode_string),
      (''tenant_id'', at_field pr_TenantID pr_TenantID_update decode_string),
      (''connection_id'', at_field pr_ConnectionID pr_ConnectionID_update decode_string),
      (''provider'', at_field pr_Provider pr_Provider_update decode_string),
      (''release'', at_field pr_Release pr_Release_update decode_string),
      (''account_ref'', at_field pr_AccountRef pr_AccountRef_update decode_string),
      (''name'', at_field pr_Name pr_Name_update decode_string),
      (''input'', at_field pr_Input pr_Input_update decode_raw),
      (''now'', at_field pr_Now pr_Now_update decode_time)]"

definition zero_connection :: Connection where
  "zero_connection = \<lparr> cn_Configuration = [], cn_Onboarding = [] \<rparr>"

definition connection_fields :: "(string \<times> Connection decoder) list" where
  "connection_fields =
     [(''configuration'', at_field cn_Configuration cn_Configuration_update decode_raw),
      (''onboarding'', at_field cn_Onboarding cn_Onboarding_update decode_raw)]"

definition zero_verify :: VerifyRequest where
  "zero_verify = \<lparr> vr_RequestID = [], vr_TenantID = [], vr_ConnectionID = [], vr_Provider = [], vr_Release = [], vr_AccountRef = [], vr_Configuration = [], vr_Now = zero_time \<rparr>"

definition verify_fields :: "(string \<times> VerifyRequest decoder) list" where
  "verify_fields =
     [(''request_id'', at_field vr_RequestID vr_RequestID_update decode_string),
      (''tenant_id'', at_field vr_TenantID vr_TenantID_update decode_string),
      (''connection_id'', at_field vr_ConnectionID vr_ConnectionID_update decode_string),
      (''provider'', at_field vr_Provider vr_Provider_update decode_string),
      (''release'', at_field vr_Release vr_Release_update decode_string),
      (''account_ref'', at_field vr_AccountRef vr_AccountRef_update decode_string),
      (''configuration'', at_field vr_Configuration vr_Configuration_update decode_raw),
      (''now'', at_field vr_Now vr_Now_update decode_time)]"

definition zero_verification :: Verification where
  "zero_verification = \<lparr> vf_TargetIdentity = [], vf_VerifiedAt = zero_time \<rparr>"

definition verification_fields :: "(string \<times> Verification decoder) list" where
  "verification_fields =
     [(''target_identity'', at_field vf_TargetIdentity vf_TargetIdentity_update decode_string),
      (''verified_at'', at_field vf_VerifiedAt vf_VerifiedAt_update decode_time)]"

definition zero_subject :: Subject where
  "zero_subject = \<lparr> su_TenantID = [], su_ActorID = [], su_DeviceID = [], su_SessionID = [], su_ProfileID = [], su_AccountRef = [], su_Environment = [] \<rparr>"

definition subject_fields :: "(string \<times> Subject decoder) list" where
  "subject_fields =
     [(''tenant_id'', at_field su_TenantID su_TenantID_update decode_string),
      (''actor_id'', at_field su_ActorID su_ActorID_update decode_string),
      (''device_id'', at_field su_DeviceID su_DeviceID_update decode_string),
      (''session_id'', at_field su_SessionID su_SessionID_update decode_string),
      (''profile_id'', at_field su_ProfileID su_ProfileID_update decode_string),
      (''account_ref'', at_field su_AccountRef su_AccountRef_update decode_string),
      (''environment'', at_field su_Environment su_Environment_update decode_string)]"

definition zero_selector :: CapabilitySelector where
  "zero_selector = \<lparr> cs_Ref = [], cs_Digest = [] \<rparr>"

definition selector_fields :: "(string \<times> CapabilitySelector decoder) list" where
  "selector_fields =
     [(''ref'', at_field cs_Ref cs_Ref_update decode_string),
      (''digest'', at_field cs_Digest cs_Digest_update decode_string)]"

definition zero_limit :: ParameterLimit where
  "zero_limit = \<lparr> pl_Type = [], pl_Optional = False, pl_AllowedValues = None, pl_Minimum = None, pl_Maximum = None \<rparr>"

definition limit_fields :: "(string \<times> ParameterLimit decoder) list" where
  "limit_fields =
     [(''type'', at_field pl_Type pl_Type_update decode_string),
      (''optional'', at_field pl_Optional pl_Optional_update decode_bool),
      (''allowed_values'', at_field pl_AllowedValues pl_AllowedValues_update (decode_slice decode_raw [])),
      (''minimum'', at_field pl_Minimum pl_Minimum_update (decode_pointer decode_number [])),
      (''maximum'', at_field pl_Maximum pl_Maximum_update (decode_pointer decode_number []))]"

definition zero_limits :: ParameterLimits where
  "zero_limits = \<lparr> pls_Fields = None \<rparr>"

definition limits_fields :: "(string \<times> ParameterLimits decoder) list" where
  "limits_fields =
     [(''fields'', at_field pls_Fields pls_Fields_update (decode_map (decode_struct limit_fields) zero_limit))]"

definition zero_rule :: AuthorizationRule where
  "zero_rule = \<lparr> ar_ID = [], ar_Effect = [], ar_Providers = [], ar_Operations = [], ar_Capabilities = None, ar_ResourcePrefixes = [], ar_ResourceIDs = None, ar_ParameterLimits = None \<rparr>"

definition rule_fields :: "(string \<times> AuthorizationRule decoder) list" where
  "rule_fields =
     [(''id'', at_field ar_ID ar_ID_update decode_string),
      (''effect'', at_field ar_Effect ar_Effect_update decode_string),
      (''providers'', at_field ar_Providers ar_Providers_update (decode_list decode_string [])),
      (''operations'', at_field ar_Operations ar_Operations_update (decode_list decode_string [])),
      (''capabilities'', at_field ar_Capabilities ar_Capabilities_update (decode_slice (decode_struct selector_fields) zero_selector)),
      (''resource_prefixes'', at_field ar_ResourcePrefixes ar_ResourcePrefixes_update (decode_list decode_string [])),
      (''resource_ids'', at_field ar_ResourceIDs ar_ResourceIDs_update (decode_slice decode_string [])),
      (''parameter_limits'', at_field ar_ParameterLimits ar_ParameterLimits_update (decode_pointer (decode_struct limits_fields) zero_limits))]"

definition zero_authorization :: Authorization where
  "zero_authorization = \<lparr> au_ProfileDigest = [], au_PolicyRelease = [], au_Provider = [], au_AccountRef = [], au_Environments = [], au_ResourcePrefixes = [], au_ResourceIDs = None, au_Rules = [] \<rparr>"

definition authorization_fields :: "(string \<times> Authorization decoder) list" where
  "authorization_fields =
     [(''profile_digest'', at_field au_ProfileDigest au_ProfileDigest_update decode_string),
      (''policy_release'', at_field au_PolicyRelease au_PolicyRelease_update decode_string),
      (''provider'', at_field au_Provider au_Provider_update decode_string),
      (''account_ref'', at_field au_AccountRef au_AccountRef_update decode_string),
      (''environments'', at_field au_Environments au_Environments_update (decode_list decode_string [])),
      (''resource_prefixes'', at_field au_ResourcePrefixes au_ResourcePrefixes_update (decode_list decode_string [])),
      (''resource_ids'', at_field au_ResourceIDs au_ResourceIDs_update (decode_slice decode_string [])),
      (''rules'', at_field au_Rules au_Rules_update (decode_list (decode_struct rule_fields) zero_rule))]"

definition zero_lifetime :: CredentialLifetime where
  "zero_lifetime = \<lparr> cl_Protocol = [], cl_TaskExpiresAt = zero_time \<rparr>"

definition lifetime_fields :: "(string \<times> CredentialLifetime decoder) list" where
  "lifetime_fields =
     [(''protocol'', at_field cl_Protocol cl_Protocol_update decode_string),
      (''task_expires_at'', at_field cl_TaskExpiresAt cl_TaskExpiresAt_update decode_time)]"

definition zero_issue :: IssueRequest where
  "zero_issue = \<lparr> is_RequestID = [], is_ConnectionID = [], is_Provider = [], is_Release = [], is_AccountRef = [], is_Configuration = [], is_Subject = zero_subject, is_Authorization = zero_authorization, is_AuthorizationDigest = [], is_Now = zero_time, is_Lifetime = None \<rparr>"

definition issue_fields :: "(string \<times> IssueRequest decoder) list" where
  "issue_fields =
     [(''request_id'', at_field is_RequestID is_RequestID_update decode_string),
      (''connection_id'', at_field is_ConnectionID is_ConnectionID_update decode_string),
      (''provider'', at_field is_Provider is_Provider_update decode_string),
      (''release'', at_field is_Release is_Release_update decode_string),
      (''account_ref'', at_field is_AccountRef is_AccountRef_update decode_string),
      (''configuration'', at_field is_Configuration is_Configuration_update decode_raw),
      (''subject'', at_field is_Subject is_Subject_update (decode_struct subject_fields)),
      (''authorization'', at_field is_Authorization is_Authorization_update (decode_struct authorization_fields)),
      (''authorization_digest'', at_field is_AuthorizationDigest is_AuthorizationDigest_update decode_string),
      (''now'', at_field is_Now is_Now_update decode_time),
      (''lifetime'', at_field is_Lifetime is_Lifetime_update (decode_pointer (decode_struct lifetime_fields) zero_lifetime))]"

definition zero_material :: Material where
  "zero_material = \<lparr> mt_Kind = [], mt_Payload = [], mt_ExpiresAt = zero_time, mt_TargetIdentity = [], mt_RevocationSemantics = [], mt_AuthorizationDigest = [] \<rparr>"

definition material_fields :: "(string \<times> Material decoder) list" where
  "material_fields =
     [(''kind'', at_field mt_Kind mt_Kind_update decode_string),
      (''payload'', at_field mt_Payload mt_Payload_update decode_raw),
      (''expires_at'', at_field mt_ExpiresAt mt_ExpiresAt_update decode_time),
      (''target_identity'', at_field mt_TargetIdentity mt_TargetIdentity_update decode_string),
      (''revocation_semantics'', at_field mt_RevocationSemantics mt_RevocationSemantics_update decode_string),
      (''authorization_digest'', at_field mt_AuthorizationDigest mt_AuthorizationDigest_update decode_string)]"

definition zero_authority :: ActionAuthority where
  "zero_authority = \<lparr> aa_ID = [], aa_ActionDigest = [], aa_CapabilityDigest = [], aa_ApprovedBy = [], aa_ApprovedAt = zero_time, aa_ExpiresAt = zero_time \<rparr>"

definition authority_fields :: "(string \<times> ActionAuthority decoder) list" where
  "authority_fields =
     [(''id'', at_field aa_ID aa_ID_update decode_string),
      (''action_digest'', at_field aa_ActionDigest aa_ActionDigest_update decode_string),
      (''capability_digest'', at_field aa_CapabilityDigest aa_CapabilityDigest_update decode_string),
      (''approved_by'', at_field aa_ApprovedBy aa_ApprovedBy_update decode_string),
      (''approved_at'', at_field aa_ApprovedAt aa_ApprovedAt_update decode_time),
      (''expires_at'', at_field aa_ExpiresAt aa_ExpiresAt_update decode_time)]"

definition zero_execute :: ExecuteActionRequest where
  "zero_execute = \<lparr> ex_RequestID = [], ex_ConnectionID = [], ex_Provider = [], ex_Release = [], ex_AccountRef = [], ex_Configuration = [], ex_Subject = zero_subject, ex_CapabilityRef = [], ex_CapabilityDigest = [], ex_ActionID = [], ex_ActionDigest = [], ex_Operation = [], ex_Resource = [], ex_Environment = [], ex_Parameters = [], ex_Authority = zero_authority, ex_Now = zero_time \<rparr>"

definition execute_fields :: "(string \<times> ExecuteActionRequest decoder) list" where
  "execute_fields =
     [(''request_id'', at_field ex_RequestID ex_RequestID_update decode_string),
      (''connection_id'', at_field ex_ConnectionID ex_ConnectionID_update decode_string),
      (''provider'', at_field ex_Provider ex_Provider_update decode_string),
      (''release'', at_field ex_Release ex_Release_update decode_string),
      (''account_ref'', at_field ex_AccountRef ex_AccountRef_update decode_string),
      (''configuration'', at_field ex_Configuration ex_Configuration_update decode_raw),
      (''subject'', at_field ex_Subject ex_Subject_update (decode_struct subject_fields)),
      (''capability_ref'', at_field ex_CapabilityRef ex_CapabilityRef_update decode_string),
      (''capability_digest'', at_field ex_CapabilityDigest ex_CapabilityDigest_update decode_string),
      (''action_id'', at_field ex_ActionID ex_ActionID_update decode_string),
      (''action_digest'', at_field ex_ActionDigest ex_ActionDigest_update decode_string),
      (''operation'', at_field ex_Operation ex_Operation_update decode_string),
      (''resource'', at_field ex_Resource ex_Resource_update decode_string),
      (''environment'', at_field ex_Environment ex_Environment_update decode_string),
      (''parameters'', at_field ex_Parameters ex_Parameters_update decode_raw),
      (''authority'', at_field ex_Authority ex_Authority_update (decode_struct authority_fields)),
      (''now'', at_field ex_Now ex_Now_update decode_time)]"

definition zero_execution :: ActionExecution where
  "zero_execution = \<lparr> ae_ProviderReceipt = [], ae_ExecutionIdentity = [], ae_ExecutedAt = zero_time, ae_Output = [], ae_OutputDigest = [] \<rparr>"

definition execution_fields :: "(string \<times> ActionExecution decoder) list" where
  "execution_fields =
     [(''provider_receipt'', at_field ae_ProviderReceipt ae_ProviderReceipt_update decode_string),
      (''execution_identity'', at_field ae_ExecutionIdentity ae_ExecutionIdentity_update decode_string),
      (''executed_at'', at_field ae_ExecutedAt ae_ExecutedAt_update decode_time),
      (''output'', at_field ae_Output ae_Output_update decode_raw),
      (''output_digest'', at_field ae_OutputDigest ae_OutputDigest_update decode_string)]"

definition zero_verify_action :: VerifyActionRequest where
  "zero_verify_action = \<lparr> va_RequestID = [], va_ConnectionID = [], va_Provider = [], va_Release = [], va_AccountRef = [], va_Configuration = [], va_Subject = zero_subject, va_CapabilityRef = [], va_CapabilityDigest = [], va_ActionID = [], va_ActionDigest = [], va_Operation = [], va_Resource = [], va_Environment = [], va_Parameters = [], va_Execution = zero_execution, va_Now = zero_time \<rparr>"

definition verify_action_fields :: "(string \<times> VerifyActionRequest decoder) list" where
  "verify_action_fields =
     [(''request_id'', at_field va_RequestID va_RequestID_update decode_string),
      (''connection_id'', at_field va_ConnectionID va_ConnectionID_update decode_string),
      (''provider'', at_field va_Provider va_Provider_update decode_string),
      (''release'', at_field va_Release va_Release_update decode_string),
      (''account_ref'', at_field va_AccountRef va_AccountRef_update decode_string),
      (''configuration'', at_field va_Configuration va_Configuration_update decode_raw),
      (''subject'', at_field va_Subject va_Subject_update (decode_struct subject_fields)),
      (''capability_ref'', at_field va_CapabilityRef va_CapabilityRef_update decode_string),
      (''capability_digest'', at_field va_CapabilityDigest va_CapabilityDigest_update decode_string),
      (''action_id'', at_field va_ActionID va_ActionID_update decode_string),
      (''action_digest'', at_field va_ActionDigest va_ActionDigest_update decode_string),
      (''operation'', at_field va_Operation va_Operation_update decode_string),
      (''resource'', at_field va_Resource va_Resource_update decode_string),
      (''environment'', at_field va_Environment va_Environment_update decode_string),
      (''parameters'', at_field va_Parameters va_Parameters_update decode_raw),
      (''execution'', at_field va_Execution va_Execution_update (decode_struct execution_fields)),
      (''now'', at_field va_Now va_Now_update decode_time)]"

definition zero_action_verification :: ActionVerification where
  "zero_action_verification = \<lparr> av_State = [], av_VerifiedAt = zero_time, av_VerifierRelease = [], av_Evidence = [], av_EvidenceDigest = [] \<rparr>"

definition action_verification_fields :: "(string \<times> ActionVerification decoder) list" where
  "action_verification_fields =
     [(''state'', at_field av_State av_State_update decode_string),
      (''verified_at'', at_field av_VerifiedAt av_VerifiedAt_update decode_time),
      (''verifier_release'', at_field av_VerifierRelease av_VerifierRelease_update decode_string),
      (''evidence'', at_field av_Evidence av_Evidence_update decode_raw),
      (''evidence_digest'', at_field av_EvidenceDigest av_EvidenceDigest_update decode_string)]"

definition zero_discovery :: DiscoveryRequest where
  "zero_discovery = \<lparr> dr_Protocol = [], dr_RequestID = [], dr_TenantID = [], dr_ConnectionID = [], dr_Provider = [], dr_Release = [], dr_ManifestDigest = [], dr_AccountRef = [], dr_CapabilityRef = [], dr_CapabilityDigest = [], dr_Configuration = [], dr_Query = [], dr_Cursor = [], dr_Limit = 0, dr_ResourceIDs = None, dr_Now = zero_time \<rparr>"

definition discovery_fields :: "(string \<times> DiscoveryRequest decoder) list" where
  "discovery_fields =
     [(''protocol'', at_field dr_Protocol dr_Protocol_update decode_string),
      (''request_id'', at_field dr_RequestID dr_RequestID_update decode_string),
      (''tenant_id'', at_field dr_TenantID dr_TenantID_update decode_string),
      (''connection_id'', at_field dr_ConnectionID dr_ConnectionID_update decode_string),
      (''provider'', at_field dr_Provider dr_Provider_update decode_string),
      (''release'', at_field dr_Release dr_Release_update decode_string),
      (''manifest_digest'', at_field dr_ManifestDigest dr_ManifestDigest_update decode_string),
      (''account_ref'', at_field dr_AccountRef dr_AccountRef_update decode_string),
      (''capability_ref'', at_field dr_CapabilityRef dr_CapabilityRef_update decode_string),
      (''capability_digest'', at_field dr_CapabilityDigest dr_CapabilityDigest_update decode_string),
      (''configuration'', at_field dr_Configuration dr_Configuration_update decode_raw),
      (''query'', at_field dr_Query dr_Query_update decode_string),
      (''cursor'', at_field dr_Cursor dr_Cursor_update decode_string),
      (''limit'', at_field dr_Limit dr_Limit_update decode_int),
      (''resource_ids'', at_field dr_ResourceIDs dr_ResourceIDs_update (decode_slice decode_string [])),
      (''now'', at_field dr_Now dr_Now_update decode_time)]"

definition zero_resource :: DiscoveredResource where
  "zero_resource = \<lparr> ds_ID = [], ds_Label = [], ds_Kind = [] \<rparr>"

definition resource_fields :: "(string \<times> DiscoveredResource decoder) list" where
  "resource_fields =
     [(''id'', at_field ds_ID ds_ID_update decode_string),
      (''label'', at_field ds_Label ds_Label_update decode_string),
      (''kind'', at_field ds_Kind ds_Kind_update decode_string)]"

definition zero_page :: DiscoveryPage where
  "zero_page = \<lparr> dp_Protocol = [], dp_RequestDigest = [], dp_ObservedAt = zero_time, dp_Resources = None, dp_NextCursor = [], dp_MissingResourceIDs = [] \<rparr>"

definition page_fields :: "(string \<times> DiscoveryPage decoder) list" where
  "page_fields =
     [(''protocol'', at_field dp_Protocol dp_Protocol_update decode_string),
      (''request_digest'', at_field dp_RequestDigest dp_RequestDigest_update decode_string),
      (''observed_at'', at_field dp_ObservedAt dp_ObservedAt_update decode_time),
      (''resources'', at_field dp_Resources dp_Resources_update (decode_slice (decode_struct resource_fields) zero_resource)),
      (''next_cursor'', at_field dp_NextCursor dp_NextCursor_update decode_string),
      (''missing_resource_ids'', at_field dp_MissingResourceIDs dp_MissingResourceIDs_update (decode_list decode_string []))]"

end
