(* ===== verification/Outbound.thy ===== *)
theory Outbound
  imports Manifests
begin

text \<open>
  Outbound runtimes (\<open>outbound.go\<close>): the registration of a runtime against a signed release,
  the dispatches it claims and the results it returns. The digest of discovery and
  connection-verification dispatches is over exact numbers.
\<close>

definition OutboundRuntimeProtocol :: string where "OutboundRuntimeProtocol = ''misconfig.provider-runtime/v1''"
definition OutboundPhaseIssueCredential :: string where "OutboundPhaseIssueCredential = ''issue_credential''"
definition OutboundPhaseExecuteAction :: string where "OutboundPhaseExecuteAction = ''execute_action''"
definition OutboundPhaseVerifyAction :: string where "OutboundPhaseVerifyAction = ''verify_action''"
definition OutboundPhaseDiscoverResources :: string where "OutboundPhaseDiscoverResources = ''discover_resources''"
definition OutboundPhaseVerifyConnection :: string where "OutboundPhaseVerifyConnection = ''verify_connection''"

lemmas phase_defs = OutboundPhaseIssueCredential_def OutboundPhaseExecuteAction_def OutboundPhaseVerifyAction_def
  OutboundPhaseDiscoverResources_def OutboundPhaseVerifyConnection_def

definition phases :: "string list" where
  "phases = [OutboundPhaseIssueCredential, OutboundPhaseExecuteAction, OutboundPhaseVerifyAction,
     OutboundPhaseDiscoverResources, OutboundPhaseVerifyConnection]"

section \<open>Registrations\<close>

record RuntimeRegistration =
  rr_Protocol :: string
  rr_ConnectionID :: string
  rr_Provider :: string
  rr_Release :: string
  rr_ManifestDigest :: string
  rr_RuntimeArtifactDigest :: string
  rr_RuntimeID :: string

definition RuntimeRegistration_Validate :: "RuntimeRegistration \<Rightarrow> Manifest \<Rightarrow> string \<Rightarrow> unit result" where
  "RuntimeRegistration_Validate r manifest manifestDigest =
     (if rr_Protocol r \<noteq> OutboundRuntimeProtocol \<or> TransportMode (ma_Broker manifest) \<noteq> BrokerTransportOutboundPull \<or>
         rr_Provider r \<noteq> ma_Provider manifest \<or> rr_Release r \<noteq> ma_Release manifest \<or> rr_ManifestDigest r \<noteq> manifestDigest \<or>
         blank (rr_ConnectionID r) \<or> blank (rr_RuntimeID r) \<or> \<not> digestPattern (rr_RuntimeArtifactDigest r)
      then fail ''outbound runtime registration identity is invalid''
      else if list_ex (\<lambda>artifact. rt_Digest artifact = rr_RuntimeArtifactDigest r) (br_RuntimeArtifacts (ma_Broker manifest))
      then ok
      else fail ''outbound runtime artifact is not admitted by the signed release'')"

section \<open>Dispatches\<close>

record DispatchClaim =
  dc_Protocol :: string
  dc_ConnectionID :: string
  dc_RuntimeID :: string

record Dispatch =
  di_Protocol :: string
  di_ID :: string
  di_ConnectionID :: string
  di_Phase :: string
  di_Request :: string
  di_RequestDigest :: string
  di_ClaimToken :: string
  di_ClaimedAt :: gotime
  di_ExpiresAt :: gotime

definition DispatchRequestDigest :: "string \<Rightarrow> string \<Rightarrow> string result" where
  "DispatchRequestDigest phase request =
     (if phase \<noteq> OutboundPhaseDiscoverResources \<and> phase \<noteq> OutboundPhaseVerifyConnection then JSONDigest request
      else and_then (decodeParameterJSON request) (\<lambda>decoded.
             Inr (sha_digest (Marshal_any (canonicalDiscoveryNumbers decoded)))))"

definition Dispatch_Validate :: "Dispatch \<Rightarrow> gotime \<Rightarrow> unit result" where
  "Dispatch_Validate d now =
     (if di_Protocol d \<noteq> OutboundRuntimeProtocol \<or> blank (di_ID d) \<or> blank (di_ConnectionID d) \<or>
         blank (di_ClaimToken d) \<or> IsZero (di_ClaimedAt d) \<or> IsZero (di_ExpiresAt d) \<or>
         \<not> After (di_ExpiresAt d) now \<or> Before (di_ExpiresAt d) (di_ClaimedAt d)
      then fail ''outbound dispatch identity or lifetime is invalid''
      else if di_Phase d \<notin> set phases then fail ''outbound dispatch phase is invalid''
      else if DispatchRequestDigest (di_Phase d) (di_Request d) \<noteq> Inr (di_RequestDigest d)
      then fail ''outbound dispatch request digest does not match'' else ok)"

record DispatchResult =
  do_Protocol :: string
  do_DispatchID :: string
  do_ConnectionID :: string
  do_RuntimeID :: string
  do_Phase :: string
  do_RequestDigest :: string
  do_ClaimToken :: string
  do_Response :: string
  do_ResponseDigest :: string
  do_Failure :: string
  do_CompletedAt :: gotime

definition DispatchResult_Validate :: "DispatchResult \<Rightarrow> unit result" where
  "DispatchResult_Validate r =
     (if do_Protocol r \<noteq> OutboundRuntimeProtocol \<or> blank (do_DispatchID r) \<or> blank (do_ConnectionID r) \<or>
         blank (do_RuntimeID r) \<or> blank (do_ClaimToken r) \<or> \<not> authorizationDigestPattern (do_RequestDigest r) \<or>
         IsZero (do_CompletedAt r)
      then fail ''outbound dispatch result identity is invalid''
      else if do_Phase r \<notin> set phases then fail ''outbound dispatch result phase is invalid''
      else if \<not> blank (do_Failure r)
      then (if length (do_Response r) \<noteq> 0 \<or> \<not> blank (do_ResponseDigest r)
            then fail ''failed outbound dispatch cannot include a response'' else ok)
      else if JSONDigest (do_Response r) \<noteq> Inr (do_ResponseDigest r)
      then fail ''outbound dispatch response digest does not match'' else ok)"

section \<open>What validation decides\<close>

lemma RuntimeRegistration_Validate_ok [result_iff]:
  "RuntimeRegistration_Validate r m md = ok \<longleftrightarrow> rr_Protocol r = OutboundRuntimeProtocol \<and>
     TransportMode (ma_Broker m) = BrokerTransportOutboundPull \<and> rr_Provider r = ma_Provider m \<and>
     rr_Release r = ma_Release m \<and> rr_ManifestDigest r = md \<and> \<not> blank (rr_ConnectionID r) \<and> \<not> blank (rr_RuntimeID r) \<and>
     digestPattern (rr_RuntimeArtifactDigest r) \<and>
     rr_RuntimeArtifactDigest r \<in> rt_Digest ` set (br_RuntimeArtifacts (ma_Broker m))"
  by (auto simp: RuntimeRegistration_Validate_def list_ex_iff intro: rev_image_eqI)

lemma Dispatch_Validate_ok [result_iff]:
  "Dispatch_Validate d now = ok \<longleftrightarrow> di_Protocol d = OutboundRuntimeProtocol \<and> \<not> blank (di_ID d) \<and>
     \<not> blank (di_ConnectionID d) \<and> \<not> blank (di_ClaimToken d) \<and> \<not> IsZero (di_ClaimedAt d) \<and> \<not> IsZero (di_ExpiresAt d) \<and>
     inst now < inst (di_ExpiresAt d) \<and> inst (di_ClaimedAt d) \<le> inst (di_ExpiresAt d) \<and> di_Phase d \<in> set phases \<and>
     DispatchRequestDigest (di_Phase d) (di_Request d) = Inr (di_RequestDigest d)"
  by (auto simp: Dispatch_Validate_def time_defs)

lemma DispatchResult_Validate_ok [result_iff]:
  "DispatchResult_Validate r = ok \<longleftrightarrow> do_Protocol r = OutboundRuntimeProtocol \<and> \<not> blank (do_DispatchID r) \<and>
     \<not> blank (do_ConnectionID r) \<and> \<not> blank (do_RuntimeID r) \<and> \<not> blank (do_ClaimToken r) \<and>
     digestPattern (do_RequestDigest r) \<and> \<not> IsZero (do_CompletedAt r) \<and> do_Phase r \<in> set phases \<and>
     (if blank (do_Failure r) then JSONDigest (do_Response r) = Inr (do_ResponseDigest r)
      else do_Response r = [] \<and> blank (do_ResponseDigest r))"
  by (auto simp: DispatchResult_Validate_def authorizationDigestPattern_def)

text \<open>Phases whose requests are digested over exact numbers.\<close>

definition exact_phases :: "string set" where
  "exact_phases = {OutboundPhaseDiscoverResources, OutboundPhaseVerifyConnection}"

lemma DispatchRequestDigest_iff [result_iff]:
  "DispatchRequestDigest phase s = Inr d \<longleftrightarrow>
     (if phase \<in> exact_phases
      then \<exists>v. decodeParameterJSON s = Inr v \<and> d = sha_digest (Marshal_any (canonicalDiscoveryNumbers v))
      else JSONDigest s = Inr d)"
  by (auto simp: DispatchRequestDigest_def exact_phases_def and_then_Inr)

end
