(* ===== verification/Releases.thy ===== *)
theory Releases
  imports Manifests
begin

text \<open>
  What a release digest and a publisher signature establish: the canonical bytes determine
  the manifest, a signed manifest verifies for its publisher, and a verified manifest is the
  one the publisher's key signed, up to a SHA-256 collision.
\<close>

section \<open>The canonical bytes determine the manifest\<close>

definition same_credential :: "Credential \<Rightarrow> Credential \<Rightarrow> bool" where
  "same_credential c d \<longleftrightarrow> cr_Kind c = cr_Kind d \<and> cr_MaximumTTLSeconds c = cr_MaximumTTLSeconds d \<and>
     cr_RevocationSemantics c = cr_RevocationSemantics d \<and> same_any (cr_PayloadSchema c) (cr_PayloadSchema d) \<and>
     cr_AuthorizationFeatures c = cr_AuthorizationFeatures d \<and> cr_LifetimeProtocol c = cr_LifetimeProtocol d"

definition same_manifest :: "Manifest \<Rightarrow> Manifest \<Rightarrow> bool" where
  "same_manifest m n \<longleftrightarrow> ma_Protocol m = ma_Protocol n \<and> ma_Publisher m = ma_Publisher n \<and>
     ma_Compatibility m = ma_Compatibility n \<and> ma_Release m = ma_Release n \<and> ma_Provider m = ma_Provider n \<and>
     same_any (ma_ConfigurationSchema m) (ma_ConfigurationSchema n) \<and>
     rel_option same_credential (ma_Credential m) (ma_Credential n) \<and> ma_Renderer m = ma_Renderer n \<and>
     ma_Broker m = ma_Broker n \<and> list_all2 same_capability (ma_Actions m) (ma_Actions n)"

lemma artifact_json_inject [simp]:
  "RendererArtifact_json a = RendererArtifact_json b \<longleftrightarrow> a = b"
  "RuntimeArtifact_json c = RuntimeArtifact_json d \<longleftrightarrow> c = d"
  by (auto simp: RendererArtifact_json_def RuntimeArtifact_json_def)

lemma artifact_json_lits [simp]:
  "lits (RendererArtifact_json a) = RendererArtifact_json a"
  "lits (RuntimeArtifact_json c) = RuntimeArtifact_json c"
  by (simp_all add: RendererArtifact_json_def RuntimeArtifact_json_def)

lemma artifact_lists [simp]:
  "map (\<lambda>a. lits (RendererArtifact_json a)) xs = map RendererArtifact_json xs"
  "map RendererArtifact_json xs = map RendererArtifact_json xs' \<longleftrightarrow> xs = xs'"
  "map RuntimeArtifact_json ys = map RuntimeArtifact_json ys' \<longleftrightarrow> ys = ys'"
  by (simp_all add: inj_map_eq_map inj_def)

lemma Broker_json_inject:
  assumes "lits (Broker_json b) = lits (Broker_json c)"
  shows "b = c"
proof -
  note m = member_eq [OF assms]
  note p = m [of "''protocol''"] m [of "''transport''"] m [of "''endpoint''"] m [of "''runtime_artifacts''"]
    m [of "''connection_verification''"]
  from p show ?thesis
    by (intro Broker.equality) (simp_all add: Broker_json_def comp_def split: if_splits)
qed

lemma Renderer_json_inject:
  assumes "lits (Renderer_json r) = lits (Renderer_json s)"
  shows "r = s"
proof -
  note m = member_eq [OF assms]
  note p = m [of "''protocol''"] m [of "''executable''"] m [of "''artifacts''"] m [of "''sensitive_environment''"]
  from p show ?thesis
    by (intro Renderer.equality) (simp_all add: Renderer_json_def comp_def split: if_splits)
qed

lemma Credential_json_same:
  assumes "lits (Credential_json c) = lits (Credential_json d)"
  shows "same_credential c d"
proof -
  note m = member_eq [OF assms]
  note p = m [of "''kind''"] m [of "''maximum_ttl_seconds''"] m [of "''revocation_semantics''"]
    m [of "''payload_schema''"] m [of "''authorization_features''"] m [of "''lifetime_protocol''"]
  from p show ?thesis
    by (simp add: same_credential_def same_any_def Credential_json_def split: if_splits)
qed

lemma capabilities_json_same:
  "map (\<lambda>a. lits (ActionCapability_json a)) xs = map (\<lambda>a. lits (ActionCapability_json a)) ys \<longleftrightarrow>
     list_all2 same_capability xs ys"
  by (simp add: list_eq_iff_nth_eq list_all2_conv_all_nth capability_json_same cong: conj_cong)

lemma manifest_json_same:
  assumes "lits (Manifest_json m) = lits (Manifest_json n)"
  shows "same_manifest m n"
proof -
  note e = member_eq [OF assms]
  note o = option.case_distrib [of "map (\<lambda>(k, v). (k, lits v))"] option.case_distrib [of "lookup _"]
  note d = Manifest_json_def comp_def
  have basic: "ma_Protocol m = ma_Protocol n" "ma_Publisher m = ma_Publisher n"
    "ma_Compatibility m = ma_Compatibility n" "ma_Release m = ma_Release n" "ma_Provider m = ma_Provider n"
    "same_any (ma_ConfigurationSchema m) (ma_ConfigurationSchema n)"
    using e [of "''protocol''"] e [of "''publisher''"] e [of "''compatibility''"] e [of "''release''"]
      e [of "''provider''"] e [of "''configuration_schema''"]
    by (auto simp: d same_any_def intro: Publisher.equality Compatibility.equality)
  have credential: "rel_option same_credential (ma_Credential m) (ma_Credential n)"
    using e [of "''credential''"] Credential_json_same
    by (cases "ma_Credential m"; cases "ma_Credential n"; cases "ma_Renderer m"; cases "ma_Renderer n") (auto simp: d)
  have renderer: "ma_Renderer m = ma_Renderer n"
    using e [of "''renderer''"] Renderer_json_inject
    by (cases "ma_Credential m"; cases "ma_Credential n"; cases "ma_Renderer m"; cases "ma_Renderer n") (auto simp: d)
  have broker: "ma_Broker m = ma_Broker n"
    using e [of "''broker''"] Broker_json_inject
    by (cases "ma_Credential m"; cases "ma_Credential n"; cases "ma_Renderer m"; cases "ma_Renderer n") (auto simp: d)
  have actions: "list_all2 same_capability (ma_Actions m) (ma_Actions n)"
    unfolding capabilities_json_same [symmetric] using e [of "''actions''"]
    by (cases "ma_Credential m"; cases "ma_Credential n"; cases "ma_Renderer m"; cases "ma_Renderer n")
      (auto simp: d split: if_splits)
  show ?thesis using basic credential renderer broker actions by (simp add: same_manifest_def)
qed

text \<open>
  Manifests whose text is written without loss: schemas without broken strings, and the two
  free-form texts that validation does not restrict to ASCII valid UTF-8.
\<close>

definition manifest_utf8 :: "Manifest \<Rightarrow> bool" where
  "manifest_utf8 m \<longleftrightarrow> wf_json (ma_ConfigurationSchema m) \<and>
     (\<forall>c. ma_Credential m = Some c \<longrightarrow> wf_json (cr_PayloadSchema c)) \<and>
     (\<forall>a \<in> set (ma_Actions m). wf_schemas a) \<and>
     ValidString (br_Endpoint (ma_Broker m)) \<and>
     (\<forall>a \<in> set (br_RuntimeArtifacts (ma_Broker m)). ValidString (rt_Reference a))"

lemma manifest_names_valid:
  "list_all ValidString [''protocol'', ''publisher'', ''id'', ''key_id'', ''compatibility'', ''major'', ''release'',
     ''provider'', ''configuration_schema'', ''credential'', ''renderer'', ''broker'', ''actions'', ''kind'',
     ''maximum_ttl_seconds'', ''revocation_semantics'', ''payload_schema'', ''authorization_features'',
     ''lifetime_protocol'', ''executable'', ''artifacts'', ''sensitive_environment'', ''os'', ''arch'', ''digest'',
     ''reference'', ''transport'', ''endpoint'', ''runtime_artifacts'', ''connection_verification'',
     ManifestProtocol, BrokerProtocol, RendererProtocol, CredentialLifetimeProtocol, ConnectionVerificationProtocol,
     BrokerTransportInboundHTTPS, BrokerTransportOutboundPull, AuthorizationExactResourcesV1,
     AuthorizationParameterLimitsV1, AuthorizationCapabilityBindingsV1, []]"
  by (rule ascii_list) (simp add: manifest_protocols feature_defs)

lemma wf_omit [simp]: "list_all P (omit absent k v) \<longleftrightarrow> absent \<or> P (k, v)"
  by (simp add: omit_def)

lemma Credential_json_wf:
  assumes "credential_ok c r" "wf_json (cr_PayloadSchema c)"
  shows "wf_json (Credential_json c)"
proof -
  have "list_all ValidString (cr_AuthorizationFeatures c)"
    using assms(1) manifest_names_valid by (auto simp: credential_ok_def known_features_def list_all_iff)
  then show ?thesis
    using assms manifest_names_valid by (auto simp: Credential_json_def credential_ok_def pattern_valid)
qed

lemma Renderer_json_wf: "credential_ok c r \<Longrightarrow> wf_json (Renderer_json r)"
  using manifest_names_valid
  by (auto simp: Renderer_json_def RendererArtifact_json_def credential_ok_def renderer_artifact_ok_def
      list_all_iff pattern_valid)

lemma Broker_json_wf:
  assumes "check_broker b = ok" "ValidString (br_Endpoint b)"
    "\<forall>a \<in> set (br_RuntimeArtifacts b). ValidString (rt_Reference a)"
  shows "wf_json (Broker_json b)"
proof -
  have "ValidString (br_Transport b)" "ValidString (br_ConnectionVerification b)" "ValidString (br_Protocol b)"
    using assms(1) manifest_names_valid by (auto simp: broker_ok TransportMode_def split: if_splits)
  then show ?thesis
    using assms manifest_names_valid
    by (auto simp: Broker_json_def RuntimeArtifact_json_def broker_ok runtime_artifact_ok_def list_all_iff pattern_valid)
qed

lemma manifest_json_wf:
  assumes ok: "manifest_ok m" and utf8: "manifest_utf8 m"
  shows "wf_json (Manifest_json m)"
proof -
  have broker: "wf_json (Broker_json (ma_Broker m))"
    using assms by (intro Broker_json_wf) (auto simp: manifest_ok_def manifest_utf8_def)
  have actions: "\<forall>a \<in> set (ma_Actions m). wf_json (ActionCapability_json a)"
    using assms capability_json_wf by (auto simp: manifest_ok_def manifest_utf8_def)
  have parts: "(case ma_Credential m of None \<Rightarrow> True | Some c \<Rightarrow> wf_json (Credential_json c)) \<and>
      (case ma_Renderer m of None \<Rightarrow> True | Some r \<Rightarrow> wf_json (Renderer_json r))"
    using assms Credential_json_wf Renderer_json_wf
    by (auto simp: manifest_ok_def manifest_utf8_def split: option.splits)
  show ?thesis
    using ok utf8 broker actions parts manifest_names_valid
    by (auto simp: Manifest_json_def manifest_ok_def manifest_utf8_def pattern_valid list_all_iff split: option.splits)
qed

section \<open>The release digest\<close>

lemma Canonical_iff [result_iff]:
  "Canonical m = Inr e \<longleftrightarrow> manifest_ok m \<and> e = json_text (Manifest_json m)"
  by (auto simp: Canonical_def and_then_Inr Manifest_Validate_ok)

lemma Digest_iff [result_iff]:
  "Digest m = Inr d \<longleftrightarrow> manifest_ok m \<and> d = sha_digest (json_text (Manifest_json m))"
  by (auto simp: Digest_def and_then_Inr Canonical_iff)

definition manifest_encoding :: "Manifest \<Rightarrow> string \<Rightarrow> bool" where
  "manifest_encoding m e \<longleftrightarrow> Canonical m = Inr e"

interpretation manifest_binding: digest_binding Digest manifest_encoding same_manifest manifest_utf8
proof unfold_locales
  show "\<exists>e. manifest_encoding m e \<and> d = sha_digest e" if "Digest m = Inr d" for m d
    using that by (simp add: manifest_encoding_def Digest_iff Canonical_iff)
  show "same_manifest m n"
    if "manifest_encoding m e" "manifest_encoding n e" "manifest_utf8 m" "manifest_utf8 n" for m n e
    using that json_text_inject manifest_json_wf manifest_json_same
    unfolding manifest_encoding_def Canonical_iff by metis
qed

section \<open>Signatures\<close>

text \<open>
  What Ed25519 documents: a signature made with a private key verifies under its public key.
\<close>

definition signs_for :: "signer \<Rightarrow> verifier \<Rightarrow> string \<Rightarrow> string \<Rightarrow> bool" where
  "signs_for sg vf privateKey publicKey \<longleftrightarrow> length privateKey = 64 \<and> length publicKey = 32 \<and>
     (\<forall>msg. vf publicKey msg (sg privateKey msg))"

lemma Sign_iff [result_iff]:
  "Sign sg m k = Inr s \<longleftrightarrow> length k = 64 \<and> manifest_ok m \<and>
     s = \<lparr> sm_Manifest = m, sm_Digest = sha_digest (json_text (Manifest_json m)),
           sm_Signature = RawURL_EncodeToString (sg k (json_text (Manifest_json m))) \<rparr>"
  by (auto simp: Sign_def and_then_Inr Canonical_iff)

lemma Verify_iff [result_iff]:
  "Verify vf s t = ok \<longleftrightarrow> pu_ID (ma_Publisher (sm_Manifest s)) = tp_ID t \<and>
     pu_KeyID (ma_Publisher (sm_Manifest s)) = tp_KeyID t \<and> length (tp_PublicKey t) = 32 \<and>
     Digest (sm_Manifest s) = Inr (sm_Digest s) \<and>
     (\<exists>sig. RawURL_DecodeString (sm_Signature s) = Some sig \<and>
        vf (tp_PublicKey t) (json_text (Manifest_json (sm_Manifest s))) sig)"
  unfolding Verify_def if_fail_Inr and_then_Inr Canonical_iff Digest_iff
  by (auto split: option.splits)

end
