(* ===== verification/Services.thy ===== *)
theory Services
  imports Wire Outbound Releases
begin

text \<open>
  Services that guard a provider implementation: connection verification
  (\<open>connection_verification.go\<close>) and resource discovery (\<open>discovery_transport.go\<close>), called
  directly or through an outbound dispatch.

  The implementation is a parameter. A call of it is an \<open>outcome\<close>: what it returned, how
  long it took, and whether the caller's context was cancelled meanwhile. A context is the
  error it already has and the time left until its deadline; it has expired when the call
  took at least that long.
\<close>

section \<open>Contexts and implementations\<close>

record go_context =
  cx_Err :: "string option"
  cx_Remaining :: "int option"

record 'a outcome =
  oc_Result :: "'a result"
  oc_Elapsed :: int
  oc_Cancelled :: bool

definition WithTimeout :: "go_context \<Rightarrow> int \<Rightarrow> go_context" where
  "WithTimeout ctx d = ctx\<lparr>cx_Remaining := Some (case cx_Remaining ctx of None \<Rightarrow> d | Some r \<Rightarrow> min r d)\<rparr>"

text \<open>\<open>ctx.Err()\<close> before and after a call.\<close>

definition ctx_Err :: "go_context \<Rightarrow> unit result" where
  "ctx_Err ctx = (case cx_Err ctx of None \<Rightarrow> ok | Some m \<Rightarrow> fail m)"

definition ctx_Err_after :: "go_context \<Rightarrow> 'a outcome \<Rightarrow> unit result" where
  "ctx_Err_after ctx out =
     and_then (ctx_Err ctx) (\<lambda>_.
       if oc_Cancelled out then fail ''context canceled''
       else case cx_Remaining ctx of
              None \<Rightarrow> ok
            | Some r \<Rightarrow> if oc_Elapsed out \<ge> r then fail ''context deadline exceeded'' else ok)"

lemma ctx_Err_after_ok:
  "ctx_Err_after ctx out = ok \<longleftrightarrow> ctx_Err ctx = ok \<and> \<not> oc_Cancelled out \<and>
     (\<forall>r. cx_Remaining ctx = Some r \<longrightarrow> oc_Elapsed out < r)"
  by (auto simp: ctx_Err_after_def and_then_Inr split: option.split)

section \<open>Connection verification\<close>

record ConnectionVerificationResult =
  cv_Protocol :: string
  cv_RequestDigest :: string
  cv_TargetIdentity :: string
  cv_VerifiedAt :: gotime
  cv_EvidenceDigest :: string

definition connectionVerificationAge :: int where
  "connectionVerificationAge = Minute"

definition VerifyConnectionRequestDigest :: "VerifyRequest \<Rightarrow> string result" where
  "VerifyConnectionRequestDigest request =
     and_then (VerifyRequest_text request) (\<lambda>encoded. DispatchRequestDigest OutboundPhaseVerifyConnection encoded)"

definition ValidateConnectionVerificationRequest :: "VerifyRequest \<Rightarrow> Manifest \<Rightarrow> gotime \<Rightarrow> unit result" where
  "ValidateConnectionVerificationRequest request manifest now =
     (if br_ConnectionVerification (ma_Broker manifest) \<noteq> ConnectionVerificationProtocol \<or>
         vr_Provider request \<noteq> ma_Provider manifest \<or> vr_Release request \<noteq> ma_Release manifest
      then fail ''connection verification release is not supported''
      else if list_ex blank [vr_RequestID request, vr_TenantID request, vr_ConnectionID request, vr_AccountRef request]
      then fail ''connection verification identity is incomplete''
      else if IsZero now \<or> IsZero (vr_Now request) \<or> After (vr_Now request) (AddT now (30 * Second)) \<or>
         \<not> After (AddT (vr_Now request) connectionVerificationAge) now
      then fail ''connection verification request is stale or future dated''
      else and_then (or_fail (decodeParameterJSON (vr_Configuration request)) ''connection configuration is invalid'') (\<lambda>_. ok))"

definition ConnectionVerificationResult_Validate ::
  "ConnectionVerificationResult \<Rightarrow> VerifyRequest \<Rightarrow> gotime \<Rightarrow> unit result" where
  "ConnectionVerificationResult_Validate r request now =
     (if VerifyConnectionRequestDigest request \<noteq> Inr (cv_RequestDigest r) \<or>
         cv_Protocol r \<noteq> ConnectionVerificationProtocol \<or> \<not> digestPattern (cv_EvidenceDigest r) \<or>
         blank (cv_TargetIdentity r) \<or> length (cv_TargetIdentity r) > 2048
      then fail ''connection verification result does not bind the requested target''
      else if IsZero now \<or> IsZero (vr_Now request) \<or> IsZero (cv_VerifiedAt r) \<or>
         Before (cv_VerifiedAt r) (AddT (vr_Now request) (- 30 * Second)) \<or>
         After (cv_VerifiedAt r) (AddT now (30 * Second)) \<or> \<not> After (AddT (vr_Now request) connectionVerificationAge) now
      then fail ''connection verification result is stale or future dated'' else ok)"

record ConnectionVerificationService =
  cvs_Manifest :: Manifest
  cvs_ManifestDigest :: string
  cvs_Implementation :: "(go_context \<Rightarrow> VerifyRequest \<Rightarrow> ConnectionVerificationResult outcome) option"

definition Service_VerifyConnection ::
  "ConnectionVerificationService \<Rightarrow> go_context \<Rightarrow> VerifyRequest \<Rightarrow> gotime \<Rightarrow> ConnectionVerificationResult result" where
  "Service_VerifyConnection s ctx request now =
     (if Digest (cvs_Manifest s) \<noteq> Inr (cvs_ManifestDigest s) \<or> cvs_Implementation s = None
      then fail ''connection verification service release is invalid''
      else and_then (ValidateConnectionVerificationRequest request (cvs_Manifest s) now) (\<lambda>_.
           and_then (ctx_Err ctx) (\<lambda>_.
             let ctx = WithTimeout ctx (SubT (AddT (vr_Now request) connectionVerificationAge) now);
                 out = the (cvs_Implementation s) ctx request
             in and_then (oc_Result out) (\<lambda>result.
                and_then (ctx_Err_after ctx out) (\<lambda>_.
                and_then (ConnectionVerificationResult_Validate result request (AddT now (oc_Elapsed out))) (\<lambda>_.
                  Inr result))))))"

definition Dispatch_VerifyConnection ::
  "Dispatch \<Rightarrow> go_context \<Rightarrow> ConnectionVerificationService \<Rightarrow> gotime \<Rightarrow> ConnectionVerificationResult result" where
  "Dispatch_VerifyConnection d ctx service now =
     and_then (Dispatch_Validate d now) (\<lambda>_.
       if di_Phase d \<noteq> OutboundPhaseVerifyConnection \<or>
          TransportMode (ma_Broker (cvs_Manifest service)) \<noteq> BrokerTransportOutboundPull
       then fail ''not an outbound connection verification dispatch''
       else case decodeStrict verify_fields zero_verify (di_Request d) of
              None \<Rightarrow> fail ''connection verification dispatch identity mismatch''
            | Some request \<Rightarrow>
                if vr_ConnectionID request \<noteq> di_ConnectionID d
                then fail ''connection verification dispatch identity mismatch''
                else Service_VerifyConnection service (WithTimeout ctx (SubT (di_ExpiresAt d) now)) request now)"

section \<open>Resource discovery\<close>

record DiscoveryService =
  dsv_Manifest :: Manifest
  dsv_ManifestDigest :: string
  dsv_Implementation :: "(go_context \<Rightarrow> DiscoveryRequest \<Rightarrow> DiscoveryPage outcome) option"

definition DiscoveryService_Validate :: "DiscoveryService \<Rightarrow> unit result" where
  "DiscoveryService_Validate s =
     (if Digest (dsv_Manifest s) \<noteq> Inr (dsv_ManifestDigest s) \<or> dsv_Implementation s = None
      then fail ''discovery service release is invalid''
      else if list_ex (\<lambda>capability. ac_Discovery capability \<noteq> None) (ma_Actions (dsv_Manifest s)) then ok
      else fail ''release does not declare resource discovery'')"

text \<open>The loop over the capabilities stops at the first with the requested reference.\<close>

definition Service_DiscoverResources ::
  "DiscoveryService \<Rightarrow> go_context \<Rightarrow> DiscoveryRequest \<Rightarrow> gotime \<Rightarrow> DiscoveryPage result" where
  "Service_DiscoverResources s ctx request now =
     and_then (ctx_Err ctx) (\<lambda>_.
     and_then (DiscoveryService_Validate s) (\<lambda>_.
       if dr_Provider request \<noteq> ma_Provider (dsv_Manifest s) \<or> dr_Release request \<noteq> ma_Release (dsv_Manifest s) \<or>
          dr_ManifestDigest request \<noteq> dsv_ManifestDigest s
       then fail ''discovery request does not match the enrolled release''
       else case find (\<lambda>capability. ac_Ref capability = dr_CapabilityRef request) (ma_Actions (dsv_Manifest s)) of
              None \<Rightarrow> fail ''release does not contain the requested discovery capability''
            | Some capability \<Rightarrow>
                and_then (ValidateAt request capability now) (\<lambda>_.
                  let age = (case ac_Discovery capability of None \<Rightarrow> 0 | Some d \<Rightarrow> rd_MaximumAgeSeconds d);
                      ctx = WithTimeout ctx (SubT (AddT (dr_Now request) (seconds age)) now);
                      out = the (dsv_Implementation s) ctx request
                  in and_then (oc_Result out) (\<lambda>page.
                     and_then (ctx_Err_after ctx out) (\<lambda>_.
                     and_then (DiscoveryPage_Validate page request capability (AddT now (oc_Elapsed out))) (\<lambda>_.
                       Inr page))))))"

definition Dispatch_DiscoverResources ::
  "Dispatch \<Rightarrow> go_context \<Rightarrow> DiscoveryService \<Rightarrow> gotime \<Rightarrow> DiscoveryPage result" where
  "Dispatch_DiscoverResources d ctx service now =
     and_then (Dispatch_Validate d now) (\<lambda>_.
       if di_Phase d \<noteq> OutboundPhaseDiscoverResources then fail ''not a resource discovery dispatch''
       else if TransportMode (ma_Broker (dsv_Manifest service)) \<noteq> BrokerTransportOutboundPull
       then fail ''release does not support outbound discovery''
       else case decodeStrict discovery_fields zero_discovery (di_Request d) of
              None \<Rightarrow> fail ''discovery dispatch connection mismatch''
            | Some request \<Rightarrow>
                if dr_ConnectionID request \<noteq> di_ConnectionID d then fail ''discovery dispatch connection mismatch''
                else Service_DiscoverResources service (WithTimeout ctx (SubT (di_ExpiresAt d) now)) request now)"

section \<open>What validation decides\<close>

lemma ConnectionRequest_ok [result_iff]:
  "ValidateConnectionVerificationRequest r m now = ok \<longleftrightarrow>
     br_ConnectionVerification (ma_Broker m) = ConnectionVerificationProtocol \<and>
     vr_Provider r = ma_Provider m \<and> vr_Release r = ma_Release m \<and>
     \<not> blank (vr_RequestID r) \<and> \<not> blank (vr_TenantID r) \<and> \<not> blank (vr_ConnectionID r) \<and> \<not> blank (vr_AccountRef r) \<and>
     \<not> IsZero now \<and> \<not> IsZero (vr_Now r) \<and> inst (vr_Now r) \<le> inst now + 30 * Second \<and>
     inst now < inst (vr_Now r) + Minute \<and> (\<exists>v. decodeParameterJSON (vr_Configuration r) = Inr v)"
  by (auto simp: ValidateConnectionVerificationRequest_def and_then_Inr or_fail_Inr time_defs connectionVerificationAge_def not_less)

lemma ConnectionResult_ok [result_iff]:
  "ConnectionVerificationResult_Validate r q now = ok \<longleftrightarrow>
     VerifyConnectionRequestDigest q = Inr (cv_RequestDigest r) \<and> cv_Protocol r = ConnectionVerificationProtocol \<and>
     digestPattern (cv_EvidenceDigest r) \<and> \<not> blank (cv_TargetIdentity r) \<and> length (cv_TargetIdentity r) \<le> 2048 \<and>
     \<not> IsZero now \<and> \<not> IsZero (vr_Now q) \<and> \<not> IsZero (cv_VerifiedAt r) \<and>
     inst (vr_Now q) - 30 * Second \<le> inst (cv_VerifiedAt r) \<and> inst (cv_VerifiedAt r) \<le> inst now + 30 * Second \<and>
     inst now < inst (vr_Now q) + Minute"
  by (auto simp: ConnectionVerificationResult_Validate_def time_defs connectionVerificationAge_def not_less)

lemma DiscoveryService_Validate_ok [result_iff]:
  "DiscoveryService_Validate s = ok \<longleftrightarrow> Digest (dsv_Manifest s) = Inr (dsv_ManifestDigest s) \<and>
     dsv_Implementation s \<noteq> None \<and> (\<exists>c \<in> set (ma_Actions (dsv_Manifest s)). ac_Discovery c \<noteq> None)"
  by (auto simp: DiscoveryService_Validate_def list_ex_iff)

section \<open>The contract of a guarded service\<close>

text \<open>
  Both services consult the implementation only for requests they admit, and pass on only
  answers that are sound for the request at the time of the answer.
\<close>

locale guarded_service =
  fixes serve :: "'i \<Rightarrow> 'req \<Rightarrow> gotime \<Rightarrow> 'resp result"
    and ask :: "'i \<Rightarrow> 'req \<Rightarrow> gotime \<Rightarrow> 'resp outcome"
    and admits :: "'req \<Rightarrow> gotime \<Rightarrow> bool"
    and sound :: "'req \<Rightarrow> 'resp \<Rightarrow> gotime \<Rightarrow> bool"
  assumes served: "serve i q now = Inr a \<Longrightarrow> admits q now \<and> oc_Result (ask i q now) = Inr a \<and>
            \<not> oc_Cancelled (ask i q now) \<and> sound q a (AddT now (oc_Elapsed (ask i q now)))"
    and not_consulted: "\<not> admits q now \<Longrightarrow> serve i q now = serve j q now"
begin

lemma refused: "\<not> admits q now \<Longrightarrow> \<exists>e. serve i q now = Inl e"
  using served by (cases "serve i q now") blast+

lemma consulted_admitted: "serve i q now \<noteq> serve j q now \<Longrightarrow> admits q now"
  using not_consulted by blast

lemma answer_sound: "serve i q now = Inr a \<Longrightarrow> \<exists>t. inst t = inst now + oc_Elapsed (ask i q now) \<and> sound q a t"
  using served [of i q now a] by (intro exI [of _ "AddT now (oc_Elapsed (ask i q now))"]) (simp add: AddT_def)

end

definition verification_ask ::
  "go_context \<Rightarrow> (go_context \<Rightarrow> VerifyRequest \<Rightarrow> ConnectionVerificationResult outcome) \<Rightarrow> VerifyRequest \<Rightarrow> gotime \<Rightarrow>
     ConnectionVerificationResult outcome" where
  "verification_ask ctx i q now = i (WithTimeout ctx (SubT (AddT (vr_Now q) connectionVerificationAge) now)) q"

definition verification_admits :: "ConnectionVerificationService \<Rightarrow> go_context \<Rightarrow> VerifyRequest \<Rightarrow> gotime \<Rightarrow> bool" where
  "verification_admits s ctx q now \<longleftrightarrow> Digest (cvs_Manifest s) = Inr (cvs_ManifestDigest s) \<and>
     ValidateConnectionVerificationRequest q (cvs_Manifest s) now = ok \<and> ctx_Err ctx = ok"

interpretation verification_service: guarded_service
  "\<lambda>i q now. Service_VerifyConnection (s\<lparr>cvs_Implementation := Some i\<rparr>) ctx q now"
  "verification_ask ctx" "verification_admits s ctx" "\<lambda>q r t. ConnectionVerificationResult_Validate r q t = ok" for s ctx
proof unfold_locales
  fix i q now a
  assume "Service_VerifyConnection (s\<lparr>cvs_Implementation := Some i\<rparr>) ctx q now = Inr a"
  then show "verification_admits s ctx q now \<and> oc_Result (verification_ask ctx i q now) = Inr a \<and>
      \<not> oc_Cancelled (verification_ask ctx i q now) \<and>
      ConnectionVerificationResult_Validate a q (AddT now (oc_Elapsed (verification_ask ctx i q now))) = ok"
    by (auto simp: Service_VerifyConnection_def verification_admits_def verification_ask_def and_then_Inr Let_def
        ctx_Err_after_ok split: if_splits)
next
  fix q now i j
  assume "\<not> verification_admits s ctx q now"
  then show "Service_VerifyConnection (s\<lparr>cvs_Implementation := Some i\<rparr>) ctx q now =
      Service_VerifyConnection (s\<lparr>cvs_Implementation := Some j\<rparr>) ctx q now"
    by (cases "ValidateConnectionVerificationRequest q (cvs_Manifest s) now"; cases "ctx_Err ctx")
      (auto simp: Service_VerifyConnection_def verification_admits_def)
qed

definition discovery_capability :: "DiscoveryService \<Rightarrow> DiscoveryRequest \<Rightarrow> ActionCapability option" where
  "discovery_capability s q = find (\<lambda>capability. ac_Ref capability = dr_CapabilityRef q) (ma_Actions (dsv_Manifest s))"

definition discovery_ask ::
  "DiscoveryService \<Rightarrow> go_context \<Rightarrow> (go_context \<Rightarrow> DiscoveryRequest \<Rightarrow> DiscoveryPage outcome) \<Rightarrow> DiscoveryRequest \<Rightarrow> gotime \<Rightarrow>
     DiscoveryPage outcome" where
  "discovery_ask s ctx i q now =
     i (WithTimeout ctx (SubT (AddT (dr_Now q) (seconds
          (case Option.bind (discovery_capability s q) ac_Discovery of None \<Rightarrow> 0 | Some d \<Rightarrow> rd_MaximumAgeSeconds d))) now)) q"

definition discovery_admits :: "DiscoveryService \<Rightarrow> go_context \<Rightarrow> DiscoveryRequest \<Rightarrow> gotime \<Rightarrow> bool" where
  "discovery_admits s ctx q now \<longleftrightarrow> ctx_Err ctx = ok \<and> Digest (dsv_Manifest s) = Inr (dsv_ManifestDigest s) \<and>
     dr_Provider q = ma_Provider (dsv_Manifest s) \<and> dr_Release q = ma_Release (dsv_Manifest s) \<and>
     dr_ManifestDigest q = dsv_ManifestDigest s \<and>
     (\<exists>c. discovery_capability s q = Some c \<and> ValidateAt q c now = ok)"

definition discovery_sound :: "DiscoveryService \<Rightarrow> DiscoveryRequest \<Rightarrow> DiscoveryPage \<Rightarrow> gotime \<Rightarrow> bool" where
  "discovery_sound s q p t \<longleftrightarrow> (\<exists>c \<in> set (ma_Actions (dsv_Manifest s)).
     ac_Ref c = dr_CapabilityRef q \<and> DiscoveryPage_Validate p q c t = ok)"

lemma discovery_capability_Some:
  "discovery_capability s q = Some c \<Longrightarrow> c \<in> set (ma_Actions (dsv_Manifest s)) \<and> ac_Ref c = dr_CapabilityRef q"
  unfolding discovery_capability_def by (auto simp: find_Some_iff)

lemma discovery_capability_impl [simp]:
  "find (\<lambda>capability. ac_Ref capability = dr_CapabilityRef q) (ma_Actions (dsv_Manifest s)) = discovery_capability s q"
  by (simp add: discovery_capability_def)

interpretation discovery_service: guarded_service
  "\<lambda>i q now. Service_DiscoverResources (s\<lparr>dsv_Implementation := Some i\<rparr>) ctx q now"
  "discovery_ask s ctx" "discovery_admits s ctx" "discovery_sound s" for s ctx
proof unfold_locales
  fix i q now a
  assume "Service_DiscoverResources (s\<lparr>dsv_Implementation := Some i\<rparr>) ctx q now = Inr a"
  then show "discovery_admits s ctx q now \<and> oc_Result (discovery_ask s ctx i q now) = Inr a \<and>
      \<not> oc_Cancelled (discovery_ask s ctx i q now) \<and>
      discovery_sound s q a (AddT now (oc_Elapsed (discovery_ask s ctx i q now)))"
    by (auto simp: Service_DiscoverResources_def discovery_admits_def discovery_ask_def discovery_sound_def and_then_Inr
        Let_def ctx_Err_after_ok DiscoveryService_Validate_def
        split: if_splits option.splits dest: discovery_capability_Some)
next
  fix q now i j
  assume n: "\<not> discovery_admits s ctx q now"
  have v: "DiscoveryService_Validate (s\<lparr>dsv_Implementation := Some i\<rparr>) = DiscoveryService_Validate (s\<lparr>dsv_Implementation := Some j\<rparr>)"
    for i j :: "go_context \<Rightarrow> DiscoveryRequest \<Rightarrow> DiscoveryPage outcome"
    by (simp add: DiscoveryService_Validate_def)
  show "Service_DiscoverResources (s\<lparr>dsv_Implementation := Some i\<rparr>) ctx q now =
      Service_DiscoverResources (s\<lparr>dsv_Implementation := Some j\<rparr>) ctx q now"
  proof (cases "ctx_Err ctx = ok \<and> DiscoveryService_Validate (s\<lparr>dsv_Implementation := Some i\<rparr>) = ok")
    case False
    then show ?thesis
      by (cases "ctx_Err ctx"; cases "DiscoveryService_Validate (s\<lparr>dsv_Implementation := Some i\<rparr>)")
        (simp_all add: Service_DiscoverResources_def v [of i j])
  next
    case True
    then have "Digest (dsv_Manifest s) = Inr (dsv_ManifestDigest s)" by (simp add: DiscoveryService_Validate_ok)
    with n True have "dr_Provider q \<noteq> ma_Provider (dsv_Manifest s) \<or> dr_Release q \<noteq> ma_Release (dsv_Manifest s) \<or>
        dr_ManifestDigest q \<noteq> dsv_ManifestDigest s \<or>
        (\<forall>c. discovery_capability s q = Some c \<longrightarrow> ValidateAt q c now \<noteq> ok)"
      by (auto simp: discovery_admits_def)
    then show ?thesis using True v [of i j]
      by (auto simp: Service_DiscoverResources_def unit_result_cases split: option.splits)
  qed
qed

end
