(* ===== verification/Http.thy ===== *)
theory Http
  imports Services
begin

text \<open>
  The signed HTTP exchange (\<open>protocol.go\<close>, \<open>http.go\<close>): message signatures, the handler with
  its cache of nonces, the six endpoints and the client.

  The state of a handler is its map of seen nonces. Readings of the clock are arguments,
  numbered in the order the code takes them; \<open>authenticate\<close> takes three, between taking
  the lock and releasing it the last two.
\<close>

section \<open>Signatures\<close>

definition Signature :: "string \<Rightarrow> string \<Rightarrow> string \<Rightarrow> string \<Rightarrow> string" where
  "Signature secret timestamp nonce body =
     ''sha256='' @ hex_EncodeToString
       (hmac_sha256 (bytes_of secret) (bytes_of (timestamp @ [CHR 0x0A] @ nonce @ [CHR 0x0A] @ body)))"

definition VerifySignature :: "string \<Rightarrow> string \<Rightarrow> string \<Rightarrow> string \<Rightarrow> string \<Rightarrow> gotime \<Rightarrow> unit result" where
  "VerifySignature secret timestamp nonce signature body now =
     (if (case ParseRFC3339 timestamp of
            None \<Rightarrow> True
          | Some parsed \<Rightarrow> Before parsed (AddT now (- 2 * Minute)) \<or> After parsed (AddT now (2 * Minute)))
      then fail ''adapter request timestamp is invalid''
      else if blank nonce \<or> Signature secret timestamp nonce body \<noteq> signature
      then fail ''adapter request signature is invalid'' else ok)"

lemma VerifySignature_ok [result_iff]:
  "VerifySignature secret ts nonce sig body now = ok \<longleftrightarrow>
     (\<exists>p. ParseRFC3339 ts = Some p \<and> inst now - 2 * Minute \<le> inst p \<and> inst p \<le> inst now + 2 * Minute) \<and>
     \<not> blank nonce \<and> sig = Signature secret ts nonce body"
  by (auto simp: VerifySignature_def time_defs split: option.split)

section \<open>Messages\<close>

text \<open>
  A request with the headers the code reads (absent headers are empty) and its body, or a
  read error; a response with the headers it writes. The path is that of the URL as it is written.
\<close>

record HttpRequest =
  hq_Path :: string
  hq_Release :: string
  hq_ManifestDigest :: string
  hq_Timestamp :: string
  hq_Nonce :: string
  hq_Signature :: string
  hq_Body :: "string option"

record HttpResponse =
  hr_Status :: nat
  hr_ManifestDigest :: string
  hr_Timestamp :: string
  hr_Signature :: string
  hr_Body :: string

definition maxProtocolBody :: nat where
  "maxProtocolBody = 1048576"

text \<open>\<open>http.Error\<close>\<close>

definition http_Error :: "string \<Rightarrow> nat \<Rightarrow> HttpResponse" where
  "http_Error message status =
     \<lparr> hr_Status = status, hr_ManifestDigest = [], hr_Timestamp = [], hr_Signature = [], hr_Body = message @ [CHR 0x0A] \<rparr>"

section \<open>The handler\<close>

record BrokerImplementation =
  bi_Prepare :: "PrepareRequest \<Rightarrow> Connection result"
  bi_Verify :: "VerifyRequest \<Rightarrow> Verification result"
  bi_Issue :: "IssueRequest \<Rightarrow> Material result"

record ActionImplementation =
  ai_ExecuteAction :: "ExecuteActionRequest \<Rightarrow> ActionExecution result"
  ai_VerifyAction :: "VerifyActionRequest \<Rightarrow> ActionVerification result"

record HTTPHandler =
  hh_Implementation :: "BrokerImplementation option"
  hh_Actions :: "ActionImplementation option"
  hh_Discovery :: "DiscoveryService option"
  hh_SharedSecret :: string
  hh_ManifestDigest :: string
  hh_Release :: string

type_synonym nonces = "string \<rightharpoonup> gotime"
type_synonym clock = "nat \<Rightarrow> gotime"

text \<open>\<open>for value, timestamp := range h.seen { if timestamp.Before(cutoff) { delete } }\<close>\<close>

definition purge :: "gotime \<Rightarrow> nonces \<Rightarrow> nonces" where
  "purge cutoff seen = (\<lambda>value. case seen value of
     None \<Rightarrow> None | Some timestamp \<Rightarrow> if Before timestamp cutoff then None else Some timestamp)"

text \<open>The body and nonce of an authentic request, and the nonces seen afterwards.\<close>

definition authenticate :: "HTTPHandler \<Rightarrow> clock \<Rightarrow> nonces \<Rightarrow> HttpRequest \<Rightarrow> (string \<times> string) option \<times> nonces" where
  "authenticate h clock seen r =
     (case hq_Body r of
        None \<Rightarrow> (None, seen)
      | Some content \<Rightarrow>
          let body = take (maxProtocolBody + 1) content
          in if length body > maxProtocolBody \<or> hq_Release r \<noteq> hh_Release h \<or> hq_ManifestDigest r \<noteq> hh_ManifestDigest h
             then (None, seen)
             else if VerifySignature (hh_SharedSecret h) (hq_Timestamp r) (hq_Nonce r) (hq_Signature r) body (UTC (clock 0)) \<noteq> ok
             then (None, seen)
             else let seen = purge (AddT (UTC (clock 1)) (- 3 * Minute)) seen
                  in if seen (hq_Nonce r) \<noteq> None \<or> blank (hq_Nonce r) then (None, seen)
                     else (Some (body, hq_Nonce r), seen(hq_Nonce r \<mapsto> UTC (clock 2))))"

definition respond :: "HTTPHandler \<Rightarrow> gotime \<Rightarrow> string \<Rightarrow> string result \<Rightarrow> HttpResponse" where
  "respond h now nonce value =
     (case value of
        Inl _ \<Rightarrow> http_Error ''adapter response failed'' 500
      | Inr body \<Rightarrow>
          let timestamp = FormatRFC3339 (UTC now)
          in \<lparr> hr_Status = 200, hr_ManifestDigest = hh_ManifestDigest h, hr_Timestamp = timestamp,
               hr_Signature = Signature (hh_SharedSecret h) timestamp nonce body, hr_Body = body \<rparr>)"

text \<open>A panic of an implementation is recovered by the HTTP server; the response is status 0.\<close>

definition panicked :: HttpResponse where
  "panicked = \<lparr> hr_Status = 0, hr_ManifestDigest = [], hr_Timestamp = [], hr_Signature = [], hr_Body = [] \<rparr>"

definition handlePrepare :: "HTTPHandler \<Rightarrow> clock \<Rightarrow> nonces \<Rightarrow> HttpRequest \<Rightarrow> HttpResponse \<times> nonces" where
  "handlePrepare h clock seen r =
     (case authenticate h clock seen r of
        (None, seen) \<Rightarrow> (http_Error ''unauthorized'' 401, seen)
      | (Some (body, nonce), seen) \<Rightarrow>
          ((case decodeStrict prepare_fields zero_prepare body of
              None \<Rightarrow> http_Error ''invalid request'' 400
            | Some request \<Rightarrow>
                if pr_Release request \<noteq> hh_Release h then http_Error ''invalid request'' 400
                else case hh_Implementation h of
                  None \<Rightarrow> panicked
                | Some impl \<Rightarrow>
                    (case bi_Prepare impl request of
                       Inl Panic \<Rightarrow> panicked
                     | Inl (Error _) \<Rightarrow> http_Error ''adapter failed'' 422
                     | Inr response \<Rightarrow> respond h (clock 3) nonce (Connection_text response))), seen))"

definition handleVerify :: "HTTPHandler \<Rightarrow> clock \<Rightarrow> nonces \<Rightarrow> HttpRequest \<Rightarrow> HttpResponse \<times> nonces" where
  "handleVerify h clock seen r =
     (case authenticate h clock seen r of
        (None, seen) \<Rightarrow> (http_Error ''unauthorized'' 401, seen)
      | (Some (body, nonce), seen) \<Rightarrow>
          ((case decodeStrict verify_fields zero_verify body of
              None \<Rightarrow> http_Error ''invalid request'' 400
            | Some request \<Rightarrow>
                if vr_Release request \<noteq> hh_Release h then http_Error ''invalid request'' 400
                else case hh_Implementation h of
                  None \<Rightarrow> panicked
                | Some impl \<Rightarrow>
                    (case bi_Verify impl request of
                       Inl Panic \<Rightarrow> panicked
                     | Inl (Error _) \<Rightarrow> http_Error ''adapter failed'' 422
                     | Inr response \<Rightarrow> respond h (clock 3) nonce (Verification_text response))), seen))"

definition handleIssue :: "HTTPHandler \<Rightarrow> clock \<Rightarrow> nonces \<Rightarrow> HttpRequest \<Rightarrow> HttpResponse \<times> nonces" where
  "handleIssue h clock seen r =
     (case authenticate h clock seen r of
        (None, seen) \<Rightarrow> (http_Error ''unauthorized'' 401, seen)
      | (Some (body, nonce), seen) \<Rightarrow>
          ((case decodeStrict issue_fields zero_issue body of
              None \<Rightarrow> http_Error ''invalid request'' 400
            | Some request \<Rightarrow>
                if is_Release request \<noteq> hh_Release h then http_Error ''invalid request'' 400
                else case hh_Implementation h of
                  None \<Rightarrow> panicked
                | Some impl \<Rightarrow>
                    (case bi_Issue impl request of
                       Inl Panic \<Rightarrow> panicked
                     | Inl (Error _) \<Rightarrow> http_Error ''adapter failed'' 422
                     | Inr response \<Rightarrow> respond h (clock 3) nonce (Material_text response))), seen))"

definition handleExecuteAction :: "HTTPHandler \<Rightarrow> clock \<Rightarrow> nonces \<Rightarrow> HttpRequest \<Rightarrow> HttpResponse \<times> nonces" where
  "handleExecuteAction h clock seen r =
     (case authenticate h clock seen r of
        (None, seen) \<Rightarrow> (http_Error ''unauthorized'' 401, seen)
      | (Some (body, nonce), seen) \<Rightarrow>
          ((case decodeStrict execute_fields zero_execute body of
              None \<Rightarrow> http_Error ''invalid request'' 400
            | Some request \<Rightarrow>
                if ex_Release request \<noteq> hh_Release h then http_Error ''invalid request'' 400
                else case hh_Actions h of
                  None \<Rightarrow> http_Error ''invalid request'' 400
                | Some actions \<Rightarrow>
                    (case ai_ExecuteAction actions request of
                       Inl Panic \<Rightarrow> panicked
                     | Inl (Error _) \<Rightarrow> http_Error ''adapter failed'' 422
                     | Inr response \<Rightarrow>
                         if ActionExecution_Validate response \<noteq> ok then http_Error ''adapter returned invalid execution'' 502
                         else respond h (clock 3) nonce (ActionExecution_text response))), seen))"

definition handleVerifyAction :: "HTTPHandler \<Rightarrow> clock \<Rightarrow> nonces \<Rightarrow> HttpRequest \<Rightarrow> HttpResponse \<times> nonces" where
  "handleVerifyAction h clock seen r =
     (case authenticate h clock seen r of
        (None, seen) \<Rightarrow> (http_Error ''unauthorized'' 401, seen)
      | (Some (body, nonce), seen) \<Rightarrow>
          ((case decodeStrict verify_action_fields zero_verify_action body of
              None \<Rightarrow> http_Error ''invalid request'' 400
            | Some request \<Rightarrow>
                if va_Release request \<noteq> hh_Release h then http_Error ''invalid request'' 400
                else case hh_Actions h of
                  None \<Rightarrow> http_Error ''invalid request'' 400
                | Some actions \<Rightarrow>
                    (case ai_VerifyAction actions request of
                       Inl Panic \<Rightarrow> panicked
                     | Inl (Error _) \<Rightarrow> http_Error ''adapter failed'' 422
                     | Inr response \<Rightarrow>
                         if ActionVerification_Validate response \<noteq> ok then http_Error ''adapter returned invalid verification'' 502
                         else respond h (clock 3) nonce (ActionVerification_text response))), seen))"

text \<open>Discovery reads the clock once more, for the service; the context is the request's.\<close>

definition handleDiscoverResources ::
  "HTTPHandler \<Rightarrow> go_context \<Rightarrow> clock \<Rightarrow> nonces \<Rightarrow> HttpRequest \<Rightarrow> HttpResponse \<times> nonces" where
  "handleDiscoverResources h ctx clock seen r =
     (case authenticate h clock seen r of
        (None, seen) \<Rightarrow> (http_Error ''unauthorized'' 401, seen)
      | (Some (body, nonce), seen) \<Rightarrow>
          ((case (decodeStrict discovery_fields zero_discovery body, hh_Discovery h) of
              (Some request, Some service) \<Rightarrow>
                (case Service_DiscoverResources service ctx request (UTC (clock 3)) of
                   Inl Panic \<Rightarrow> panicked
                 | Inl (Error _) \<Rightarrow> http_Error ''discovery refused'' 422
                 | Inr response \<Rightarrow> respond h (clock 4) nonce (DiscoveryPage_text response))
            | _ \<Rightarrow> http_Error ''invalid request'' 400), seen))"

section \<open>Routing\<close>

definition Handler_check :: "HTTPHandler \<Rightarrow> unit result" where
  "Handler_check h =
     (if hh_Implementation h = None \<or> blank (hh_SharedSecret h) \<or> \<not> digestPattern (hh_ManifestDigest h) \<or> blank (hh_Release h)
      then fail ''external adapter handler is not configured''
      else case hh_Discovery h of
             None \<Rightarrow> ok
           | Some d \<Rightarrow>
               and_then (DiscoveryService_Validate d) (\<lambda>_.
                 if dsv_ManifestDigest d \<noteq> hh_ManifestDigest h \<or> ma_Release (dsv_Manifest d) \<noteq> hh_Release h \<or>
                    TransportMode (ma_Broker (dsv_Manifest d)) \<noteq> BrokerTransportInboundHTTPS
                 then fail ''discovery and HTTP release identities differ'' else ok))"

text \<open>The mux of \<open>Handler()\<close>: POST routes; a path that was not registered is not found.\<close>

definition serve :: "HTTPHandler \<Rightarrow> go_context \<Rightarrow> clock \<Rightarrow> nonces \<Rightarrow> HttpRequest \<Rightarrow> HttpResponse \<times> nonces" where
  "serve h ctx clock seen r =
     (if hq_Path r = ''/v1/prepare'' then handlePrepare h clock seen r
      else if hq_Path r = ''/v1/verify'' then handleVerify h clock seen r
      else if hq_Path r = ''/v1/issue'' then handleIssue h clock seen r
      else if hq_Path r = ''/v1/resources/discover'' \<and> hh_Discovery h \<noteq> None then handleDiscoverResources h ctx clock seen r
      else if hq_Path r = ''/v1/actions/execute'' \<and> hh_Actions h \<noteq> None then handleExecuteAction h clock seen r
      else if hq_Path r = ''/v1/actions/verify'' \<and> hh_Actions h \<noteq> None then handleVerifyAction h clock seen r
      else (http_Error ''404 page not found'' 404, seen))"

section \<open>The client\<close>

record HTTPClient =
  hc_Endpoint :: string
  hc_SharedSecret :: string
  hc_ManifestDigest :: string
  hc_Release :: string

text \<open>
  \<open>client.Do\<close> and the reading of the response are the transport, a function of the URL and the
  request: \<open>Inl\<close> a failed exchange, \<open>Inr None\<close> a body that could not be read. The nonce is the
  result of the client's nonce source; \<open>decode\<close> is \<open>decodeStrict\<close> for the response type.
\<close>

type_synonym transport = "string \<Rightarrow> HttpRequest \<Rightarrow> HttpResponse option result"

text \<open>The second half of \<open>call\<close>: what it makes of the response.\<close>

definition accept_response ::
  "HTTPClient \<Rightarrow> string \<Rightarrow> gotime \<Rightarrow> (string \<Rightarrow> 'a option) \<Rightarrow> HttpResponse option \<Rightarrow> 'a result" where
  "accept_response c nonceValue now decode response =
     (case response of
        None \<Rightarrow> fail ''external adapter response is invalid''
      | Some response \<Rightarrow>
          let encoded = take (maxProtocolBody + 1) (hr_Body response)
          in if length encoded > maxProtocolBody then fail ''external adapter response is invalid''
             else if hr_Status response \<noteq> 200
             then fail (''external adapter returned '' @ Itoa (int (hr_Status response)))
             else if hr_ManifestDigest response \<noteq> hc_ManifestDigest c \<or>
                VerifySignature (hc_SharedSecret c) (hr_Timestamp response) nonceValue (hr_Signature response) encoded now \<noteq> ok
             then fail ''external adapter response authenticity failed''
             else case decode encoded of
                    None \<Rightarrow> fail ''external adapter response schema is invalid''
                  | Some output \<Rightarrow> Inr output)"

text \<open>
  The request \<open>call\<close> sends for a body. Its path is the one the server finds in the request line,
  that of the parsed URL.
\<close>

definition signed_request :: "HTTPClient \<Rightarrow> string \<Rightarrow> gotime \<Rightarrow> string \<Rightarrow> string \<Rightarrow> HttpRequest" where
  "signed_request c nonceValue now path body =
     (let timestamp = FormatRFC3339 (UTC now)
      in \<lparr> hq_Path = path, hq_Release = hc_Release c, hq_ManifestDigest = hc_ManifestDigest c,
           hq_Timestamp = timestamp, hq_Nonce = nonceValue,
           hq_Signature = Signature (hc_SharedSecret c) timestamp nonceValue body, hq_Body = Some body \<rparr>)"

definition call ::
  "HTTPClient \<Rightarrow> string result \<Rightarrow> clock \<Rightarrow> transport \<Rightarrow> string \<Rightarrow> string result \<Rightarrow> (string \<Rightarrow> 'a option) \<Rightarrow> 'a result" where
  "call c nonce clock transport path input decode =
     (if blank (hc_SharedSecret c) \<or> \<not> digestPattern (hc_ManifestDigest c) \<or> blank (hc_Release c)
      then fail ''external adapter client is not configured''
      else and_then nonce (\<lambda>nonceValue.
           and_then input (\<lambda>body.
             let target = TrimRight (hc_Endpoint c) (CHR ''/'') @ path
             in case url_Parse target of
                  None \<Rightarrow> fail ''parse URL''
                | Some u \<Rightarrow>
                    and_then (transport target (signed_request c nonceValue (clock 0) (request_path u) body))
                      (accept_response c nonceValue (UTC (clock 1)) decode))))"

definition Client_Prepare :: "HTTPClient \<Rightarrow> string result \<Rightarrow> clock \<Rightarrow> transport \<Rightarrow> PrepareRequest \<Rightarrow> Connection result" where
  "Client_Prepare c nonce clock transport request =
     call c nonce clock transport ''/v1/prepare'' (PrepareRequest_text request)
       (decodeStrict connection_fields zero_connection)"

definition Client_Verify :: "HTTPClient \<Rightarrow> string result \<Rightarrow> clock \<Rightarrow> transport \<Rightarrow> VerifyRequest \<Rightarrow> Verification result" where
  "Client_Verify c nonce clock transport request =
     call c nonce clock transport ''/v1/verify'' (VerifyRequest_text request)
       (decodeStrict verification_fields zero_verification)"

definition Client_Issue :: "HTTPClient \<Rightarrow> string result \<Rightarrow> clock \<Rightarrow> transport \<Rightarrow> IssueRequest \<Rightarrow> Material result" where
  "Client_Issue c nonce clock transport request =
     call c nonce clock transport ''/v1/issue'' (IssueRequest_text request)
       (decodeStrict material_fields zero_material)"

definition Client_ExecuteAction ::
  "HTTPClient \<Rightarrow> string result \<Rightarrow> clock \<Rightarrow> transport \<Rightarrow> ExecuteActionRequest \<Rightarrow> ActionExecution result" where
  "Client_ExecuteAction c nonce clock transport request =
     call c nonce clock transport ''/v1/actions/execute'' (ExecuteActionRequest_text request)
       (decodeStrict execution_fields zero_execution)"

definition Client_VerifyAction ::
  "HTTPClient \<Rightarrow> string result \<Rightarrow> clock \<Rightarrow> transport \<Rightarrow> VerifyActionRequest \<Rightarrow> ActionVerification result" where
  "Client_VerifyAction c nonce clock transport request =
     call c nonce clock transport ''/v1/actions/verify'' (VerifyActionRequest_text request)
       (decodeStrict action_verification_fields zero_action_verification)"

definition Client_DiscoverResources ::
  "HTTPClient \<Rightarrow> string result \<Rightarrow> clock \<Rightarrow> transport \<Rightarrow> DiscoveryRequest \<Rightarrow> ActionCapability \<Rightarrow> DiscoveryPage result" where
  "Client_DiscoverResources c nonce clock transport request capability =
     (if dr_Release request \<noteq> hc_Release c \<or> dr_ManifestDigest request \<noteq> hc_ManifestDigest c
      then fail ''discovery client release does not match''
      else and_then (ValidateAt request capability (clock 0)) (\<lambda>_.
           and_then (call c nonce (\<lambda>n. clock (Suc n)) transport ''/v1/resources/discover'' (DiscoveryRequest_text request)
               (decodeStrict page_fields zero_page)) (\<lambda>response.
           and_then (DiscoveryPage_Validate response request capability (clock 3)) (\<lambda>_. Inr response))))"

text \<open>\<open>randomNonce\<close> from the bytes the system's source gave, or its error.\<close>

definition randomNonce :: "u8 list result \<Rightarrow> string result" where
  "randomNonce source = and_then source (\<lambda>value. Inr (hex_EncodeToString value))"

section \<open>What a call establishes\<close>

lemma accept_response_Inr [result_iff]:
  "accept_response c n now decode response = Inr v \<longleftrightarrow>
     (\<exists>resp. response = Some resp \<and> length (hr_Body resp) \<le> maxProtocolBody \<and> hr_Status resp = 200 \<and>
        hr_ManifestDigest resp = hc_ManifestDigest c \<and>
        VerifySignature (hc_SharedSecret c) (hr_Timestamp resp) n (hr_Signature resp) (hr_Body resp) now = ok \<and>
        decode (hr_Body resp) = Some v)"
proof (cases response)
  case (Some resp)
  show ?thesis
  proof (cases "length (hr_Body resp) \<le> maxProtocolBody")
    case True
    then have "take (maxProtocolBody + 1) (hr_Body resp) = hr_Body resp" by simp
    then show ?thesis using True Some
      by (auto simp: accept_response_def Let_def split: option.splits)
  qed (simp add: accept_response_def Some)
qed (simp add: accept_response_def)

lemma call_Inr [result_iff]:
  "call c nonce clock tr path input decode = Inr v \<longleftrightarrow>
     \<not> blank (hc_SharedSecret c) \<and> digestPattern (hc_ManifestDigest c) \<and> \<not> blank (hc_Release c) \<and>
     (\<exists>u n body resp. url_Parse (TrimRight (hc_Endpoint c) (CHR ''/'') @ path) = Some u \<and> nonce = Inr n \<and> input = Inr body \<and>
        tr (TrimRight (hc_Endpoint c) (CHR ''/'') @ path) (signed_request c n (clock 0) (request_path u) body) = Inr resp \<and>
        accept_response c n (UTC (clock 1)) decode resp = Inr v)"
  unfolding call_def if_fail_Inr and_then_Inr Let_def by (auto simp: and_then_Inr split: option.splits)

end
