(* ===== verification/Nonces.thy ===== *)
theory Nonces
  imports Http
begin

text \<open>
  The handler as a state machine over its cache of nonces (\<open>HTTPHandler.authenticate\<close>): each
  authentication is a step that accepts or refuses a request. The cache is a memory that
  forgets after three minutes, and the signature check accepts a timestamp from two minutes
  in the past to two minutes in the future; the two contracts together say when a recorded
  request can be used again.
\<close>

section \<open>Authentications as steps\<close>

datatype auth_event = Accepted HttpRequest clock | Refused HttpRequest clock

fun ev_request :: "auth_event \<Rightarrow> HttpRequest" where
  "ev_request (Accepted r clock) = r"
| "ev_request (Refused r clock) = r"

fun ev_clock :: "auth_event \<Rightarrow> clock" where
  "ev_clock (Accepted r clock) = clock"
| "ev_clock (Refused r clock) = clock"

fun ev_nonce :: "auth_event \<Rightarrow> string option" where
  "ev_nonce (Accepted r clock) = Some (hq_Nonce r)"
| "ev_nonce (Refused r clock) = None"

inductive auth_step :: "HTTPHandler \<Rightarrow> nonces \<Rightarrow> auth_event \<Rightarrow> nonces \<Rightarrow> bool" for h where
  accept: "authenticate h clock seen r = (Some body_nonce, seen') \<Longrightarrow> auth_step h seen (Accepted r clock) seen'"
| refuse: "authenticate h clock seen r = (None, seen') \<Longrightarrow> auth_step h seen (Refused r clock) seen'"

inductive_simps accept_simps: "auth_step h seen (Accepted r clock) seen'"
inductive_simps refuse_simps: "auth_step h seen (Refused r clock) seen'"
inductive_cases auth_stepE: "auth_step h seen e seen'"

text \<open>The conditions on a request that do not depend on the cache.\<close>

definition authentic :: "HTTPHandler \<Rightarrow> gotime \<Rightarrow> HttpRequest \<Rightarrow> string \<Rightarrow> bool" where
  "authentic h now r body \<longleftrightarrow> hq_Body r = Some body \<and> length body \<le> maxProtocolBody \<and>
     hq_Release r = hh_Release h \<and> hq_ManifestDigest r = hh_ManifestDigest h \<and>
     VerifySignature (hh_SharedSecret h) (hq_Timestamp r) (hq_Nonce r) (hq_Signature r) body (UTC now) = ok"

lemma authenticate_Some [result_iff]:
  "authenticate h clock seen r = (Some (body, nonce), seen') \<longleftrightarrow>
     authentic h (clock 0) r body \<and> nonce = hq_Nonce r \<and>
     purge (AddT (UTC (clock 1)) (- 3 * Minute)) seen nonce = None \<and>
     seen' = (purge (AddT (UTC (clock 1)) (- 3 * Minute)) seen)(nonce \<mapsto> UTC (clock 2))"
proof (cases "hq_Body r")
  case (Some content)
  show ?thesis
  proof (cases "length content \<le> maxProtocolBody")
    case True
    then have "take (maxProtocolBody + 1) content = content" by simp
    then show ?thesis using True Some
      unfolding authenticate_def authentic_def Let_def by (auto simp: VerifySignature_ok)
  next
    case False
    then show ?thesis using Some unfolding authenticate_def authentic_def Let_def by auto
  qed
qed (simp add: authenticate_def authentic_def)

text \<open>A refusal keeps the cache or only forgets what is old.\<close>

lemma authenticate_None:
  "authenticate h clock seen r = (None, seen') \<Longrightarrow>
     seen' = seen \<or> seen' = purge (AddT (UTC (clock 1)) (- 3 * Minute)) seen"
  unfolding authenticate_def Let_def by (auto split: option.splits if_splits)

lemma purge_Some:
  "purge cutoff seen k = Some t \<longleftrightarrow> seen k = Some t \<and> inst cutoff \<le> inst t"
  by (auto simp: purge_def Before_def split: option.splits if_splits)

lemma purge_le: "purge cutoff seen \<subseteq>\<^sub>m seen"
  by (auto simp: map_le_def purge_Some)

interpretation nonce_cache: expiring_memory "auth_step h" "\<lambda>seen k. seen k" ev_nonce
  "\<lambda>e. ev_clock e 1" "\<lambda>e. ev_clock e 2" "3 * Minute" for h
proof unfold_locales
  fix s :: nonces and e s' k
  assume "auth_step h s e s'" "ev_nonce e = Some k"
  then show "\<exists>t. s' k = Some t \<and> inst t = inst (ev_clock e 2)"
    by (cases rule: auth_step.cases) (auto simp: authenticate_Some UTC_def)
next
  fix s :: nonces and e s' k t
  assume step: "auth_step h s e s'" and k: "s k = Some t" and time: "inst (ev_clock e 1) \<le> inst t + 3 * Minute"
  have kept: "purge (AddT (UTC (ev_clock e 1)) (- 3 * Minute)) s k = Some t"
    using k time by (simp add: purge_Some AddT_def UTC_def)
  show "ev_nonce e \<noteq> Some k \<and> s' k = Some t"
    using step
  proof (cases rule: auth_step.cases)
    case (accept clock r bn)
    then show ?thesis using kept by (cases bn) (auto simp: authenticate_Some)
  next
    case (refuse clock r)
    then show ?thesis using kept k authenticate_None by fastforce
  qed
qed

interpretation signature_window: freshness
  "\<lambda>now sent. \<exists>secret ts nonce sig body. ParseRFC3339 ts = Some sent \<and> VerifySignature secret ts nonce sig body now = ok"
  "2 * Minute" "2 * Minute"
  by unfold_locales (auto simp: VerifySignature_ok)

lemma accepted_window:
  assumes "auth_step h s (Accepted r clock) s'"
  obtains p where "ParseRFC3339 (hq_Timestamp r) = Some p"
    "inst (clock 0) \<in> {inst p - 2 * Minute .. inst p + 2 * Minute}"
proof -
  from assms obtain body nonce where "authenticate h clock s r = (Some (body, nonce), s')"
    by (auto simp: accept_simps)
  then have v: "VerifySignature (hh_SharedSecret h) (hq_Timestamp r) (hq_Nonce r) (hq_Signature r) body (UTC (clock 0)) = ok"
    by (simp add: authenticate_Some authentic_def)
  then obtain p where p: "ParseRFC3339 (hq_Timestamp r) = Some p" by (auto simp: VerifySignature_ok)
  have "inst (UTC (clock 0)) \<in> {inst p - 2 * Minute .. inst p + 2 * Minute}"
    by (rule signature_window.accept_window) (use v p in blast)
  then show ?thesis using that p by (simp add: UTC_def)
qed

section \<open>Requests\<close>

text \<open>Serving a request is one authentication, or none where the path is not a route.\<close>

lemma serve_state:
  "snd (serve h ctx clock seen r) = seen \<or> snd (serve h ctx clock seen r) = snd (authenticate h clock seen r)"
  unfolding serve_def handlePrepare_def handleVerify_def handleIssue_def handleDiscoverResources_def
    handleExecuteAction_def handleVerifyAction_def
  by (auto split: prod.splits option.splits)

lemmas handler_defs = handlePrepare_def handleVerify_def handleIssue_def handleDiscoverResources_def
  handleExecuteAction_def handleVerifyAction_def

lemma handlers_refuse:
  assumes "authenticate h clock seen r = (None, seen')"
  shows "handlePrepare h clock seen r = (http_Error ''unauthorized'' 401, seen')"
    "handleVerify h clock seen r = (http_Error ''unauthorized'' 401, seen')"
    "handleIssue h clock seen r = (http_Error ''unauthorized'' 401, seen')"
    "handleExecuteAction h clock seen r = (http_Error ''unauthorized'' 401, seen')"
    "handleVerifyAction h clock seen r = (http_Error ''unauthorized'' 401, seen')"
    "handleDiscoverResources h ctx clock seen r = (http_Error ''unauthorized'' 401, seen')"
  by (simp_all add: handler_defs assms)

lemma respond_status: "hr_Status (respond h now nonce v) \<in> {200, 500}"
  by (simp add: respond_def http_Error_def Let_def split: sum.split)

lemma respond_200:
  "hr_Status (respond h now nonce v) = 200 \<Longrightarrow> \<exists>body. v = Inr body \<and>
     respond h now nonce v = \<lparr> hr_Status = 200, hr_ManifestDigest = hh_ManifestDigest h,
       hr_Timestamp = FormatRFC3339 (UTC now),
       hr_Signature = Signature (hh_SharedSecret h) (FormatRFC3339 (UTC now)) nonce body, hr_Body = body \<rparr>"
  by (auto simp: respond_def http_Error_def Let_def split: sum.splits)

text \<open>What registers a route: the paths \<open>Handler()\<close> puts on its mux for a handler.\<close>

definition routes :: "HTTPHandler \<Rightarrow> string set" where
  "routes h = {''/v1/prepare'', ''/v1/verify'', ''/v1/issue''} \<union>
     (if hh_Discovery h = None then {} else {''/v1/resources/discover''}) \<union>
     (if hh_Actions h = None then {} else {''/v1/actions/execute'', ''/v1/actions/verify''})"

text \<open>Every path the protocol has; a handler with all implementations routes all of them.\<close>

definition protocol_paths :: "string set" where
  "protocol_paths = set [''/v1/prepare'', ''/v1/verify'', ''/v1/issue'', ''/v1/resources/discover'',
     ''/v1/actions/execute'', ''/v1/actions/verify'']"

lemma routes_protocol: "routes h \<subseteq> protocol_paths"
  by (simp add: routes_def protocol_paths_def)

text \<open>
  Handlers of one release: the same credentials and the same routes, whatever implementations
  stand behind them.
\<close>

definition same_release :: "HTTPHandler \<Rightarrow> HTTPHandler \<Rightarrow> bool" where
  "same_release h h' \<longleftrightarrow> hh_SharedSecret h' = hh_SharedSecret h \<and> hh_ManifestDigest h' = hh_ManifestDigest h \<and>
     hh_Release h' = hh_Release h \<and> (hh_Actions h' = None \<longleftrightarrow> hh_Actions h = None) \<and>
     (hh_Discovery h' = None \<longleftrightarrow> hh_Discovery h = None)"

lemma same_release_authenticate: "same_release h h' \<Longrightarrow> authenticate h' clock seen r = authenticate h clock seen r"
  by (simp add: authenticate_def same_release_def Let_def cong: option.case_cong if_cong)

lemma authenticate_implementation [simp]:
  "authenticate (h\<lparr>hh_Implementation := i\<rparr>) clock seen r = authenticate h clock seen r"
  by (rule same_release_authenticate) (simp add: same_release_def)

lemma same_release_routes: "same_release h h' \<Longrightarrow> routes h' = routes h"
  by (simp add: routes_def same_release_def)

text \<open>Off the routes nothing is authenticated; on them a request that is refused is answered at once.\<close>

lemma serve_not_found: "hq_Path r \<notin> routes h \<Longrightarrow> serve h ctx clock seen r = (http_Error ''404 page not found'' 404, seen)"
  by (auto simp: serve_def routes_def split: if_splits)

lemma serve_refused:
  assumes "authenticate h clock seen r = (None, seen')" "hq_Path r \<in> routes h"
  shows "serve h ctx clock seen r = (http_Error ''unauthorized'' 401, seen')"
  using assms(2) by (auto simp: serve_def routes_def handlers_refuse [OF assms(1)] split: if_splits)

text \<open>Once authenticated, only the last step of a handler answers 200.\<close>

definition answers :: "HTTPHandler \<Rightarrow> string \<Rightarrow> HttpResponse \<Rightarrow> bool" where
  "answers h nonce response \<longleftrightarrow> hr_Status response \<noteq> 200 \<or> (\<exists>now value. response = respond h now nonce value)"

named_theorems answers_intros "the branches of a handler"

lemma answers_error [answers_intros]: "n \<noteq> 200 \<Longrightarrow> answers h nonce (http_Error m n)" "answers h nonce panicked"
  by (simp_all add: answers_def http_Error_def panicked_def)

lemma answers_respond [answers_intros]: "answers h nonce (respond h now nonce value)"
  by (auto simp: answers_def)

lemma answers_cases [answers_intros]:
  "answers h nonce a \<Longrightarrow> answers h nonce b \<Longrightarrow> answers h nonce (if c then a else b)"
  "answers h nonce a \<Longrightarrow> (\<And>v. answers h nonce (f v)) \<Longrightarrow> answers h nonce (case x of None \<Rightarrow> a | Some v \<Rightarrow> f v)"
  "(\<And>e. answers h nonce (g e)) \<Longrightarrow> (\<And>v. answers h nonce (f v)) \<Longrightarrow> answers h nonce (case y of Inl e \<Rightarrow> g e | Inr v \<Rightarrow> f v)"
  "(\<And>m. answers h nonce (k m)) \<Longrightarrow> answers h nonce a \<Longrightarrow> answers h nonce (case z of Error m \<Rightarrow> k m | Panic \<Rightarrow> a)"
  by (simp_all split: option.split sum.split fault.split)

lemma handlers_answer:
  assumes "authenticate h clock seen r = (Some (body, nonce), seen')"
  shows "answers h nonce (fst (handlePrepare h clock seen r))" "answers h nonce (fst (handleVerify h clock seen r))"
    "answers h nonce (fst (handleIssue h clock seen r))" "answers h nonce (fst (handleExecuteAction h clock seen r))"
    "answers h nonce (fst (handleVerifyAction h clock seen r))"
    "answers h nonce (fst (handleDiscoverResources h ctx clock seen r))"
  unfolding handler_defs assms prod.case option.case fst_conv by (intro answers_intros; simp)+

lemma serve_answers:
  assumes "authenticate h clock seen r = (Some (body, nonce), seen')"
  shows "answers h nonce (fst (serve h ctx clock seen r))"
  unfolding serve_def by (simp add: handlers_answer [OF assms] answers_intros)

end
