(* ===== verification/Assessment.thy ===== *)
theory Assessment
  imports Capability
begin

text \<open>
  Effect assessment (\<open>assessment.go\<close>) and simple policies (\<open>policy_binding.go\<close>): the
  prerequisite an admitted capability has under a policy preset. The requirements are
  ordered by strictness; assessment is monotone in the declared effects and antitone in
  the permissiveness of the preset, and never grants authority.
\<close>

section \<open>Presets and requirements\<close>

type_synonym PolicyPreset = string

definition PolicyReadOnly :: PolicyPreset where "PolicyReadOnly = ''read_only''"
definition PolicyReviewChanges :: PolicyPreset where "PolicyReviewChanges = ''review_changes''"
definition PolicyDelegatedChanges :: PolicyPreset where "PolicyDelegatedChanges = ''delegated_changes''"

lemmas preset_defs = PolicyReadOnly_def PolicyReviewChanges_def PolicyDelegatedChanges_def

datatype AssessmentRequirement = RequirementExistingChecks | RequirementReview
  | RequirementDelegation | RequirementResolution | RequirementBlocked

text \<open>How much has to happen before execution; a blocked action has no way forward.\<close>

fun strictness :: "AssessmentRequirement \<Rightarrow> nat" where
  "strictness RequirementExistingChecks = 0"
| "strictness RequirementDelegation = 1"
| "strictness RequirementReview = 2"
| "strictness RequirementResolution = 3"
| "strictness RequirementBlocked = 4"

instantiation AssessmentRequirement :: linorder
begin

definition less_eq_AssessmentRequirement :: "AssessmentRequirement \<Rightarrow> AssessmentRequirement \<Rightarrow> bool" where
  "less_eq_AssessmentRequirement r q \<longleftrightarrow> strictness r \<le> strictness q"

definition less_AssessmentRequirement :: "AssessmentRequirement \<Rightarrow> AssessmentRequirement \<Rightarrow> bool" where
  "less_AssessmentRequirement r q \<longleftrightarrow> strictness r < strictness q"

instance
proof
  fix r q :: AssessmentRequirement
  show "r \<le> q \<Longrightarrow> q \<le> r \<Longrightarrow> r = q"
    by (cases r; cases q) (simp_all add: less_eq_AssessmentRequirement_def)
qed (auto simp: less_eq_AssessmentRequirement_def less_AssessmentRequirement_def)

end

definition ActionAssessmentProtocol :: string where
  "ActionAssessmentProtocol = ''misconfig.action-assessment/v1''"

record EffectAssessment =
  ea_Protocol :: string
  ea_Policy :: PolicyPreset
  ea_CapabilityDigest :: string
  ea_Requirement :: AssessmentRequirement
  ea_Reason :: string
  ea_AuthorityGranted :: bool

section \<open>Assessment\<close>

text \<open>\<open>unknown\<close>, \<open>changed\<close>, \<open>consequential\<close> after one effect of the loop.\<close>

definition classify :: "ActionEffect \<Rightarrow> bool \<times> bool \<times> bool \<Rightarrow> bool \<times> bool \<times> bool" where
  "classify effect = (\<lambda>(unknown, changed, consequential).
     if effect = EffectUnknown then (True, changed, consequential)
     else if effect = EffectWrite then (unknown, True, consequential)
     else if effect \<in> {EffectDelete, EffectAccessChange, EffectDataExport, EffectCodeExecution, EffectAvailabilityChange}
     then (unknown, True, True)
     else (unknown, changed, consequential))"

text \<open>The function returns its result together with the error, as the Go function does.\<close>

definition AssessCapabilityEffects :: "PolicyPreset \<Rightarrow> ActionCapability \<Rightarrow> EffectAssessment \<times> unit result" where
  "AssessCapabilityEffects preset capability =
     (let result = \<lparr> ea_Protocol = ActionAssessmentProtocol, ea_Policy = preset, ea_CapabilityDigest = [],
            ea_Requirement = RequirementBlocked, ea_Reason = ''Invalid policy or capability.'',
            ea_AuthorityGranted = False \<rparr>
      in if preset \<noteq> PolicyReadOnly \<and> preset \<noteq> PolicyReviewChanges \<and> preset \<noteq> PolicyDelegatedChanges
         then (result, fail ''policy preset is unsupported'')
         else case ActionCapabilityDigest capability of
           Inl e \<Rightarrow> (result, Inl e)
         | Inr digest \<Rightarrow>
             let result = result \<lparr> ea_CapabilityDigest := digest \<rparr>;
                 (unknown, changed, consequential) =
                   (case ac_Semantics capability of
                      None \<Rightarrow> (True, False, False)
                    | Some s \<Rightarrow> fold classify (as_Effects s) (False, False, False))
             in if preset = PolicyReadOnly \<and> (unknown \<or> changed)
                then (result \<lparr> ea_Reason := ''Read-only policy does not permit changes or unclassified effects.'' \<rparr>, ok)
                else if unknown
                then (result \<lparr> ea_Requirement := RequirementResolution,
                        ea_Reason := ''Effects are not known. Resolve them through a supported capability before execution.'' \<rparr>, ok)
                else if \<not> changed
                then (result \<lparr> ea_Requirement := RequirementExistingChecks,
                        ea_Reason := ''Declared read; existing access and data restrictions still apply.'' \<rparr>, ok)
                else if preset = PolicyReviewChanges \<or> consequential
                then (result \<lparr> ea_Requirement := RequirementReview,
                        ea_Reason := ''Review the exact action and its impact within existing access.'' \<rparr>, ok)
                else (result \<lparr> ea_Requirement := RequirementDelegation,
                        ea_Reason := ''Existing exact-action delegation and all execution checks are required.'' \<rparr>, ok))"

section \<open>Simple policies\<close>

definition SimplePolicyProtocol :: string where
  "SimplePolicyProtocol = ''misconfig.simple-policy/v1''"

record SimplePolicy =
  sp_Protocol :: string
  sp_Preset :: PolicyPreset

definition SimplePolicy_Validate :: "SimplePolicy \<Rightarrow> unit result" where
  "SimplePolicy_Validate p =
     (if sp_Protocol p \<noteq> SimplePolicyProtocol then fail ''simple policy protocol is incompatible''
      else if sp_Preset p = PolicyReadOnly \<or> sp_Preset p = PolicyReviewChanges then ok
      else fail ''simple policy preset is not released'')"

definition SimplePolicy_Assess :: "SimplePolicy \<Rightarrow> ActionCapability \<Rightarrow> EffectAssessment \<times> unit result" where
  "SimplePolicy_Assess p capability =
     (case SimplePolicy_Validate p of
        Inl (Error m) \<Rightarrow>
          (\<lparr> ea_Protocol = ActionAssessmentProtocol, ea_Policy = sp_Preset p, ea_CapabilityDigest = [],
             ea_Requirement = RequirementBlocked, ea_Reason = m, ea_AuthorityGranted = False \<rparr>, fail m)
      | _ \<Rightarrow> AssessCapabilityEffects (sp_Preset p) capability)"

section \<open>The declarative reading\<close>

definition consequential_effects :: "ActionEffect set" where
  "consequential_effects = {EffectDelete, EffectAccessChange, EffectDataExport, EffectCodeExecution, EffectAvailabilityChange}"

definition presets :: "PolicyPreset set" where
  "presets = {PolicyReadOnly, PolicyReviewChanges, PolicyDelegatedChanges}"

text \<open>The effects a consumer has to reckon with: absent semantics are unknown.\<close>

definition effects_of :: "ActionCapability \<Rightarrow> ActionEffect set" where
  "effects_of c = (case ac_Semantics c of None \<Rightarrow> {EffectUnknown} | Some s \<Rightarrow> set (as_Effects s))"

definition required :: "PolicyPreset \<Rightarrow> ActionEffect set \<Rightarrow> AssessmentRequirement" where
  "required preset E =
     (let unknown = EffectUnknown \<in> E; changed = E \<inter> insert EffectWrite consequential_effects \<noteq> {}
      in if preset = PolicyReadOnly \<and> (unknown \<or> changed) then RequirementBlocked
         else if unknown then RequirementResolution
         else if \<not> changed then RequirementExistingChecks
         else if preset = PolicyReviewChanges \<or> E \<inter> consequential_effects \<noteq> {} then RequirementReview
         else RequirementDelegation)"

lemma effects_distinct [simp]:
  "EffectUnknown \<notin> consequential_effects" "EffectWrite \<notin> consequential_effects" "EffectRead \<notin> consequential_effects"
  "EffectUnknown \<noteq> EffectWrite" "EffectWrite \<noteq> EffectUnknown" "EffectRead \<noteq> EffectWrite" "EffectRead \<noteq> EffectUnknown"
  by (simp_all add: consequential_effects_def effect_defs)

lemma classify_eq:
  "classify e (u, c, q) = (u \<or> e = EffectUnknown, c \<or> e = EffectWrite \<or> e \<in> consequential_effects, q \<or> e \<in> consequential_effects)"
proof -
  have "e \<in> {EffectDelete, EffectAccessChange, EffectDataExport, EffectCodeExecution, EffectAvailabilityChange} \<longleftrightarrow>
      e \<in> consequential_effects" by (simp add: consequential_effects_def)
  then show ?thesis by (auto simp: classify_def)
qed

lemma fold_classify:
  "fold classify es (u, c, q) =
     (u \<or> EffectUnknown \<in> set es, c \<or> set es \<inter> insert EffectWrite consequential_effects \<noteq> {},
      q \<or> set es \<inter> consequential_effects \<noteq> {})"
  by (induction es arbitrary: u c q) (auto simp: classify_eq)

lemma effects_of_classified:
  "(case ac_Semantics c of None \<Rightarrow> (True, False, False) | Some s \<Rightarrow> fold classify (as_Effects s) (False, False, False)) =
     (EffectUnknown \<in> effects_of c, effects_of c \<inter> insert EffectWrite consequential_effects \<noteq> {},
      effects_of c \<inter> consequential_effects \<noteq> {})"
  by (auto simp: effects_of_def fold_classify split: option.split)

lemma Assess_valid:
  assumes "p \<in> presets" "ActionCapabilityDigest c = Inr d"
  shows "snd (AssessCapabilityEffects p c) = ok"
    and "ea_Requirement (fst (AssessCapabilityEffects p c)) = required p (effects_of c)"
    and "ea_CapabilityDigest (fst (AssessCapabilityEffects p c)) = d"
  using assms
  by (auto simp: AssessCapabilityEffects_def effects_of_classified required_def Let_def presets_def)

lemma Assess_ok_iff:
  "snd (AssessCapabilityEffects p c) = ok \<longleftrightarrow> p \<in> presets \<and> ActionCapability_Validate c = ok"
proof (cases "ActionCapabilityDigest c")
  case (Inr d)
  then have "ActionCapability_Validate c = ok" by (simp add: ActionCapabilityDigest_iff)
  then show ?thesis using Inr
    by (auto simp: AssessCapabilityEffects_def effects_of_classified Let_def presets_def)
next
  case (Inl e)
  then have "ActionCapability_Validate c \<noteq> ok" by (auto simp: ActionCapabilityDigest_def)
  then show ?thesis using Inl by (auto simp: AssessCapabilityEffects_def Let_def)
qed

lemma Assess_error_blocked:
  "snd (AssessCapabilityEffects p c) \<noteq> ok \<Longrightarrow> ea_Requirement (fst (AssessCapabilityEffects p c)) = RequirementBlocked"
  by (auto simp: AssessCapabilityEffects_def effects_of_classified Let_def split: sum.splits if_splits)

lemma Assess_authority: "\<not> ea_AuthorityGranted (fst (AssessCapabilityEffects p c))"
  by (auto simp: AssessCapabilityEffects_def effects_of_classified Let_def split: sum.splits)

lemma required_mono:
  assumes "E \<subseteq> F" "p \<in> presets"
  shows "required p E \<le> required p F"
proof -
  have "EffectUnknown \<in> E \<Longrightarrow> EffectUnknown \<in> F"
    "E \<inter> insert EffectWrite consequential_effects \<noteq> {} \<Longrightarrow> F \<inter> insert EffectWrite consequential_effects \<noteq> {}"
    "E \<inter> consequential_effects \<noteq> {} \<Longrightarrow> F \<inter> consequential_effects \<noteq> {}"
    "F \<inter> consequential_effects \<noteq> {} \<Longrightarrow> F \<inter> insert EffectWrite consequential_effects \<noteq> {}"
    using assms(1) by blast+
  then show ?thesis
    by (simp add: required_def Let_def less_eq_AssessmentRequirement_def split: if_splits) blast?
qed

lemma preset_order:
  "required PolicyDelegatedChanges E \<le> required PolicyReviewChanges E"
  "required PolicyReviewChanges E \<le> required PolicyReadOnly E"
  by (simp_all add: required_def Let_def less_eq_AssessmentRequirement_def preset_defs)

lemma Policy_Validate_ok [result_iff]:
  "SimplePolicy_Validate p = ok \<longleftrightarrow> sp_Protocol p = SimplePolicyProtocol \<and> sp_Preset p \<in> {PolicyReadOnly, PolicyReviewChanges}"
  by (auto simp: SimplePolicy_Validate_def)

end
