(* ===== verification/Examples.thy ===== *)
theory Examples
  imports Nonces Assessment
begin

text \<open>
  Concrete values on which the properties are exercised: an object schema, a read
  capability, a release that publishes it, a ceiling and an authorization that uses it, requests, a
  discovery service and a handler.
\<close>

section \<open>A capability\<close>

definition ex_schema :: jval where
  "ex_schema = JObject [(''type'', JString ''object'')]"

lemma ex_schema_text: "json_text (any_json ex_schema) = CHR ''{'' # quote ''type'' @ '':'' @ quote ''object'' @ ''}''"
  by (simp add: ex_schema_def any_json_def object_text_def member_text_def)

lemma ex_schema_wf [simp]: "wf_json ex_schema"
proof -
  have "list_all ValidString [''type'', ''object'']" by (rule ascii_list) simp
  then show ?thesis by (simp add: ex_schema_def)
qed

lemma ex_schema_read: "parse_json (json_text (any_json ex_schema)) = Some ex_schema"
proof -
  have "parse_json (json_text ex_schema) = Some (lits ex_schema)"
    by (rule parse_json_text) (simp_all add: ex_schema_def [symmetric], simp add: ex_schema_def maxNestingDepth_def)
  then show ?thesis by (simp add: ex_schema_def any_json_def)
qed

lemma ex_schema_ok [simp]: "schema_ok ex_schema"
proof -
  have "Unmarshal_any (json_text (any_json ex_schema)) = Some ex_schema"
    unfolding Unmarshal_any_def ex_schema_read by (simp add: ex_schema_def last_wins_def)
  then show ?thesis
    unfolding schema_ok_def validateSchema_def Let_def
    by (simp add: ex_schema_text) (simp add: ex_schema_def)
qed

definition ex_capability :: ActionCapability where
  "ex_capability = \<lparr> ac_Ref = ''db/read'', ac_Operation = ''db.read'', ac_MaximumTTLSeconds = 60, ac_Reversible = True,
     ac_ParametersSchema = ex_schema, ac_ExecutionSchema = ex_schema, ac_VerificationSchema = ex_schema,
     ac_Discovery = None,
     ac_Semantics = Some \<lparr> as_Protocol = ActionSemanticsProtocol, as_Effects = [EffectRead] \<rparr> \<rparr>"

lemmas class_eval = class_match_def is_lower_def is_upper_def is_digit_def is_hex_lower_def between_def

lemma ex_capability_ok [simp]: "ActionCapability_Validate ex_capability = ok"
  by (simp add: ActionCapability_Validate_ok ActionSemantics_Validate_ok ex_capability_def known_effects_def
      identityPattern_def operationPattern_def class_eval)

lemma ex_capability_wf [simp]: "wf_schemas ex_capability"
  by (simp add: ex_capability_def wf_schemas_def)

section \<open>A release\<close>

definition ex_broker :: Broker where
  "ex_broker = \<lparr> br_Protocol = BrokerProtocol, br_Transport = BrokerTransportOutboundPull, br_Endpoint = [],
     br_RuntimeArtifacts = [\<lparr> rt_Kind = ''oci'', rt_Reference = ''r:1'', rt_Digest = sha_digest ''image'' \<rparr>],
     br_ConnectionVerification = ConnectionVerificationProtocol \<rparr>"

definition ex_manifest :: Manifest where
  "ex_manifest = \<lparr> ma_Protocol = ManifestProtocol, ma_Publisher = \<lparr> pu_ID = ''acme'', pu_KeyID = ''k1'' \<rparr>,
     ma_Compatibility = \<lparr> co_Protocol = ManifestProtocol, co_Major = 2 \<rparr>, ma_Release = ''v1'', ma_Provider = ''db'',
     ma_ConfigurationSchema = ex_schema, ma_Credential = None, ma_Renderer = None, ma_Broker = ex_broker,
     ma_Actions = [ex_capability] \<rparr>"

lemma TrimSpace_r1: "TrimSpace ''r:1'' = ''r:1''"
  by (rule TrimSpace_solid) (simp_all add: solid_def between_def)

lemma ex_broker_ok [simp]: "check_broker ex_broker = ok"
  by (simp add: broker_ok ex_broker_def TransportMode_def runtime_artifact_ok_def manifest_protocols
      runtimeReferenceValid_def TrimSpace_r1 identityPattern_def class_eval)

lemma ex_manifest_ok [simp]: "manifest_ok ex_manifest"
  by (simp add: manifest_ok_def ex_manifest_def identityPattern_def class_eval)

lemma ex_manifest_utf8 [simp]: "manifest_utf8 ex_manifest"
proof -
  have "list_all ValidString [[], ''r:1'']" by (rule ascii_list) simp
  then show ?thesis by (simp add: manifest_utf8_def ex_manifest_def ex_broker_def)
qed

section \<open>A ceiling\<close>

definition ex_limit :: ParameterLimit where
  "ex_limit = \<lparr> pl_Type = ''integer'', pl_Optional = False, pl_AllowedValues = Some [''5'', ''6e0''],
     pl_Minimum = Some ''1'', pl_Maximum = Some ''10'' \<rparr>"

definition ex_limits :: ParameterLimits where
  "ex_limits = \<lparr> pls_Fields = Some [(''amount'', ex_limit)] \<rparr>"

definition ex_parameters :: string where
  "ex_parameters = ''{\"amount\":5}''"

lemmas decode_eval = decodeParameterJSON_def json_eval readParameterValue.simps read_number_def exponent_suffix_def
lemmas value_eval = SetString_def digits_val_def digit_val_def Number.signed_def pow10_def number_eval

lemma ex_numbers:
  "decodeParameterJSON ''5'' = Inr (JNumber ''5'')" "decodeParameterJSON ''6e0'' = Inr (JNumber ''6e0'')"
  "decodeParameterJSON ''1'' = Inr (JNumber ''1'')" "decodeParameterJSON ''10'' = Inr (JNumber ''10'')"
  by (simp_all add: decode_eval value_eval Atoi_def)

lemma ex_values:
  "SetString ''5'' = Some 5" "SetString ''6e0'' = Some 6" "SetString ''1'' = Some 1" "SetString ''10'' = Some 10"
  by (simp_all add: value_eval)

lemma ex_parameters_read: "decodeParameterJSON ex_parameters = Inr (JObject [(''amount'', JNumber ''5'')])"
  by (simp add: ex_parameters_def decode_eval value_eval)

lemma ex_limit_types: "parameterType (JNumber ''5'') ''integer''" "parameterType (JNumber ''6e0'') ''integer''"
    "parameterType (JNumber ''1'') ''integer''" "parameterType (JNumber ''10'') ''integer''"
  by (simp_all add: parameterType_def ex_values IsInt_def)

lemma ex_limit_ok: "check_limit ''amount'' ex_limit = ok"
  by (simp add: check_limit_ok ex_limit_def items_def parameter_types_def check_range_def check_bound_def
      ex_numbers ex_limit_types compareNumber_def ex_values in_bounds_def at_least_def)

lemma ex_limits_ok [simp]: "ParameterLimits_Validate ex_limits = ok"
  by (simp add: Validate_ok ex_limits_def ex_limit_ok)

lemma ex_limits_literal [simp]: "literal_limits ex_limits"
proof -
  have "is_number ''1''" "is_number ''10''" using SetString_is_number ex_values by blast+
  then show ?thesis by (auto simp: literal_limits_def literal_bounds_def ex_limits_def ex_limit_def items_def)
qed

lemma ex_limit_admits: "admits ex_limit (JNumber ''5'')"
  by (simp add: admits_def allows_value_def ex_limit_def items_def ex_limit_types in_bounds_def at_least_def
      ex_values ex_numbers parameterEqual.simps [of "JNumber ''5''"] compareNumber_def)

lemma ex_permits: "permits [(''amount'', ex_limit)] [(''amount'', JNumber ''5'')]"
  by (simp add: permits_def ex_limit_admits)

lemma ex_limits_match [simp]: "ParameterLimits_Matches ex_limits ex_parameters = Inr True"
  unfolding Matches_True ex_parameters_read using ex_limits_ok by (simp add: ex_limits_def items_def ex_permits)

section \<open>An authorization\<close>

definition ex_digest :: string where
  "ex_digest = sha_digest (json_text (ActionCapability_json ex_capability))"

lemma ex_digest [simp]: "ActionCapabilityDigest ex_capability = Inr ex_digest" "digestPattern ex_digest"
  by (simp_all add: ActionCapabilityDigest_iff ex_digest_def)

definition ex_selector :: CapabilitySelector where
  "ex_selector = \<lparr> cs_Ref = ''db/read'', cs_Digest = ex_digest \<rparr>"

lemma ex_selector_ok [simp]: "CapabilitySelector_Validate ex_selector = ok"
  by (simp add: result_iff ex_selector_def authorizationDigestPattern_def identityPattern_def class_eval)

definition ex_rule :: AuthorizationRule where
  "ex_rule = \<lparr> ar_ID = ''r1'', ar_Effect = ''allow'', ar_Providers = [''db''], ar_Operations = [],
     ar_Capabilities = Some [ex_selector], ar_ResourcePrefixes = [], ar_ResourceIDs = Some [''orders''],
     ar_ParameterLimits = Some ex_limits \<rparr>"

lemma ex_texts: "exact_id ''orders''" "\<not> blank ''r1''" "\<not> blank ''db''" "\<not> blank ''prod''"
proof -
  have "TrimSpace ''orders'' = ''orders''" by (rule TrimSpace_solid) (simp_all add: solid_def between_def)
  then show "exact_id ''orders''" by (simp add: exact_id_def)
  show "\<not> blank ''r1''" "\<not> blank ''db''" "\<not> blank ''prod''"
    by (rule not_blank_solid; simp add: solid_def between_def)+
qed

lemma ex_rule_usable [simp]: "usable ex_rule ex_selector"
  by (simp add: usable_def ex_rule_def result_iff)

lemma ex_rule_matches [simp]: "MatchesAuthorizationRule ex_rule ''db'' ''db.read'' ''orders'' ex_selector"
  by (simp add: MatchesAuthorizationRule_def MatchesResources_iff MatchesCapabilities_iff ex_rule_def
      result_iff ex_texts)

lemma ex_rule_within:
  "ParametersWithinCapabilityRules [ex_rule] ''db'' ''db.read'' ''orders'' ex_selector ex_parameters = Inr True"
  unfolding Within_True by (simp add: ex_rule_def [THEN arg_cong, of ar_ParameterLimits])

lemma ex_rule_ok [simp]: "rule_ok ex_rule"
  by (simp add: rule_ok_def ex_rule_def result_iff rule_effects_def ex_texts)

definition ex_authorization :: Authorization where
  "ex_authorization = \<lparr> au_ProfileDigest = ex_digest, au_PolicyRelease = ''r1'', au_Provider = ''db'',
     au_AccountRef = ''prod'', au_Environments = [''prod''], au_ResourcePrefixes = [], au_ResourceIDs = Some [''orders''],
     au_Rules = [ex_rule] \<rparr>"

lemma ex_authorization_ok [simp]: "Authorization_Validate ex_authorization = ok"
  by (simp add: Authorization_Validate_ok ex_authorization_def result_iff ex_texts)

definition ex_plain_rule :: AuthorizationRule where
  "ex_plain_rule = ex_rule\<lparr>ar_Capabilities := None, ar_ResourceIDs := None, ar_ParameterLimits := None\<rparr>"

lemma ex_plain_rule_ok [simp]: "rule_ok ex_plain_rule"
  by (simp add: rule_ok_def ex_plain_rule_def ex_rule_def result_iff rule_effects_def ex_texts)

section \<open>An action\<close>

lemma ex_float: "ParseFloat ''5'' = Some (F64 False 5629499534213120 (- 50))"
  by (simp add: float_eval)

definition ex_decoded :: jval where
  "ex_decoded = JObject [(''amount'', JFloat (F64 False 5629499534213120 (- 50)))]"

lemma ex_unmarshal [simp]: "Unmarshal_any ex_parameters = Some ex_decoded"
proof -
  have "parse_json ex_parameters = Some (JObject [(''amount'', JNumber ''5'')])"
    by (simp add: ex_parameters_def json_eval)
  then show ?thesis by (simp add: Unmarshal_any_def ex_float ex_decoded_def last_wins_def)
qed

definition ex_action_digest :: string where
  "ex_action_digest = sha_digest (action_text ex_digest ''db.read'' ''orders'' ''prod'' ex_decoded)"

lemma ex_action_digest [simp]:
  "ActionDigest ex_digest ''db.read'' ''orders'' ''prod'' ex_parameters = Inr ex_action_digest"
proof -
  have "\<not> blank ''db.read''" "\<not> blank ''orders''" by (rule not_blank_solid; simp add: solid_def between_def)+
  then show ?thesis using ex_texts by (simp add: ActionDigest_iff ex_action_digest_def)
qed

section \<open>Requests\<close>

definition ex_now :: gotime where
  "ex_now = \<lparr> inst = 63839664000000000000, zone = 0 \<rparr>"

lemmas calendar_eval = date_of_def year_of_def year_days_def month_days_def leap_def
lemmas time_eval = time_text_def FormatRFC3339_def date_time_text_def local_seconds_def Second_def time_year_def
  fraction_text_def nanosecond_def zone_text_def year_text_def pad_def nat_text.simps digit_char_def Let_def

lemma ex_date: "date_of 738885 = (2024, 0, 0)"
  by (simp add: calendar_eval Let_def)

lemma ex_now_text: "time_text ex_now = Some ''2024-01-01T00:00:00Z''"
  by (simp add: ex_now_def time_eval ex_date) code_simp

lemma ex_now_set [simp]: "\<not> IsZero ex_now" "inst ex_now = 63839664000000000000"
  by (simp_all add: IsZero_def ex_now_def)

definition ex_later :: "int \<Rightarrow> gotime" where
  "ex_later s = AddT ex_now (s * Second)"

lemma ex_later_set [simp]: "inst (ex_later s) = 63839664000000000000 + s * Second" "0 \<le> s \<Longrightarrow> \<not> IsZero (ex_later s)"
  by (simp_all add: ex_later_def AddT_def IsZero_def Second_def)

definition ex_subject :: Subject where
  "ex_subject = \<lparr> su_TenantID = ''t1'', su_ActorID = ''a1'', su_DeviceID = ''d1'', su_SessionID = ''s1'', su_ProfileID = ''p1'',
     su_AccountRef = ''prod'', su_Environment = ''prod'' \<rparr>"

definition ex_authority :: ActionAuthority where
  "ex_authority = \<lparr> aa_ID = ''g1'', aa_ActionDigest = ex_action_digest, aa_CapabilityDigest = ex_digest,
     aa_ApprovedBy = ''a1'', aa_ApprovedAt = ex_now, aa_ExpiresAt = ex_later 60 \<rparr>"

definition ex_execute :: ExecuteActionRequest where
  "ex_execute = \<lparr> ex_RequestID = ''q1'', ex_ConnectionID = ''c1'', ex_Provider = ''db'', ex_Release = ''v1'', ex_AccountRef = ''prod'',
     ex_Configuration = ''{}'', ex_Subject = ex_subject, ex_CapabilityRef = ''db/read'', ex_CapabilityDigest = ex_digest,
     ex_ActionID = ''i1'', ex_ActionDigest = ex_action_digest, ex_Operation = ''db.read'', ex_Resource = ''orders'',
     ex_Environment = ''prod'', ex_Parameters = ex_parameters, ex_Authority = ex_authority, ex_Now = ex_now \<rparr>"

lemma ex_blanks:
  "\<not> blank ''t1''" "\<not> blank ''a1''" "\<not> blank ''d1''" "\<not> blank ''s1''" "\<not> blank ''p1''" "\<not> blank ''g1''" "\<not> blank ''q1''"
  "\<not> blank ''c1''" "\<not> blank ''v1''" "\<not> blank ''db/read''" "\<not> blank ''i1''" "\<not> blank ''db.read''" "\<not> blank ''orders''"
  by (rule not_blank_solid; simp add: solid_def between_def)+

lemma ex_jsons: "json_Valid ''{}''" "json_Valid ex_parameters" "ex_parameters \<noteq> []"
  by (simp_all add: json_Valid_def ex_parameters_def json_eval)

lemma ex_action_digest_pattern [simp]: "digestPattern ex_action_digest"
  by (simp add: ex_action_digest_def)

lemma ex_authority_ok: "ActionAuthority_Validate ex_authority ex_now ex_action_digest ex_digest (seconds 60) = ok"
  by (simp add: ActionAuthority_Validate_ok ex_authority_def ex_blanks seconds_exact Second_def)

lemma ex_execute_ok [simp]: "ExecuteActionRequest_Validate ex_execute ex_capability = ok"
proof -
  have c: "ac_Ref ex_capability = ''db/read''" "ac_Operation ex_capability = ''db.read''" "ac_MaximumTTLSeconds ex_capability = 60"
    by (simp_all add: ex_capability_def)
  show ?thesis
    unfolding ExecuteActionRequest_Validate_ok
    by (simp add: ex_execute_def ex_subject_def binds_action_def c ex_blanks ex_texts ex_jsons ex_authority_ok)
qed

section \<open>Discovery\<close>

definition ex_discovery :: ResourceDiscovery where
  "ex_discovery = \<lparr> rd_Protocol = ResourceDiscoveryProtocol, rd_MaximumPageSize = 10, rd_MaximumAgeSeconds = 60 \<rparr>"

definition ex_search :: ActionCapability where
  "ex_search = ex_capability\<lparr>ac_Discovery := Some ex_discovery\<rparr>"

lemma ex_search_set [simp]: "ac_Discovery ex_search = Some ex_discovery" "ac_Ref ex_search = ''db/read''"
  by (simp_all add: ex_search_def ex_capability_def)

lemma ex_search_ok [simp]: "ActionCapability_Validate ex_search = ok"
  using ex_capability_ok unfolding ActionCapability_Validate_ok
  by (simp add: ex_search_def ex_discovery_def ResourceDiscovery_Validate_ok)

definition ex_search_digest :: string where
  "ex_search_digest = sha_digest (json_text (ActionCapability_json ex_search))"

lemma ex_search_digest [simp]: "ActionCapabilityDigest ex_search = Inr ex_search_digest"
  by (simp add: ActionCapabilityDigest_iff ex_search_digest_def)

definition ex_search_manifest :: Manifest where
  "ex_search_manifest = ex_manifest\<lparr>ma_Actions := [ex_search]\<rparr>"

lemma ex_search_manifest_ok [simp]: "manifest_ok ex_search_manifest"
  using ex_manifest_ok by (simp add: manifest_ok_def ex_search_manifest_def) (simp add: ex_manifest_def)

definition ex_release :: string where
  "ex_release = sha_digest (json_text (Manifest_json ex_search_manifest))"

lemma ex_release [simp]: "Digest ex_search_manifest = Inr ex_release" "digestPattern ex_release"
  by (simp_all add: Digest_iff ex_release_def)

definition ex_exact :: DiscoveryRequest where
  "ex_exact = \<lparr> dr_Protocol = ResourceDiscoveryProtocol, dr_RequestID = ''q1'', dr_TenantID = ''t1'', dr_ConnectionID = ''c1'',
     dr_Provider = ''db'', dr_Release = ''v1'', dr_ManifestDigest = ex_release, dr_AccountRef = ''prod'',
     dr_CapabilityRef = ''db/read'', dr_CapabilityDigest = ex_search_digest, dr_Configuration = ''{}'', dr_Query = [],
     dr_Cursor = [], dr_Limit = 5, dr_ResourceIDs = Some [''orders'', ''users''], dr_Now = ex_now \<rparr>"

lemma ex_discovery_texts:
  "discoveryText ''q1'' n = (2 \<le> n)" "discoveryText ''t1'' n = (2 \<le> n)" "discoveryText ''c1'' n = (2 \<le> n)"
  "discoveryText ''db'' n = (2 \<le> n)" "discoveryText ''v1'' n = (2 \<le> n)" "discoveryText ''prod'' n = (4 \<le> n)"
  "discoveryText ''orders'' n = (6 \<le> n)" "discoveryText ''users'' n = (5 \<le> n)"
proof -
  have t: "discoveryText s n = (length s \<le> n)" if "s \<noteq> []" "list_all solid s" for s
  proof -
    have "TrimSpace s = s" using that by (intro TrimSpace_solid) (auto simp: list_all_iff)
    moreover have "ValidString s" using that(2) by (rule solid_list_valid)
    moreover have "\<not> has_control s" using that(2) by (induction s) (auto simp: solid_def between_def)
    ultimately show ?thesis using that by (simp add: discoveryText_def)
  qed
  show "discoveryText ''q1'' n = (2 \<le> n)" "discoveryText ''t1'' n = (2 \<le> n)" "discoveryText ''c1'' n = (2 \<le> n)"
    "discoveryText ''db'' n = (2 \<le> n)" "discoveryText ''v1'' n = (2 \<le> n)" "discoveryText ''prod'' n = (4 \<le> n)"
    "discoveryText ''orders'' n = (6 \<le> n)" "discoveryText ''users'' n = (5 \<le> n)"
    by (subst t; simp add: solid_def between_def eval_nat_numeral)+
qed

lemma ex_empty: "decodeParameterJSON ''{}'' = Inr (JObject [])"
  by (simp add: decode_eval)

lemma ex_exact_ok [simp]: "DiscoveryRequest_Validate ex_exact ex_search = ok"
  unfolding DiscoveryRequest_Validate_ok
  by (simp add: ex_exact_def ex_discovery_def ex_discovery_texts ex_jsons ex_empty check_exact_ok)

definition ex_exact_digest :: string where
  "ex_exact_digest = (case DiscoveryRequestDigest ex_exact ex_search of Inr d \<Rightarrow> d | Inl _ \<Rightarrow> [])"

lemma ex_exact_digest [simp]: "DiscoveryRequestDigest ex_exact ex_search = Inr ex_exact_digest"
proof -
  have "Marshal_any (canonicalDiscoveryNumbers (JObject [])) = ''{}''"
    by (simp add: Marshal_any_def object_text_def)
  moreover have "dr_Configuration ex_exact = ''{}''" "dr_Now ex_exact = ex_now" by (simp_all add: ex_exact_def)
  ultimately have "\<exists>d. DiscoveryRequestDigest ex_exact ex_search = Inr d"
    unfolding DiscoveryRequestDigest_def by (simp add: ex_empty DiscoveryRequest_text_def raw_text_def ex_jsons ex_now_text)
  then show ?thesis by (auto simp: ex_exact_digest_def)
qed

definition ex_page :: DiscoveryPage where
  "ex_page = \<lparr> dp_Protocol = ResourceDiscoveryProtocol, dp_RequestDigest = ex_exact_digest, dp_ObservedAt = ex_now,
     dp_Resources = Some [\<lparr> ds_ID = ''users'', ds_Label = ''users'', ds_Kind = ''db'' \<rparr>], dp_NextCursor = [],
     dp_MissingResourceIDs = [''orders''] \<rparr>"

lemma ex_page_at:
  assumes "- 30 \<le> s" "s \<le> 30"
  shows "DiscoveryPage_Validate ex_page ex_exact ex_search (ex_later s) = ok"
proof -
  have r: "dr_Limit ex_exact = 5" "dr_Now ex_exact = ex_now" "dr_ResourceIDs ex_exact = Some [''orders'', ''users'']"
    by (simp_all add: ex_exact_def)
  have "\<not> check_stale (ex_later s) ex_now ex_now (rd_MaximumAgeSeconds ex_discovery)"
    using assms by (auto simp: check_stale_def time_defs ex_discovery_def seconds_exact ex_now_def ex_later_def Second_def)
  then show ?thesis
    unfolding DiscoveryPage_Validate_ok
    by (simp add: ex_page_def found_def items_def r resource_ok_def ex_discovery_texts)
qed

lemma ex_page_ok [simp]: "DiscoveryPage_Validate ex_page ex_exact ex_search (ex_later 10) = ok"
  by (rule ex_page_at) simp_all

lemma ex_page_later: "DiscoveryPage_Validate ex_page ex_exact ex_search (ex_later 20) = ok"
  by (rule ex_page_at) simp_all

lemma ex_exact_now_ok: "ValidateAt ex_exact ex_search (ex_later 10) = ok" "ValidateAt ex_exact ex_search (ex_later 20) = ok"
  by (simp_all add: ValidateAt_ok ex_exact_def [THEN arg_cong, of dr_Now] ex_discovery_def seconds_exact Second_def)

section \<open>Issuing\<close>

definition ex_credential :: Credential where
  "ex_credential = \<lparr> cr_Kind = ''token'', cr_MaximumTTLSeconds = 60, cr_RevocationSemantics = ''expiry'',
     cr_PayloadSchema = ex_schema, cr_AuthorizationFeatures = [], cr_LifetimeProtocol = CredentialLifetimeProtocol \<rparr>"

definition ex_issue :: IssueRequest where
  "ex_issue = \<lparr> is_RequestID = ''q1'', is_ConnectionID = ''c1'', is_Provider = ''db'', is_Release = ''v1'', is_AccountRef = ''prod'',
     is_Configuration = ''{}'', is_Subject = ex_subject, is_Authorization = ex_authorization, is_AuthorizationDigest = [],
     is_Now = ex_now, is_Lifetime = Some \<lparr> cl_Protocol = CredentialLifetimeProtocol, cl_TaskExpiresAt = ex_later 50 \<rparr> \<rparr>"

definition ex_material :: Material where
  "ex_material = \<lparr> mt_Kind = ''token'', mt_Payload = ''{}'', mt_ExpiresAt = ex_later 50, mt_TargetIdentity = ''db'',
     mt_RevocationSemantics = ''expiry'', mt_AuthorizationDigest = [] \<rparr>"

lemma ex_issued_ok: "ValidateIssuedLifetime ex_issue ex_credential ex_material ex_now = ok"
  by (simp add: IssuedLifetime_ok IssueLifetime_ok ex_issue_def ex_credential_def ex_material_def Second_def Minute_def)

section \<open>A discovery service\<close>

definition ex_context :: go_context where
  "ex_context = \<lparr> cx_Err = None, cx_Remaining = None \<rparr>"

definition ex_answer :: "go_context \<Rightarrow> DiscoveryRequest \<Rightarrow> DiscoveryPage outcome" where
  "ex_answer ctx q = \<lparr> oc_Result = Inr ex_page, oc_Elapsed = 10 * Second, oc_Cancelled = False \<rparr>"

definition ex_service :: DiscoveryService where
  "ex_service = \<lparr> dsv_Manifest = ex_search_manifest, dsv_ManifestDigest = ex_release, dsv_Implementation = Some ex_answer \<rparr>"

lemma ex_search_manifest_set [simp]: "ma_Actions ex_search_manifest = [ex_search]" "ma_Provider ex_search_manifest = ''db''"
  "ma_Release ex_search_manifest = ''v1''" "ma_Broker ex_search_manifest = ex_broker"
  by (simp_all add: ex_search_manifest_def ex_manifest_def)

lemma ex_service_ok [simp]: "DiscoveryService_Validate ex_service = ok"
  by (simp add: DiscoveryService_Validate_ok ex_service_def)

lemma ex_service_answer_in:
  assumes "cx_Err ctx = None" "\<forall>r. cx_Remaining ctx = Some r \<longrightarrow> 10 * Second < r"
  shows "Service_DiscoverResources ex_service ctx ex_exact ex_now = Inr ex_page"
proof -
  have r: "dr_Provider ex_exact = ''db''" "dr_Release ex_exact = ''v1''" "dr_ManifestDigest ex_exact = ex_release"
    "dr_CapabilityRef ex_exact = ''db/read''" "dr_Now ex_exact = ex_now"
    by (simp_all add: ex_exact_def)
  have v: "ValidateAt ex_exact ex_search ex_now = ok"
    by (simp add: ValidateAt_ok r ex_discovery_def seconds_exact Second_def)
  have s: "dsv_Manifest ex_service = ex_search_manifest" "dsv_ManifestDigest ex_service = ex_release"
    "dsv_Implementation ex_service = Some ex_answer"
    by (simp_all add: ex_service_def)
  have t: "ex_now\<lparr>inst := 63839664010000000000\<rparr> = ex_later 10" by (simp add: ex_later_def AddT_def Second_def)
  have "WithTimeout ctx (SubT (AddT ex_now (seconds (rd_MaximumAgeSeconds ex_discovery))) ex_now) = ctx\<lparr>cx_Remaining := Some r\<rparr> \<Longrightarrow> 10 * Second < r" for r
    using assms by (cases ctx) (auto simp: WithTimeout_def SubT_def AddT_def ex_discovery_def seconds_exact Second_def min_def split: option.splits)
  then have e: "ctx_Err_after (WithTimeout ctx (SubT (AddT ex_now (seconds (rd_MaximumAgeSeconds ex_discovery))) ex_now)) (ex_answer c q) = ok" for c q
    using assms(1) by (auto simp: ctx_Err_after_ok ctx_Err_def WithTimeout_def ex_answer_def)
  show ?thesis
    unfolding Service_DiscoverResources_def
    by (simp add: ctx_Err_def assms(1) s r v e Let_def) (simp add: ex_answer_def AddT_def t Second_def)
qed

lemma ex_service_answer: "Service_DiscoverResources ex_service ex_context ex_exact ex_now = Inr ex_page"
  by (rule ex_service_answer_in) (simp_all add: ex_context_def)

section \<open>A handler\<close>

definition ex_broker_calls :: BrokerImplementation where
  "ex_broker_calls = \<lparr> bi_Prepare = (\<lambda>_. fail ''no''), bi_Verify = (\<lambda>_. fail ''no''), bi_Issue = (\<lambda>_. fail ''no'') \<rparr>"

definition ex_handler :: HTTPHandler where
  "ex_handler = \<lparr> hh_Implementation = Some ex_broker_calls, hh_Actions = None, hh_Discovery = None, hh_SharedSecret = ''s1'',
     hh_ManifestDigest = ex_release, hh_Release = ''v1'' \<rparr>"

text \<open>A request whose sender's clock is two minutes ahead of \<open>ex_now\<close>.\<close>

definition ex_ahead :: HttpRequest where
  "ex_ahead = \<lparr> hq_Path = ''/v1/verify'', hq_Release = ''v1'', hq_ManifestDigest = ex_release,
     hq_Timestamp = ''2024-01-01T00:02:00Z'', hq_Nonce = ''n1'',
     hq_Signature = Signature ''s1'' ''2024-01-01T00:02:00Z'' ''n1'' ''{}'', hq_Body = Some ''{}'' \<rparr>"

lemma ex_ahead_time: "ParseRFC3339 ''2024-01-01T00:02:00Z'' = Some (ex_later 120)"
  by (simp add: ParseRFC3339_def expect_def getnum_def fraction_def parse_zone_def is_digit_def between_def digits_val_def
      digit_val_def civil_days_def year_days_def month_days_def leap_def ex_later_def ex_now_def AddT_def Second_def Let_def)

lemma ex_ahead_authentic: "0 \<le> s \<Longrightarrow> s \<le> 240 \<Longrightarrow> authentic ex_handler (ex_later s) ex_ahead ''{}''"
proof -
  have "\<not> blank ''n1''" by (rule not_blank_solid) (simp_all add: solid_def between_def)
  then show "0 \<le> s \<Longrightarrow> s \<le> 240 \<Longrightarrow> authentic ex_handler (ex_later s) ex_ahead ''{}''"
    by (simp add: authentic_def ex_handler_def ex_ahead_def VerifySignature_ok ex_ahead_time maxProtocolBody_def
        UTC_def Minute_def Second_def)
qed

lemma ex_ahead_replay:
  "\<exists>s. run (auth_step ex_handler) Map.empty [Accepted ex_ahead (\<lambda>_. ex_later 0), Accepted ex_ahead (\<lambda>_. ex_later 210)] s"
proof -
  have "\<exists>s. auth_step ex_handler Map.empty (Accepted ex_ahead (\<lambda>_. ex_later 0)) s \<and>
      (\<forall>k t. s k = Some t \<longrightarrow> inst t = inst (ex_later 0))"
    unfolding accept_simps using ex_ahead_authentic [of 0]
    by (fastforce simp: authenticate_Some purge_def UTC_def)
  then obtain s where s: "auth_step ex_handler Map.empty (Accepted ex_ahead (\<lambda>_. ex_later 0)) s"
      "\<And>k t. s k = Some t \<Longrightarrow> inst t = inst (ex_later 0)" by blast
  have "purge (AddT (UTC (ex_later 210)) (- 3 * Minute)) s k = None" for k
    using s(2) [of k] by (auto simp: purge_def Before_def AddT_def UTC_def Minute_def Second_def split: option.splits)
  then have "\<exists>s'. auth_step ex_handler s (Accepted ex_ahead (\<lambda>_. ex_later 210)) s'"
    unfolding accept_simps using ex_ahead_authentic [of 210] by (fastforce simp: authenticate_Some)
  then show ?thesis using s(1) by (fastforce simp: run_simps)
qed

section \<open>A runtime\<close>

definition ex_registration :: RuntimeRegistration where
  "ex_registration = \<lparr> rr_Protocol = OutboundRuntimeProtocol, rr_ConnectionID = ''c1'', rr_Provider = ''db'', rr_Release = ''v1'',
     rr_ManifestDigest = ex_release, rr_RuntimeArtifactDigest = sha_digest ''image'', rr_RuntimeID = ''r1'' \<rparr>"

lemma ex_registration_ok: "RuntimeRegistration_Validate ex_registration ex_search_manifest ex_release = ok"
  by (simp add: RuntimeRegistration_Validate_ok ex_registration_def ex_broker_def TransportMode_def manifest_protocols
      ex_blanks ex_texts)

definition ex_failure :: DispatchResult where
  "ex_failure = \<lparr> do_Protocol = OutboundRuntimeProtocol, do_DispatchID = ''d1'', do_ConnectionID = ''c1'', do_RuntimeID = ''r1'',
     do_Phase = OutboundPhaseExecuteAction, do_RequestDigest = ex_digest, do_ClaimToken = ''t1'', do_Response = [],
     do_ResponseDigest = [], do_Failure = ''prod'', do_CompletedAt = ex_now \<rparr>"

lemma ex_failure_ok: "DispatchResult_Validate ex_failure = ok"
  by (simp add: DispatchResult_Validate_ok ex_failure_def ex_blanks ex_texts phases_def)

section \<open>A served request\<close>

definition ex_prepares :: BrokerImplementation where
  "ex_prepares = ex_broker_calls\<lparr>bi_Prepare := \<lambda>_. Inr \<lparr> cn_Configuration = ''{}'', cn_Onboarding = ''{}'' \<rparr>\<rparr>"

definition ex_prepare_body :: string where
  "ex_prepare_body = ''{\"release\":\"v1\"}''"

definition ex_prepare :: HttpRequest where
  "ex_prepare = \<lparr> hq_Path = ''/v1/prepare'', hq_Release = ''v1'', hq_ManifestDigest = ex_release,
     hq_Timestamp = ''2024-01-01T00:02:00Z'', hq_Nonce = ''n1'',
     hq_Signature = Signature ''s1'' ''2024-01-01T00:02:00Z'' ''n1'' ex_prepare_body, hq_Body = Some ex_prepare_body \<rparr>"

lemma split_members_rec:
  "split_members n s =
     (if n = 0 then None else
      case scan_name s of
        None \<Rightarrow> None
      | Some (k, s1) \<Rightarrow>
          (case scan_value maxNestingDepth s1 of
             None \<Rightarrow> None
           | Some (_, s2) \<Rightarrow>
               let t = skip_ws s1; raw = take (length t - length s2) t
               in (case skip_ws s2 of
                     [] \<Rightarrow> None
                   | c # s3 \<Rightarrow>
                       if c = CHR '','' then map_option ((#) (k, raw)) (split_members (n - 1) s3)
                       else if c = CHR ''}'' then Some [(k, raw)] else None)))"
  by (cases n; hypsubst; simp only: split_members.simps diff_Suc_1 nat.distinct refl if_False if_True)

lemmas decode_struct_eval = decodeStrict_def decode_struct_def raw_members_def decode_string_def on_value_def
  at_field_def find_field_def json_Valid_def

lemma ex_prepare_read: "\<exists>q. decodeStrict prepare_fields zero_prepare ex_prepare_body = Some q \<and> pr_Release q = ''v1''"
  by (simp add: ex_prepare_body_def decode_struct_eval split_members_rec prepare_fields_def json_eval)

lemma ex_prepared:
  "hr_Status (fst (serve (ex_handler\<lparr>hh_Implementation := Some ex_prepares\<rparr>) ex_context (\<lambda>_. ex_now) Map.empty ex_prepare)) = 200"
proof -
  have "\<not> blank ''n1''" by (rule not_blank_solid) (simp_all add: solid_def between_def)
  then have "authentic ex_handler ex_now ex_prepare ex_prepare_body"
    by (simp add: authentic_def ex_handler_def ex_prepare_def VerifySignature_ok ex_ahead_time maxProtocolBody_def
        UTC_def Minute_def Second_def) (simp add: ex_prepare_body_def)
  then have "\<exists>s. authenticate ex_handler (\<lambda>_. ex_now) Map.empty ex_prepare = (Some (ex_prepare_body, ''n1''), s)"
    by (simp add: authenticate_Some purge_def ex_prepare_def)
  then obtain s where a: "authenticate ex_handler (\<lambda>_. ex_now) Map.empty ex_prepare = (Some (ex_prepare_body, ''n1''), s)" ..
  obtain q where q: "decodeStrict prepare_fields zero_prepare ex_prepare_body = Some q" "pr_Release q = ''v1''"
    using ex_prepare_read by blast
  have "Connection_text \<lparr> cn_Configuration = ''{}'', cn_Onboarding = ''{}'' \<rparr> \<noteq> Inl e" for e
    by (simp add: Connection_text_def struct_text_def raw_text_def ex_jsons)
  moreover have "hq_Path ex_prepare = ''/v1/prepare''" "hh_Release ex_handler = ''v1''"
    by (simp_all add: ex_prepare_def ex_handler_def)
  ultimately show ?thesis
    by (simp add: serve_def handlePrepare_def a q ex_prepares_def respond_def Let_def split: sum.split)
qed

end
