(* ===== verification/Compact.thy ===== *)
theory Compact
  imports Structs
begin

text \<open>
  What \<open>json.Marshal\<close> does to a \<open>json.RawMessage\<close>: it rewrites the text (no white space, HTML
  escapes) but not the value. The scanner reads from the rewritten text the tree it read from
  the original.
\<close>

section \<open>Characters that are copied\<close>

lemma compact_plain:
  "c \<notin> {CHR 0x22, CHR 0x5C, CHR ''<'', CHR ''>'', CHR ''&''} \<Longrightarrow>
     take 3 (c # s) \<notin> {map byte [0xE2, 0x80, 0xA8], map byte [0xE2, 0x80, 0xA9]} \<Longrightarrow>
     compact True (c # s) = c # compact True s"
  by auto

lemma compact_close: "compact True (CHR 0x22 # s) = CHR 0x22 # compact False s"
  by simp

lemma compact_escape: "compact True (CHR 0x5C # e # s) = CHR 0x5C # e # compact True s"
  by simp

lemma compact_html:
  "c \<in> {CHR ''<'', CHR ''>'', CHR ''&''} \<Longrightarrow> compact True (c # s) = ascii_escape c @ compact True s"
  by (auto simp: ascii_escape_def)

lemma compact_rune:
  assumes "take 3 (c # s) = w" "w \<in> {map byte [0xE2, 0x80, 0xA8], map byte [0xE2, 0x80, 0xA9]}"
  shows "compact True (c # s) = rune_escape w @ compact True (drop 2 s)"
proof -
  have "c = byte 0xE2" using assms by auto
  then have "c \<notin> {CHR 0x22, CHR 0x5C, CHR ''<'', CHR ''>'', CHR ''&''}"
    by (auto dest: arg_cong [of _ _ code])
  moreover have "byte 0xA8 \<noteq> byte 0xA9" by (auto dest: arg_cong [of _ _ code])
  ultimately show ?thesis using assms by (auto simp: rune_escape_def)
qed

lemma compact_True_cases:
  obtains (close) "c = CHR 0x22" | (escape) "c = CHR 0x5C" | (html) "c \<in> {CHR ''<'', CHR ''>'', CHR ''&''}"
    | (rune) "take 3 (c # s) \<in> {map byte [0xE2, 0x80, 0xA8], map byte [0xE2, 0x80, 0xA9]}"
    | (plain) "compact True (c # s) = c # compact True s"
  using compact_plain by blast

declare compact.simps [simp del]

lemma compact_Nil [simp]: "compact q [] = []"
  by (simp add: compact.simps)

definition copied :: "char \<Rightarrow> bool" where
  "copied c \<longleftrightarrow> c \<notin> {CHR 0x22, CHR 0x5C, CHR ''<'', CHR ''>'', CHR ''&''} \<and> code c \<noteq> 0xE2"

lemma compact_copied: "copied c \<Longrightarrow> compact True (c # s) = c # compact True s"
proof (rule compact_plain)
  assume c: "copied c"
  then have "c \<noteq> byte 0xE2" by (auto simp: copied_def)
  then show "take 3 (c # s) \<notin> {map byte [0xE2, 0x80, 0xA8], map byte [0xE2, 0x80, 0xA9]}" by simp
qed (simp add: copied_def)

lemma cont_copied: "cont c \<Longrightarrow> copied c"
  by (auto simp: cont_def copied_def between_def)

lemma compact_cont: "list_all cont u \<Longrightarrow> compact True (u @ s) = u @ compact True s"
  by (induction u) (simp_all add: compact_copied cont_copied)

lemma hex_copied: "hex_val c = Some n \<Longrightarrow> copied c"
  by (auto simp: hex_val_def copied_def is_digit_def between_def split: if_splits)

text \<open>The bytes that continue a rune are the same before and after.\<close>

lemma compact_hd:
  assumes "\<not> cont c"
  shows "\<exists>x u. compact True (c # s) = x # u \<and> \<not> cont x"
proof (cases rule: compact_True_cases [where c = c and s = s])
  case escape
  then show ?thesis by (cases s) (simp_all add: compact.simps cont_def between_def)
qed (use assms in \<open>auto simp: compact_close compact_html compact_rune ascii_escape_def rune_escape_def cont_def between_def\<close>)

lemma takeWhile_cont_compact: "takeWhile cont (compact True s) = takeWhile cont s"
proof (induction s)
  case (Cons c s)
  show ?case
  proof (cases "cont c")
    case True
    then show ?thesis using Cons by (simp add: compact_copied cont_copied)
  next
    case False
    then obtain x u where "compact True (c # s) = x # u" "\<not> cont x" using compact_hd by blast
    then show ?thesis using False by (simp)
  qed
qed simp

lemma rune_len_cont:
  assumes "takeWhile cont s = takeWhile cont s'"
  shows "rune_len (c # s) = rune_len (c # s')"
proof -
  have run: "rune_len (c # t) = (let k = rune_size c in if k = 1 then 1 else
      if k \<noteq> 0 \<and> k \<le> Suc (length (takeWhile cont t)) \<and> second_ok c (hd (takeWhile cont t)) then k else 0)" for t
  proof (cases t)
    case (Cons b u)
    have second: "second_ok c b \<Longrightarrow> cont b" by (auto simp: second_ok_def cont_def between_def split: if_splits)
    have len: "list_all cont (take n u) \<and> n \<le> length u \<longleftrightarrow> n \<le> length (takeWhile cont u)" for n
    proof (induction u arbitrary: n)
      case (Cons x u)
      then show ?case by (cases n) auto
    qed simp
    have "rune_size c \<in> {0, 1, 2, 3, 4}" by (simp add: rune_size_def)
    then show ?thesis
      using Cons second len [of 0] len [of 1] len [of 2]
      by (auto simp: rune_len_def Let_def)
  qed (auto simp: rune_len_def rune_size_def Let_def)
  show ?thesis unfolding run [of s] run [of s'] assms ..
qed

lemma takeWhile_quoted: "takeWhile cont (u @ CHR 0x22 # x) = takeWhile cont (u @ CHR 0x22 # y)"
proof -
  have "\<not> cont (CHR 0x22)" by (simp add: cont_def between_def)
  then show ?thesis by (induction u) simp_all
qed

section \<open>Strings\<close>

lemma hex4_compact:
  assumes "hex4 s = Some n"
  obtains a b c d t where "s = a # b # c # d # t" "compact True s = a # b # c # d # compact True t"
    "\<forall>r. hex4 (a # b # c # d # r) = Some n"
proof -
  obtain a b c d t where s: "s = a # b # c # d # t" using assms by (auto simp: hex4_def split: list.splits)
  then have "copied a" "copied b" "copied c" "copied d"
    using assms hex_copied by (auto simp: hex4_def split: Option.bind_splits)
  then have "compact True s = a # b # c # d # compact True t" by (simp only: s compact_copied)
  moreover have "\<forall>r. hex4 (a # b # c # d # r) = Some n" using assms by (simp add: s hex4_def)
  ultimately show ?thesis by (rule that [OF s])
qed

lemma surrogate_pair_more: "scan_string t = Some (v, q) \<Longrightarrow> surrogate_pair x (t @ r) = surrogate_pair x t"
proof -
  assume t: "scan_string t = Some (v, q)"
  show ?thesis
  proof (cases "\<exists>s. t = CHR 0x5C # CHR ''u'' # s")
    case True
    then obtain s where s: "t = CHR 0x5C # CHR ''u'' # s" by blast
    then obtain n where "hex4 s = Some n" using t by (auto split: option.splits)
    then obtain a b c d u where "s = a # b # c # d # u" by (auto simp: hex4_def split: list.splits)
    then show ?thesis by (simp add: s surrogate_pair_def hex4_def)
  next
    case False
    obtain a w where a: "t = a # w" using t by (cases t) auto
    show ?thesis
    proof (cases w)
      case Nil
      then have "a \<noteq> CHR 0x5C" using t a by auto
      then show ?thesis using a Nil by (auto simp: surrogate_pair_def split: list.split)
    next
      case (Cons b z)
      then show ?thesis using False a by (auto simp: surrogate_pair_def)
    qed
  qed
qed

lemma surrogate_pair_other:
  "hd s \<noteq> CHR 0x5C \<or> hd (tl s) \<noteq> CHR ''u'' \<Longrightarrow> surrogate_pair x s = None"
  by (auto simp: surrogate_pair_def split: list.split)

lemma surrogate_pair_u:
  "hex4 t = Some m \<Longrightarrow> surrogate_pair x (CHR 0x5C # CHR ''u'' # t) =
     (if x < 0xDC00 \<and> 0xDC00 \<le> m \<and> m < 0xE000 then Some (0x10000 + (x - 0xD800) * 1024 + (m - 0xDC00)) else None)"
  by (simp add: surrogate_pair_def)

lemma sur_gap: "k < 256 \<Longrightarrow> \<not> (0xDC00 \<le> m * 4096 + k \<and> m * 4096 + k < (0xE000 :: nat))"
  by (cases "m \<le> 13") simp_all

lemma surrogate_pair_basic: "surrogate_pair x (CHR 0x5C # CHR ''u'' # a # CHR ''0'' # t) = None"
proof -
  have z: "hex_val CHR ''0'' = Some 0" by (simp add: hex_val_def is_digit_def between_def)
  have digit: "hex_val c = Some k \<Longrightarrow> k < 16" for c k
    by (auto simp: hex_val_def is_digit_def between_def split: if_splits)
  have "\<exists>m k. r2 = m * 4096 + k \<and> k < 256" if h: "hex4 (a # CHR ''0'' # t) = Some r2" for r2
  proof -
    obtain c d u where t: "t = c # d # u" using h by (auto simp: hex4_def split: list.splits)
    then obtain m n k where "hex_val c = Some n" "hex_val d = Some k" "r2 = ((m * 16 + 0) * 16 + n) * 16 + k"
      using h by (auto simp: hex4_def z split: Option.bind_splits)
    then have "r2 = m * 4096 + (n * 16 + k)" "n * 16 + k < 256" using digit [of c n] digit [of d k] by auto
    then show ?thesis by blast
  qed
  then have "\<not> (0xDC00 \<le> r2 \<and> r2 < 0xE000)" if "hex4 (a # CHR ''0'' # t) = Some r2" for r2
    using that by (metis (full_types) sur_gap)
  then show ?thesis by (auto simp: surrogate_pair_def split: option.split)
qed

lemma surrogate_pair_compact:
  assumes "scan_string s = Some (v, r)" "surrogate_pair x s = None"
  shows "surrogate_pair x (compact True s) = None"
proof -
  obtain c cs where s: "s = c # cs" using assms(1) by (cases s) auto
  have esc: ?thesis if escape: "c = CHR 0x5C"
  proof -
    obtain e es where cs: "cs = e # es" using assms(1) s escape by (cases cs) auto
    show ?thesis
    proof (cases "e = CHR ''u''")
      case u: True
      then obtain n where n: "hex4 es = Some n" using assms(1) s escape cs by (auto split: option.splits)
      obtain a b d f t where h: "es = a # b # d # f # t" "compact True es = a # b # d # f # compact True t"
        "\<forall>r. hex4 (a # b # d # f # r) = Some n" using hex4_compact [OF n] by blast
      show ?thesis using assms(2) h(3)
        by (simp add: s escape cs u surrogate_pair_u compact_escape h(2)) (simp add: h(1) surrogate_pair_u split: if_splits)
    qed (simp add: s escape cs compact_escape surrogate_pair_other)
  qed
  show ?thesis
  proof (cases rule: compact_True_cases [where c = c and s = cs])
    case escape
    then show ?thesis by (rule esc)
  next
    case html
    then show ?thesis by (auto simp: s compact_html ascii_escape_def surrogate_pair_basic)
  next
    case rune
    then show ?thesis by (auto simp: s compact_rune rune_escape_def surrogate_pair_basic)
  next
    case plain
    show ?thesis
    proof (cases "c = CHR 0x5C")
      case False
      then show ?thesis using plain by (simp add: s surrogate_pair_other)
    qed (use esc in blast)
  qed (simp add: s compact_close surrogate_pair_other)
qed

lemma rune_len_conts:
  assumes "rune_len (c # cs) = n" "n \<noteq> 0" "\<not> code c < 0x80"
  shows "list_all cont (take (n - 1) cs)"
proof -
  have two: "n \<ge> 2" using rune_len_multi [of c cs] assms by simp
  have "second_ok c b \<Longrightarrow> cont b" for b by (auto simp: second_ok_def cont_def between_def split: if_splits)
  then show ?thesis
    using assms two by (cases cs; cases n; cases "n - 1") (auto simp: rune_len_def Let_def split: if_splits)
qed

lemma rune_len_E2: "code c = 0xE2 \<Longrightarrow> rune_len (c # s) \<in> {0, 3}"
  by (simp add: rune_len_def rune_size_def Let_def between_def)

lemma rune_len_separator:
  "take 3 (c # cs) \<in> {map byte [0xE2, 0x80, 0xA8], map byte [0xE2, 0x80, 0xA9]} \<Longrightarrow> rune_len (c # cs) = 3"
proof -
  assume *: "take 3 (c # cs) \<in> {map byte [0xE2, 0x80, 0xA8], map byte [0xE2, 0x80, 0xA9]}"
  obtain b b' where "c = byte 0xE2" "take 2 cs = [byte 0x80, b]" "cont b"
    using * by (auto simp: cont_def between_def)
  then show ?thesis
    by (cases cs; cases "tl cs") (auto simp: rune_len_def rune_size_def second_ok_def between_def)
qed

lemma compact_multi:
  assumes "\<not> code c < 0x80" "rune_len (c # cs) = n" "n \<noteq> 0"
  shows "compact True (c # cs) = rune_escape (take n (c # cs)) @ compact True (drop (n - 1) cs)"
proof (cases "take 3 (c # cs) \<in> {map byte [0xE2, 0x80, 0xA8], map byte [0xE2, 0x80, 0xA9]}")
  case True
  then have "n = 3" using rune_len_separator assms(2) by simp
  then show ?thesis using compact_rune [OF refl True] by simp
next
  case False
  have "c \<notin> {CHR 0x22, CHR 0x5C, CHR ''<'', CHR ''>'', CHR ''&''}" using assms(1) by auto
  from compact_plain [OF this False] have "compact True (c # cs) = c # compact True cs" .
  also have "\<dots> = c # take (n - 1) cs @ compact True (drop (n - 1) cs)"
    using compact_cont [OF rune_len_conts [OF assms(2,3,1)], of "drop (n - 1) cs"] by simp
  finally have "compact True (c # cs) = (c # take (n - 1) cs) @ compact True (drop (n - 1) cs)" by simp
  moreover have "c # take (n - 1) cs = take n (c # cs)" using assms(3) by (simp add: take_Cons')
  ultimately have "compact True (c # cs) = take n (c # cs) @ compact True (drop (n - 1) cs)" by simp
  moreover have "rune_escape (take n (c # cs)) = take n (c # cs)"
  proof -
    have "take n (c # cs) \<notin> {map byte [0xE2, 0x80, 0xA8], map byte [0xE2, 0x80, 0xA9]}"
    proof
      assume *: "take n (c # cs) \<in> {map byte [0xE2, 0x80, 0xA8], map byte [0xE2, 0x80, 0xA9]}"
      then have "length (take n (c # cs)) = 3" by (auto simp del: length_take)
      moreover have "n \<le> length (c # cs)" using rune_len_length assms(2) by blast
      ultimately have "n = 3" by simp
      then show False using * False by simp
    qed
    then show ?thesis by (simp add: rune_escape_def)
  qed
  ultimately show ?thesis by simp
qed

theorem scan_string_compact:
  "scan_string s = Some (v, r) \<Longrightarrow>
     \<exists>u. compact True s = u @ CHR 0x22 # compact False r \<and> (\<forall>q. scan_string (u @ CHR 0x22 # q) = Some (v, q))"
proof (induction s arbitrary: v rule: length_induct)
  case (1 s)
  have IH: "\<exists>u. compact True t = u @ CHR 0x22 # compact False r \<and> (\<forall>q. scan_string (u @ CHR 0x22 # q) = Some (w, q))"
    if "scan_string t = Some (w, r)" "length t < length s" for t w using "1.IH" that by blast
  obtain c cs where s: "s = c # cs" using "1.prems" by (cases s) auto
  consider (close) "c = CHR 0x22" | (escape) e es where "c = CHR 0x5C" "cs = e # es"
    | (html) "c \<in> {CHR ''<'', CHR ''>'', CHR ''&''}"
    | (plain) "c \<notin> {CHR 0x22, CHR 0x5C, CHR ''<'', CHR ''>'', CHR ''&''}" "\<not> code c < 0x20" "code c < 0x80"
    | (multi) "\<not> code c < 0x80"
    using "1.prems" by (cases cs) (auto simp: s split: if_splits)
  then show ?case
  proof cases
    case close
    then show ?thesis using "1.prems" by (intro exI [of _ "[]"]) (simp add: s compact_close)
  next
    case escape
    show ?thesis
    proof (cases "e = CHR ''u''")
      case False
      then obtain b w where b: "simple_escape e = Some b" "scan_string es = Some (w, r)" "v = b # w"
        using "1.prems" by (auto simp: s escape prepend_Some split: option.splits)
      obtain u where u: "compact True es = u @ CHR 0x22 # compact False r" "\<forall>q. scan_string (u @ CHR 0x22 # q) = Some (w, q)"
        using IH [OF b(2)] by (auto simp: s escape)
      show ?thesis using u b False
        by (intro exI [of _ "CHR 0x5C # e # u"]) (simp add: s escape compact_escape prepend_def)
    next
      case True
      then obtain n where n: "hex4 es = Some n" using "1.prems" by (auto simp: s escape split: option.splits)
      obtain a b d f t where h: "es = a # b # d # f # t" "compact True es = a # b # d # f # compact True t"
        "\<forall>r. hex4 (a # b # d # f # r) = Some n" using hex4_compact [OF n] by blast
      show ?thesis
      proof (cases "\<exists>p. surrogate n \<and> surrogate_pair n t = Some p")
        case pair: True
        then obtain p where p: "surrogate n" "surrogate_pair n t = Some p" by blast
        then obtain es' m where t: "t = CHR 0x5C # CHR ''u'' # es'" "hex4 es' = Some m"
          by (auto simp: surrogate_pair_def split: if_splits list.splits option.splits)
        obtain a' b' d' f' t' where h': "es' = a' # b' # d' # f' # t'"
          "compact True es' = a' # b' # d' # f' # compact True t'"
          "\<forall>r. hex4 (a' # b' # d' # f' # r) = Some m" using hex4_compact [OF t(2)] by blast
        obtain w where w: "scan_string t' = Some (w, r)" "v = encode_rune p @ w"
          using "1.prems" p n by (auto simp: s escape True h(1) t(1) h'(1) prepend_Some)
        obtain u where u: "compact True t' = u @ CHR 0x22 # compact False r" "\<forall>q. scan_string (u @ CHR 0x22 # q) = Some (w, q)"
          using IH [OF w(1)] by (auto simp: s escape h(1) t(1) h'(1))
        define e1 where "e1 = CHR 0x5C # CHR ''u'' # a # b # d # f # CHR 0x5C # CHR ''u'' # a' # b' # d' # f' # u"
        have "compact True s = e1 @ CHR 0x22 # compact False r"
          by (simp add: s escape True compact_escape h(2)) (simp add: t(1) compact_escape h'(2) u(1) e1_def)
        moreover have "surrogate_pair n (CHR 0x5C # CHR ''u'' # a' # b' # d' # f' # q) = Some p" for q
          using p(2) h'(3) by (simp add: t(1) h'(1) surrogate_pair_u)
        then have "scan_string (e1 @ CHR 0x22 # q) = Some (v, q)" for q
          using h(3) p(1) u(2) by (simp add: e1_def w(2) prepend_def)
        ultimately show ?thesis by blast
      next
        case single: False
        define x where "x = (if surrogate n then replacement else encode_rune n)"
        obtain w where w: "scan_string t = Some (w, r)" "v = x @ w"
          using "1.prems" single n
          by (cases "surrogate_pair n t") (auto simp: s escape True h(1) prepend_Some x_def split: if_splits)
        obtain u where u: "compact True t = u @ CHR 0x22 # compact False r" "\<forall>q. scan_string (u @ CHR 0x22 # q) = Some (w, q)"
          using IH [OF w(1)] by (auto simp: s escape h(1))
        have none: "surrogate_pair n (u @ CHR 0x22 # q) = None" if "surrogate n" for q
        proof -
          have "surrogate_pair n (compact True t) = None"
            using surrogate_pair_compact [OF w(1)] single that by (cases "surrogate_pair n t") auto
          then have "surrogate_pair n ((u @ [CHR 0x22]) @ compact False r) = None" using u(1) by simp
          moreover have "scan_string (u @ [CHR 0x22]) = Some (w, [])" using u(2) by simp
          ultimately have "surrogate_pair n ((u @ [CHR 0x22]) @ q) = None" by (simp only: surrogate_pair_more)
          then show ?thesis by simp
        qed
        define e1 where "e1 = CHR 0x5C # CHR ''u'' # a # b # d # f # u"
        have "compact True s = e1 @ CHR 0x22 # compact False r"
          by (simp add: s escape True compact_escape h(2) u(1) e1_def)
        moreover have "scan_string (e1 @ CHR 0x22 # q) = Some (v, q)" for q
          using h(3) none u(2) by (simp add: e1_def w(2) x_def prepend_def)
        ultimately show ?thesis by blast
      qed
    qed
  next
    case html
    then obtain w where w: "scan_string cs = Some (w, r)" "v = c # w"
      using "1.prems" by (auto simp: s Let_def prepend_Some)
    obtain u where u: "compact True cs = u @ CHR 0x22 # compact False r" "\<forall>q. scan_string (u @ CHR 0x22 # q) = Some (w, q)"
      using IH [OF w(1)] by (auto simp: s)
    have "code c < 0x80" using html by auto
    from scan_ascii_escape [OF this] have "\<forall>q. scan_string (ascii_escape c @ u @ CHR 0x22 # q) = Some (v, q)"
      by (simp add: u w prepend_def)
    moreover have "compact True s = ascii_escape c @ compact True cs" using html by (simp only: s compact_html)
    ultimately show ?thesis using u(1) by (intro exI [of _ "ascii_escape c @ u"]) simp
  next
    case plain
    then obtain w where w: "scan_string cs = Some (w, r)" "v = c # w"
      using "1.prems" by (auto simp: s Let_def prepend_Some)
    obtain u where u: "compact True cs = u @ CHR 0x22 # compact False r" "\<forall>q. scan_string (u @ CHR 0x22 # q) = Some (w, q)"
      using IH [OF w(1)] by (auto simp: s)
    have "copied c" using plain by (auto simp: copied_def)
    then have "compact True s = (c # u) @ CHR 0x22 # compact False r" by (simp add: s compact_copied u)
    moreover have "scan_string ((c # u) @ CHR 0x22 # q) = Some (v, q)" for q
      using plain u w by (simp add: Let_def prepend_def)
    ultimately show ?thesis by blast
  next
    case multi
    define n where "n = rune_len (c # cs)"
    have not: "c \<notin> {CHR 0x22, CHR 0x5C, CHR ''<'', CHR ''>'', CHR ''&''}" "\<not> code c < 0x20" using multi by auto
    show ?thesis
    proof (cases "n = 0")
      case True
      then obtain w where w: "scan_string cs = Some (w, r)" "v = replacement @ w"
        using "1.prems" not by (auto simp: s Let_def prepend_Some n_def)
      obtain u where u: "compact True cs = u @ CHR 0x22 # compact False r" "\<forall>q. scan_string (u @ CHR 0x22 # q) = Some (w, q)"
        using IH [OF w(1)] by (auto simp: s)
      have "take 3 (c # cs) \<notin> {map byte [0xE2, 0x80, 0xA8], map byte [0xE2, 0x80, 0xA9]}"
        using True rune_len_separator by (auto simp: n_def)
      then have "compact True s = (c # u) @ CHR 0x22 # compact False r"
        using not compact_plain u(1) by (simp add: s)
      moreover have "scan_string ((c # u) @ CHR 0x22 # q) = Some (v, q)" for q
      proof -
        have "takeWhile cont (u @ CHR 0x22 # q) = takeWhile cont cs"
          using takeWhile_cont_compact [of cs] takeWhile_quoted [of u q "compact False r"] by (simp only: u(1))
        then have "rune_len (c # u @ CHR 0x22 # q) = 0" using rune_len_cont True unfolding n_def by metis
        then show ?thesis using not u(2) by (simp add: Let_def w(2) prepend_def)
      qed
      ultimately show ?thesis by blast
    next
      case False
      define x where "x = take n (c # cs)"
      have n2: "n \<ge> 2" "n \<le> Suc (length cs)"
        using rune_len_multi [of c cs] rune_len_length [of "c # cs"] multi False by (simp_all add: n_def)
      have x: "rune_len x = length x" "x = c # take (n - 1) cs"
        using rune_len_take [of "c # cs" "[]"] False n2
        by (simp_all add: x_def n_def [symmetric] take_Cons')
      obtain w where w: "scan_string (drop (n - 1) cs) = Some (w, r)" "v = x @ w"
        using "1.prems" not False by (auto simp: s Let_def prepend_Some n_def x_def)
      obtain u where u: "compact True (drop (n - 1) cs) = u @ CHR 0x22 # compact False r" "\<forall>q. scan_string (u @ CHR 0x22 # q) = Some (w, q)"
        using IH [OF w(1)] by (auto simp: s less_Suc_eq_le)
      have "compact True s = rune_escape x @ compact True (drop (n - 1) cs)"
        using compact_multi [OF multi n_def [symmetric] False] by (simp add: s x_def)
      moreover have "scan_string (rune_escape x @ u @ CHR 0x22 # q) = Some (v, q)" for q
        using scan_rune_escape [OF x(1) x(2) multi] u(2) by (simp add: w(2) prepend_def)
      ultimately show ?thesis using u(1) by (intro exI [of _ "rune_escape x @ u"]) simp
    qed
  qed
qed

section \<open>Between the tokens\<close>

lemma compact_skip_ws: "compact False s = compact False (skip_ws s)"
  by (induction s) (simp_all add: skip_ws_def compact.simps)

lemma compact_token: "\<not> is_ws c \<Longrightarrow> c \<noteq> CHR 0x22 \<Longrightarrow> compact False (c # s) = c # compact False s"
  by (simp add: compact.simps)

lemma compact_open: "compact False (CHR 0x22 # s) = CHR 0x22 # compact True s"
  by (simp add: compact.simps)

lemma compact_tokens:
  "list_all (\<lambda>c. \<not> is_ws c \<and> c \<noteq> CHR 0x22) l \<Longrightarrow> compact False (l @ s) = l @ compact False s"
  by (induction l) (simp_all add: compact_token)

lemma scan_name_compact:
  assumes "scan_name s = Some (k, r)"
  shows "\<exists>u. compact False s = CHR 0x22 # u @ compact False r \<and> (\<forall>q. scan_name (CHR 0x22 # u @ q) = Some (k, q))"
proof -
  obtain s1 s2 where 1: "skip_ws s = CHR 0x22 # s1" and 2: "scan_string s1 = Some (k, s2)"
    and 3: "skip_ws s2 = CHR '':'' # r"
    using assms by (auto simp: scan_name_def split: Option.bind_splits list.splits if_splits)
  obtain u where u: "compact True s1 = u @ CHR 0x22 # compact False s2" "\<forall>q. scan_string (u @ CHR 0x22 # q) = Some (k, q)"
    using scan_string_compact [OF 2] by blast
  have "compact False s2 = CHR '':'' # compact False r"
    using compact_skip_ws [of s2] by (simp add: 3 compact_token)
  then have "compact False s = CHR 0x22 # (u @ [CHR 0x22, CHR '':'']) @ compact False r"
    using compact_skip_ws [of s] u(1) by (simp add: 1 compact_open)
  moreover have "scan_name (CHR 0x22 # (u @ [CHR 0x22, CHR '':'']) @ q) = Some (k, q)" for q
    using u(2) by (simp add: scan_name_def)
  ultimately show ?thesis by blast
qed

lemma scan_word_rest: "scan_word w v s = Some (x, r) \<Longrightarrow> s = w @ r \<and> x = v"
  by (auto simp: scan_word_def HasPrefix_iff split: if_splits)

definition number_char :: "char \<Rightarrow> bool" where
  "number_char c \<longleftrightarrow> is_digit c \<or> c \<in> {CHR ''-'', CHR ''+'', CHR ''.'', CHR ''e'', CHR ''E''}"

lemma scan_exp_chars: "scan_exp s = Some (e, t) \<Longrightarrow> list_all number_char e"
  by (auto simp: scan_exp_def number_char_def list_all_iff split: list.splits if_splits dest!: scan_digits_append)

text \<open>What follows a literal does not matter to what was scanned before it.\<close>

lemma scan_digits_cut: "scan_digits (s @ r) = Some (d, t @ r) \<Longrightarrow> scan_digits s = Some (d, t)"
proof -
  assume *: "scan_digits (s @ r) = Some (d, t @ r)"
  have "t @ r = [] \<or> \<not> is_digit (hd (t @ r))"
    using * hd_dropWhile [of is_digit "s @ r"] by (metis Pair_inject option.distinct(1) option.inject scan_digits_def)
  then have "t = [] \<or> \<not> is_digit (hd t)" by (cases t) auto
  moreover have "s = d @ t" "d \<noteq> []" "list_all is_digit d" using scan_digits_append [OF *] by simp_all
  ultimately show ?thesis using scan_digits_all by simp
qed

lemma scan_sign_cut: "scan_sign (s @ r) = (g, t @ r) \<Longrightarrow> scan_sign s = (g, t)"
  by (cases s; cases r) (auto simp: scan_sign_def split: if_splits)

lemma scan_int_cut:
  assumes "scan_int (s @ r) = Some (i, t @ r)"
  shows "scan_int s = Some (i, t)"
proof -
  have "s = i @ t" "i \<noteq> []" using scan_int_append [OF assms] by simp_all
  then have "s \<noteq> []" by simp
  then show ?thesis using assms scan_digits_cut [of s r i t] by (cases s) (auto simp: scan_int_def split: if_splits)
qed

lemma scan_frac_cut:
  assumes "scan_frac (s @ r) = Some (f, t @ r)"
  shows "scan_frac s = Some (f, t)"
proof (cases s)
  case Nil
  then show ?thesis using scan_frac_append [OF assms] by (simp add: scan_frac_def)
next
  case (Cons c u)
  then show ?thesis using assms scan_digits_cut [of u r] by (auto simp: scan_frac_def split: if_splits)
qed

lemma scan_exp_cut:
  assumes "scan_exp (s @ r) = Some (e, t @ r)"
  shows "scan_exp s = Some (e, t)"
proof (cases s)
  case Nil
  then show ?thesis using scan_exp_append [OF assms] by (simp add: scan_exp_def)
next
  case (Cons c u)
  show ?thesis
  proof (cases u)
    case Nil
    have "[c] = e @ t" using scan_exp_append [OF assms] \<open>s = c # u\<close> Nil by simp
    then have "length e \<le> 1" by (cases e) auto
    moreover have "length e \<ge> 2" if "c = CHR ''e'' \<or> c = CHR ''E''"
      using assms that \<open>s = c # u\<close> Nil by (auto simp: scan_exp_def split: list.splits if_splits dest!: scan_digits_append)
    ultimately show ?thesis using assms \<open>s = c # u\<close> Nil by (auto simp: scan_exp_def split: if_splits)
  next
    case (Cons g w)
    then show ?thesis using assms \<open>s = c # u\<close> scan_digits_cut [of u r] scan_digits_cut [of w r]
      by (auto simp: scan_exp_def split: if_splits)
  qed
qed

lemma scan_number_parts:
  assumes "scan_number s = Some (l, r)"
  shows "is_number l" "list_all number_char l"
proof -
  obtain g s0 i s1 f s2 e where *: "scan_sign s = (g, s0)" "scan_int s0 = Some (i, s1)"
      "scan_frac s1 = Some (f, s2)" "scan_exp s2 = Some (e, r)" "l = g @ i @ f @ e"
    using assms by (auto simp: scan_number_Some)
  have sg: "s = g @ s0" and si: "s0 = i @ s1" "list_all is_digit i" and sf: "s1 = f @ s2" and se: "s2 = e @ r"
    and fc: "f = [] \<or> hd f = CHR ''.''" "list_all is_digit (tl f)"
    using scan_sign_append [OF *(1)] scan_int_append [OF *(2)] scan_frac_append [OF *(3)] scan_exp_append [OF *(4)]
    by blast+
  have "scan_exp e = Some (e, [])" using scan_exp_cut [of e r e "[]"] *(4) by (simp only: se append_Nil)
  moreover have "scan_frac (f @ e) = Some (f, e)" using scan_frac_cut [of "f @ e" r f e] *(3) by (simp only: sf se append_assoc)
  moreover have "scan_int (i @ f @ e) = Some (i, f @ e)"
    using scan_int_cut [of "i @ f @ e" r i "f @ e"] *(2) by (simp only: si sf se append_assoc)
  moreover have "scan_sign l = (g, i @ f @ e)"
    using scan_sign_cut [of l r g "i @ f @ e"] *(1) by (simp only: *(5) sg si sf se append_assoc)
  ultimately show "is_number l" unfolding is_number_scan scan_number_Some *(5) by blast
  have "list_all number_char g" using *(1) by (auto simp: scan_sign_def number_char_def split: list.splits if_splits)
  moreover have "list_all number_char i" using si(2) by (auto simp: list_all_iff number_char_def)
  moreover have "list_all number_char f" using fc by (cases f) (auto simp: list_all_iff number_char_def)
  moreover have "list_all number_char e" using scan_exp_chars [OF *(4)] .
  ultimately show "list_all number_char l" by (simp add: *(5))
qed

lemma number_char_token: "number_char c \<Longrightarrow> \<not> is_ws c \<and> c \<noteq> CHR 0x22"
  by (auto simp: number_char_def is_ws_def is_digit_def between_def)

lemma scan_scalar_compact:
  assumes "scan_scalar s = Some (v, r)" "\<not> is_ws (hd s)" "hd s \<noteq> CHR ''{''" "hd s \<noteq> CHR ''[''"
  shows "\<exists>t. compact False s = t @ compact False r \<and> denotes d t v"
proof -
  obtain c cs where s: "s = c # cs" using assms(1) by (cases s) (auto simp: scan_scalar_def)
  consider (quoted) "c = CHR 0x22" | (lit) w x where "w \<in> {''true'', ''false'', ''null''}" "scan_word w x s = Some (v, r)" "denotes d w x"
    | (num) l where "scan_number s = Some (l, r)" "v = JNumber l" "c \<noteq> CHR 0x22"
    using assms(1) denotes_null [of d] denotes_bool [of d True] denotes_bool [of d False]
    by (auto simp: scan_scalar_def s bool_text_def split: if_splits)
  then show ?thesis
  proof cases
    case quoted
    then obtain w where w: "v = JString w" "scan_string cs = Some (w, r)"
      using assms(1) by (auto simp: scan_scalar_def s)
    obtain u where u: "compact True cs = u @ CHR 0x22 # compact False r" "\<forall>q. scan_string (u @ CHR 0x22 # q) = Some (w, q)"
      using scan_string_compact [OF w(2)] by blast
    have "denotes d (CHR 0x22 # u @ [CHR 0x22]) v"
      using u(2) by (intro denotes_scalar) (simp_all add: starts_def scan_scalar_def w(1))
    then show ?thesis using u(1)
      by (intro exI [of _ "CHR 0x22 # u @ [CHR 0x22]"]) (simp add: s quoted compact_open)
  next
    case lit
    have w: "s = w @ r" "v = x" using scan_word_rest [OF lit(2)] by blast+
    have "list_all (\<lambda>c. \<not> is_ws c \<and> c \<noteq> CHR 0x22) w" using lit(1) by (auto simp: is_ws_def)
    then have "compact False s = w @ compact False r" unfolding w(1) by (rule compact_tokens)
    then show ?thesis using lit(3) unfolding w(2) by blast
  next
    case num
    then have "s = l @ r" by (simp add: scan_number_append)
    moreover have "list_all (\<lambda>c. \<not> is_ws c \<and> c \<noteq> CHR 0x22) l"
      using scan_number_parts(2) [OF num(1)] number_char_token by (auto simp: list_all_iff)
    from compact_tokens [OF this, of r] have "compact False (l @ r) = l @ compact False r" .
    ultimately show ?thesis using num(2) denotes_number [OF scan_number_parts(1) [OF num(1)]] by auto
  qed
qed

section \<open>Values\<close>

lemma skip_ws_cases: "skip_ws s = [] \<or> \<not> is_ws (hd (skip_ws s))"
  by (metis hd_dropWhile skip_ws_def)

theorem compact_scan:
  "scan_value d s = Some (v, r) \<Longrightarrow> \<exists>t. compact False s = t @ compact False r \<and> denotes d t v"
  "scan_members d s = Some (ms, r) \<Longrightarrow>
     \<exists>t. compact False s = CHR 0x22 # t @ compact False r \<and> (\<forall>q. scan_members d (CHR 0x22 # t @ q) = Some (ms, q))"
  "scan_elements d s = Some (es, r) \<Longrightarrow>
     \<exists>t. starts t \<and> compact False s = t @ compact False r \<and> (\<forall>q. scan_elements d (t @ q) = Some (es, q))"
proof (induction d s and d s and d s arbitrary: v r and ms r and es r rule: scan_value_scan_members_scan_elements.induct)
  case (1 d s)
  obtain c u where c: "skip_ws s = c # u" "\<not> is_ws c"
    using "1.prems" skip_ws_cases [of s] by (cases "skip_ws s") (auto simp: scan_value.simps)
  have s: "compact False s = compact False (c # u)" using compact_skip_ws [of s] c by simp
  consider (obj) e where "c = CHR ''{''" "d = Suc e" | (arr) e where "c = CHR ''[''" "d = Suc e"
    | (scal) "c \<noteq> CHR ''{''" "c \<noteq> CHR ''[''"
    using "1.prems" c by (cases d) (auto simp: scan_value.simps split: if_splits)
  then show ?case
  proof cases
    case obj
    show ?thesis
    proof (cases "HasPrefix (skip_ws u) ''}''")
      case True
      then have u: "skip_ws u = CHR ''}'' # r" "v = JObject []"
        using "1.prems" c obj by (auto simp: scan_value.simps HasPrefix_iff)
      then have "compact False u = CHR ''}'' # compact False r"
        using compact_skip_ws [of u] by (simp add: compact_token)
      then show ?thesis using denotes_object [of e "[]" "[]"] u(2) obj
        by (intro exI [of _ "''{}''"]) (simp add: s compact_token is_ws_def object_text_def)
    next
      case False
      then obtain ms where ms: "v = JObject ms" "scan_members e u = Some (ms, r)"
        using "1.prems" c obj by (auto simp: scan_value.simps)
      obtain t where t: "compact False u = CHR 0x22 # t @ compact False r"
        "\<forall>q. scan_members e (CHR 0x22 # t @ q) = Some (ms, q)"
        using "1.IH"(1) [OF c(1) obj(1)] obj(2) False ms(2) by auto
      have "denotes d (CHR ''{'' # CHR 0x22 # t) v"
        using t(2) obj(2) ms(1) by (simp add: denotes_def starts_def scan_value.simps HasPrefix_def)
      then show ?thesis using t(1) obj(1)
        by (intro exI [of _ "CHR ''{'' # CHR 0x22 # t"]) (simp add: s compact_token)
    qed
  next
    case arr
    show ?thesis
    proof (cases "HasPrefix (skip_ws u) '']''")
      case True
      then have u: "skip_ws u = CHR '']'' # r" "v = JArray []"
        using "1.prems" c arr by (auto simp: scan_value.simps HasPrefix_iff)
      then have "compact False u = CHR '']'' # compact False r"
        using compact_skip_ws [of u] by (simp add: compact_token)
      then show ?thesis using denotes_array [of e "[]" "[]"] u(2) arr
        by (intro exI [of _ "''[]''"]) (simp add: s compact_token is_ws_def array_text_def)
    next
      case False
      then obtain es where es: "v = JArray es" "scan_elements e u = Some (es, r)"
        using "1.prems" c arr by (auto simp: scan_value.simps)
      obtain t where t: "starts t" "compact False u = t @ compact False r"
        "\<forall>q. scan_elements e (t @ q) = Some (es, q)"
        using "1.IH"(2) [OF c(1) _ arr(1)] arr False es(2) by auto
      then have "skip_ws (t @ q) = t @ q" "\<not> HasPrefix (t @ q) '']''" for q
        by (cases t; auto simp: starts_def HasPrefix_def)+
      then have "denotes d (CHR ''['' # t) v"
        using t(3) arr(2) es(1) by (simp add: denotes_def starts_def scan_value.simps)
      then show ?thesis using t(2) arr(1)
        by (intro exI [of _ "CHR ''['' # t"]) (simp add: s compact_token)
    qed
  next
    case scal
    then have "scan_scalar (c # u) = Some (v, r)" using "1.prems" c by (simp add: scan_value.simps)
    then show ?thesis using scan_scalar_compact [of "c # u"] c scal by (simp add: s)
  qed
next
  case (2 d s)
  obtain k s1 v s2 where n: "scan_name s = Some (k, s1)" and v: "scan_value d s1 = Some (v, s2)"
    using "2.prems" by (auto simp: scan_members.simps split: option.splits prod.splits)
  obtain c s3 where c: "skip_ws s2 = c # s3"
    using "2.prems" n v by (auto simp: scan_members.simps split: list.splits)
  obtain u where u: "compact False s = CHR 0x22 # u @ compact False s1" "\<forall>q. scan_name (CHR 0x22 # u @ q) = Some (k, q)"
    using scan_name_compact [OF n] by blast
  obtain t where t: "compact False s1 = t @ compact False s2" "denotes d t v"
    using "2.IH"(1) [OF n refl v] by blast
  have s: "compact False s = CHR 0x22 # u @ t @ compact False (c # s3)"
    using u(1) t(1) compact_skip_ws [of s2] c by simp
  have v': "scan_value d (t @ q) = Some (v, q)" if "stop q" for q using denotesD [OF t(2) that] .
  consider (more) ms' where "c = CHR '',''" "scan_members d s3 = Some (ms', r)" "ms = (k, v) # ms'"
    | (last) "c = CHR ''}''" "s3 = r" "ms = [(k, v)]"
    using "2.prems" n v c by (auto simp: scan_members.simps [of d s] split: if_splits)
  then show ?case
  proof cases
    case more
    obtain t' where t': "compact False s3 = CHR 0x22 # t' @ compact False r"
      "\<forall>q. scan_members d (CHR 0x22 # t' @ q) = Some (ms', q)"
      using "2.IH"(2) [OF n refl v refl c more(1,2)] by blast
    define w where "w = u @ t @ '','' @ CHR 0x22 # t'"
    have "compact False s = CHR 0x22 # w @ compact False r" by (simp add: s more(1) compact_token t'(1) w_def is_ws_def)
    moreover have "scan_members d (CHR 0x22 # w @ q) = Some (ms, q)" for q
      using u(2) v' t'(2) by (subst scan_members.simps) (simp add: w_def more(3))
    ultimately show ?thesis by blast
  next
    case last
    define w where "w = u @ t @ ''}''"
    have "compact False s = CHR 0x22 # w @ compact False r" by (simp add: s last compact_token w_def is_ws_def)
    moreover have "scan_members d (CHR 0x22 # w @ q) = Some (ms, q)" for q
      using u(2) v' by (subst scan_members.simps) (simp add: w_def last(3))
    ultimately show ?thesis by blast
  qed
next
  case (3 d s)
  obtain v s2 where v: "scan_value d s = Some (v, s2)"
    using "3.prems" by (auto simp: scan_elements.simps split: option.splits)
  obtain c s3 where c: "skip_ws s2 = c # s3"
    using "3.prems" v by (auto simp: scan_elements.simps split: list.splits)
  obtain t where t: "compact False s = t @ compact False s2" "denotes d t v"
    using "3.IH"(1) [OF v] by blast
  have s: "compact False s = t @ compact False (c # s3)"
    using t(1) compact_skip_ws [of s2] c by simp
  have v': "scan_value d (t @ q) = Some (v, q)" if "stop q" for q using denotesD [OF t(2) that] .
  have st: "starts (t @ w)" for w using t(2) by (cases t) (simp_all add: denotes_def starts_def)
  consider (more) es' where "c = CHR '',''" "scan_elements d s3 = Some (es', r)" "es = v # es'"
    | (last) "c = CHR '']''" "s3 = r" "es = [v]"
    using "3.prems" v c by (auto simp: scan_elements.simps [of d s] split: if_splits)
  then show ?case
  proof cases
    case more
    obtain t' where t': "compact False s3 = t' @ compact False r" "\<forall>q. scan_elements d (t' @ q) = Some (es', q)"
      using "3.IH"(2) [OF v refl c more(1,2)] by blast
    define w where "w = t @ '','' @ t'"
    have "compact False s = w @ compact False r" by (simp add: s more(1) compact_token t'(1) w_def is_ws_def)
    moreover have "scan_elements d (w @ q) = Some (es, q)" for q
      using v' t'(2) by (subst scan_elements.simps) (simp add: w_def more(3))
    ultimately show ?thesis using st [of "'','' @ t'"] unfolding w_def by blast
  next
    case last
    define w where "w = t @ '']''"
    have "compact False s = w @ compact False r" by (simp add: s last compact_token w_def is_ws_def)
    moreover have "scan_elements d (w @ q) = Some (es, q)" for q
      using v' by (subst scan_elements.simps) (simp add: w_def last(3))
    ultimately show ?thesis using st [of "'']''"] unfolding w_def by blast
  qed
qed

section \<open>What a raw message is sent as\<close>

text \<open>\<open>d\<close> levels suffice to read the value \<open>v\<close> from the message.\<close>

definition reads :: "nat \<Rightarrow> string \<Rightarrow> jval \<Rightarrow> bool" where
  "reads d raw v \<longleftrightarrow> (\<exists>r. scan_value d raw = Some (v, r) \<and> skip_ws r = [])"

definition sent :: "string \<Rightarrow> string" where
  "sent raw = (if raw = [] then ''null'' else compact False raw)"

definition sent_value :: "nat \<Rightarrow> string \<Rightarrow> jval \<Rightarrow> bool" where
  "sent_value d raw v \<longleftrightarrow> (if raw = [] then v = JNull else reads d raw v)"

lemma parse_reads: "parse_json raw = Some v \<longleftrightarrow> reads maxNestingDepth raw v"
  by (auto simp: parse_json_def reads_def split: option.splits)

lemma reads_compact: "reads d raw v \<Longrightarrow> denotes d (compact False raw) v"
  using compact_scan(1) compact_skip_ws unfolding reads_def by (metis append_Nil2 compact_Nil)

lemma sent_denotes: "sent_value d raw v \<Longrightarrow> denotes d (sent raw) v"
  by (auto simp: sent_value_def sent_def denotes_null reads_compact split: if_splits)

lemma denotes_reads: "denotes d t v \<Longrightarrow> reads d t v"
  using denotesD [of d t v "[]"] by (auto simp: reads_def skip_ws_def)

text \<open>Marshalling what was received changes nothing in its value, and the text settles.\<close>

lemma raw_text_sent: "raw_text raw = Inr t \<Longrightarrow> t = sent raw"
  by (auto simp: raw_text_def sent_def split: if_splits)

lemma raw_text_denotes: "raw_text raw = Inr t \<Longrightarrow> raw \<noteq> [] \<Longrightarrow> parse_json raw = Some v \<Longrightarrow> parse_json t = Some v"
  using reads_compact [of maxNestingDepth raw v] denotes_reads
  by (auto simp: raw_text_def parse_reads split: if_splits)

section \<open>Rewriting again\<close>

text \<open>A text that was rewritten is not changed any more.\<close>

lemma separator_compact:
  "take 3 (c # compact True s) \<in> {map byte [0xE2, 0x80, 0xA8], map byte [0xE2, 0x80, 0xA9]} \<longleftrightarrow>
   take 3 (c # s) \<in> {map byte [0xE2, 0x80, 0xA8], map byte [0xE2, 0x80, 0xA9]}"
proof -
  have take2: "cont b \<Longrightarrow> cont b' \<Longrightarrow> take 2 t = [b, b'] \<longleftrightarrow> take 2 (takeWhile cont t) = [b, b']" for b b' t
    by (cases t; cases "tl t") auto
  have "cont (byte 0x80)" "cont (byte 0xA8)" "cont (byte 0xA9)" by (simp_all add: cont_def between_def)
  then show ?thesis using take2 [of "byte 0x80" _ s] take2 [of "byte 0x80" _ "compact True s"]
    by (simp add: takeWhile_cont_compact)
qed

lemma compact_copied_all: "list_all copied w \<Longrightarrow> compact True (w @ s) = w @ compact True s"
  by (induction w) (simp_all add: compact_copied)

lemma compact_ascii_escape: "c \<in> {CHR ''<'', CHR ''>'', CHR ''&''} \<Longrightarrow> compact True (ascii_escape c @ s) = ascii_escape c @ compact True s"
proof (elim insertE emptyE)
  have "copied (byte 51)" "copied (byte 50)" "copied (byte 54)" "copied (byte 99)" "copied (byte 101)"
    by (auto simp: copied_def dest: arg_cong [of _ _ code])
  then show "c = CHR ''<'' \<Longrightarrow> ?thesis" "c = CHR ''>'' \<Longrightarrow> ?thesis" "c = CHR ''&'' \<Longrightarrow> ?thesis"
    by (simp_all add: ascii_escape_def hex_digit_def compact_escape compact_copied copied_def)
qed

lemma compact_rune_escape:
  "w \<in> {map byte [0xE2, 0x80, 0xA8], map byte [0xE2, 0x80, 0xA9]} \<Longrightarrow>
     compact True (rune_escape w @ s) = rune_escape w @ compact True s"
  by (auto simp: rune_escape_def compact_escape compact_copied copied_def)

theorem compact_again: "compact q (compact q s) = compact q s"
proof (induction s arbitrary: q rule: length_induct)
  case (1 s)
  show ?case
  proof (cases s)
    case (Cons c t)
    have IH: "compact q' (compact q' u) = compact q' u" if "length u \<le> length t" for q' u
      using 1 that by (simp add: Cons)
    consider (outside) "\<not> q" | (close) q "c = CHR 0x22" | (escape) q "c = CHR 0x5C"
      | (html) q "c \<in> {CHR ''<'', CHR ''>'', CHR ''&''}"
      | (rune) q "take 3 (c # t) \<in> {map byte [0xE2, 0x80, 0xA8], map byte [0xE2, 0x80, 0xA9]}"
      | (plain) q "c \<notin> {CHR 0x22, CHR 0x5C, CHR ''<'', CHR ''>'', CHR ''&''}"
          "take 3 (c # t) \<notin> {map byte [0xE2, 0x80, 0xA8], map byte [0xE2, 0x80, 0xA9]}" by blast
    then show ?thesis
    proof cases
      case escape
      show ?thesis
      proof (cases t)
        case (Cons e u)
        then show ?thesis using escape IH [of u] \<open>s = c # t\<close> by (simp add: compact_escape)
      qed (simp add: escape Cons compact.simps)
    next
      case rune
      then show ?thesis
        by (simp only: Cons compact_rune [OF refl] compact_rune_escape IH length_drop diff_le_self refl simp_thms)
    next
      case plain
      have "compact True (c # t) = c # compact True t" using plain(2,3) by (rule compact_plain)
      moreover have "compact True (c # compact True t) = c # compact True (compact True t)"
        using plain(2,3) by (intro compact_plain) (simp_all only: separator_compact not_False_eq_True)
      ultimately show ?thesis using plain(1) IH [of t] by (simp add: Cons)
    next
      case outside
      then show ?thesis using IH [of t] by (simp add: Cons compact.simps)
    next
      case html
      then show ?thesis using IH [of t] by (simp add: Cons compact_html compact_ascii_escape del: insert_iff)
    next
      case close
      then show ?thesis using IH [of t] by (simp add: Cons compact_close)
    qed
  qed simp
qed

section \<open>More nesting\<close>

lemma scan_deeper:
  "scan_value d s = Some (v, r) \<Longrightarrow> d \<le> e \<Longrightarrow> scan_value e s = Some (v, r)"
  "scan_members d s = Some (ms, r) \<Longrightarrow> d \<le> e \<Longrightarrow> scan_members e s = Some (ms, r)"
  "scan_elements d s = Some (es, r) \<Longrightarrow> d \<le> e \<Longrightarrow> scan_elements e s = Some (es, r)"
proof (induction d s and d s and d s arbitrary: v r e and ms r e and es r e rule: scan_value_scan_members_scan_elements.induct)
  case (1 d s)
  obtain c u where c: "skip_ws s = c # u" using "1.prems" by (cases "skip_ws s") (auto simp: scan_value.simps)
  have ih: "e > 0" "d - 1 \<le> e - 1" if "d > 0" using "1.prems"(2) that by simp_all
  show ?case
    using "1.prems"(1) "1.IH"(1) [OF c _ _ _ _ ih(2)] "1.IH"(2) [OF c _ _ _ _ _ ih(2)] c ih
    by (auto simp: scan_value.simps [of _ s] split: if_splits)
next
  case (2 d s)
  obtain k s1 v s2 where n: "scan_name s = Some (k, s1)" and v: "scan_value d s1 = Some (v, s2)"
    using "2.prems" by (auto simp: scan_members.simps split: option.splits prod.splits)
  obtain c s3 where c: "skip_ws s2 = c # s3"
    using "2.prems" n v by (auto simp: scan_members.simps split: list.splits)
  show ?case
    using "2.prems" n v c "2.IH"(1) [OF n refl v "2.prems"(2)] "2.IH"(2) [OF n refl v refl c _ _ "2.prems"(2)]
    by (auto simp: scan_members.simps [of _ s] split: if_splits)
next
  case (3 d s)
  obtain v s2 where v: "scan_value d s = Some (v, s2)"
    using "3.prems" by (auto simp: scan_elements.simps split: option.splits)
  obtain c s3 where c: "skip_ws s2 = c # s3"
    using "3.prems" v by (auto simp: scan_elements.simps split: list.splits)
  show ?case
    using "3.prems" v c "3.IH"(1) [OF v "3.prems"(2)] "3.IH"(2) [OF v refl c _ _ "3.prems"(2)]
    by (auto simp: scan_elements.simps [of _ s] split: if_splits)
qed

lemma denotes_deeper: "denotes d t v \<Longrightarrow> d \<le> e \<Longrightarrow> denotes e t v"
  unfolding denotes_def using scan_deeper(1) by blast

lemma reads_deeper: "reads d t v \<Longrightarrow> d \<le> e \<Longrightarrow> reads e t v"
  unfolding reads_def using scan_deeper(1) by blast

end
