(* ===== verification/TimeText.thy ===== *)
theory TimeText
  imports GoTime
begin

text \<open>
  RFC 3339: \<open>time.Parse\<close> reads back what \<open>Format\<close> and \<open>MarshalJSON\<close> write, to the second or to
  the nanosecond, for times with a year of four digits and a zone of whole minutes.
\<close>

section \<open>Numbers\<close>

lemma pad_split: "n < 10 ^ k \<Longrightarrow> k > 0 \<Longrightarrow>
    take k (pad k n @ r) = pad k n \<and> drop k (pad k n @ r) = r \<and> length (pad k n) = k \<and>
    list_all is_digit (pad k n) \<and> digits_val (pad k n) = n"
  using pad_props [of n k] by simp

lemma two_digits: "length s = 2 \<Longrightarrow> list_all is_digit s \<Longrightarrow> getnum fixed (s @ r) = Some (digits_val s, r)"
  by (auto simp: getnum_def digits_val_Cons length_Suc_conv numeral_2_eq_2)

lemma getnum_pad: "n < 100 \<Longrightarrow> getnum fixed (pad 2 n @ r) = Some (n, r)"
  using pad_props [of n 2] two_digits [of "pad 2 n"] by simp

lemma getnum_pad_end: "n < 100 \<Longrightarrow> getnum fixed (pad 2 n) = Some (n, [])"
  using getnum_pad [of n fixed "[]"] by simp

section \<open>Fractions and zones\<close>

lemma zone_text_hd: "\<exists>c r. zone_text t = c # r \<and> c \<in> {CHR ''Z'', CHR ''+'', CHR ''-''}"
  by (auto simp: zone_text_def Let_def)

lemma fraction_none: "fraction (zone_text t) = (0, zone_text t)"
  using zone_text_hd [of t] by (auto simp: fraction_def split: list.split)

lemma nanosecond_range: "0 \<le> nanosecond t \<and> nanosecond t < 10 ^ 9"
  by (simp add: nanosecond_def Second_def)

lemma fraction_some:
  assumes "nanosecond t \<noteq> 0"
  shows "fraction (fraction_text t @ zone_text t) = (nat (nanosecond t), zone_text t)"
proof -
  define n where "n = nat (nanosecond t)"
  have n: "n < 10 ^ 9" "n > 0" using nanosecond_range [of t] assms by (auto simp: n_def nat_less_iff)
  define u where "u = TrimRight (pad 9 n) (CHR ''0'')"
  obtain j where j: "pad 9 n = u @ replicate j (CHR ''0'')" using TrimRight_split unfolding u_def by metis
  have p: "length (pad 9 n) = 9" "list_all is_digit (pad 9 n)" "digits_val (pad 9 n) = n"
    using pad_props [of n 9] n(1) by simp_all
  have len: "length u + j = 9" and u: "list_all is_digit u" using p j by simp_all
  have "digits_val (replicate j (CHR ''0'')) = 0" using digits_val_zeros [of j "[]"] by simp
  then have val: "digits_val u * 10 ^ j = n" using p(3) by (simp add: j digits_val_append)
  then obtain d w where dw: "u = d # w" using n(2) by (cases u) auto
  obtain c r where c: "zone_text t = c # r" "\<not> is_digit c"
    using zone_text_hd [of t] by (auto simp: is_digit_def between_def)
  have "takeWhile is_digit (u @ zone_text t) = u" "dropWhile is_digit (u @ zone_text t) = zone_text t"
    using u c by (simp_all add: list_all_iff takeWhile_append2 dropWhile_append2)
  moreover have "take 9 u = u" "9 - length u = j" using len by simp_all
  ultimately show ?thesis
    using assms u dw val by (simp add: fraction_text_def fraction_def n_def [symmetric] u_def [symmetric] Let_def)
qed

lemma zone_minutes:
  assumes "zone t mod 60 = 0" "nat (abs (zone t)) div 3600 < 24"
  shows "parse_zone (zone_text t) = Some (zone t, [])"
proof (cases "zone t = 0")
  case True
  then show ?thesis by (simp add: zone_text_def parse_zone_def)
next
  case False
  define m where "m = nat (abs (zone t)) div 60"
  obtain k where k: "zone t = 60 * k" using assms(1) by (auto simp: mod_eq_0_iff_dvd)
  then have "m = nat (abs k)" by (simp add: m_def abs_mult nat_mult_distrib)
  then have z: "abs (zone t) = int m * 60" by (simp add: k abs_mult)
  then have n: "nat (abs (zone t)) = m * 60" by simp
  then have "nat (abs (zone t)) div 3600 = m div 60" by (simp add: div_mult2_eq [symmetric])
  then have m: "m > 0" "m div 60 < 24" using False assms(2) n by auto
  define c where "c = (if zone t < 0 then CHR ''-'' else CHR ''+'')"
  have "zone_text t = c # pad 2 (m div 60) @ '':'' @ pad 2 (m mod 60)"
    using False m(1) by (auto simp: zone_text_def m_def [symmetric] c_def Let_def sgn_if)
  moreover have "length (pad 2 (m div 60)) = 2" "length (pad 2 (m mod 60)) = 2"
    using pad_props [of "m div 60" 2] pad_props [of "m mod 60" 2] m(2) by simp_all
  moreover have "getnum True (pad 2 (m div 60)) = Some (m div 60, [])" "getnum True (pad 2 (m mod 60)) = Some (m mod 60, [])"
    using m(2) by (simp_all add: getnum_pad_end)
  moreover have "int (m div 60 * 60 + m mod 60) * 60 = abs (zone t)" by (simp add: z)
  moreover have "m div 60 \<le> 24" using m(2) by simp
  ultimately show ?thesis
    by (auto simp: parse_zone_def c_def nth_append)
qed

section \<open>Times\<close>

definition plain_time :: "gotime \<Rightarrow> bool" where
  "plain_time t \<longleftrightarrow> 0 \<le> time_year t \<and> time_year t \<le> 9999 \<and> zone t mod 60 = 0 \<and> nat (abs (zone t)) div 3600 < 24"

lemma month_days_bounds: "m < 12 \<Longrightarrow> month_days y ! m \<le> 31"
  by (auto simp: month_days_def less_Suc_eq numeral_eq_Suc)

theorem ParseRFC3339_text:
  assumes t: "plain_time t" and f: "fraction (f @ zone_text t) = (ns, zone_text t)"
  shows "ParseRFC3339 (date_time_text t @ f @ zone_text t) = Some (t\<lparr>inst := inst t - nanosecond t + int ns\<rparr>)"
proof -
  define day where "day = local_seconds t div 86400"
  obtain y m d where date: "date_of day = (y, m, d)" by (cases "date_of day")
  have civil: "civil_days y m d = day" "m < 12" "0 \<le> d" "d < month_days y ! m" using date_of_correct [OF date] by simp_all
  define s where "s = nat (local_seconds t mod 86400)"
  have s: "s < 86400" "int s = local_seconds t mod 86400" by (simp_all add: s_def nat_less_iff)
  have y: "0 \<le> y" "y \<le> 9999" using t date by (simp_all add: plain_time_def time_year_def day_def)
  define h mi se where "h = s div 3600" and "mi = s div 60 mod 60" and "se = s mod 60"
  have sum: "h * 3600 + mi * 60 + se = s"
  proof -
    define q where "q = s div 60"
    have "h = q div 60" by (simp add: h_def q_def div_mult2_eq [symmetric])
    moreover have "60 * q + se = s" by (simp add: q_def se_def)
    moreover have "60 * (q div 60) + mi = q" by (simp add: q_def mi_def)
    ultimately show ?thesis by linarith
  qed
  have h: "h < 24" "mi < 60" "se < 60" using s(1) by (simp_all add: h_def mi_def se_def less_mult_imp_div_less)
  have d31: "nat d < 31" "int (Suc (nat d)) \<le> month_days y ! m"
    using civil month_days_bounds [OF civil(2), of y] by linarith+
  have dt: "date_time_text t = pad 4 (nat y) @ ''-'' @ pad 2 (Suc m) @ ''-'' @ pad 2 (Suc (nat d)) @ ''T''
      @ pad 2 h @ '':'' @ pad 2 mi @ '':'' @ pad 2 se"
    using y date by (simp add: date_time_text_def day_def [symmetric] s_def [symmetric] h_def mi_def se_def year_text_def)
  have "nat y < 10 ^ 4" using y by simp
  note yp = pad_split [OF this]
  have zone: "parse_zone (zone_text t) = Some (zone t, [])" using t zone_minutes by (simp add: plain_time_def)
  have "local_seconds t = inst t div Second + zone t" by (simp add: local_seconds_def Second_def)
  moreover have "local_seconds t = day * 86400 + int s" using s(2) by (simp add: day_def)
  ultimately have inst: "(day * 86400 + int s - zone t) * Second = inst t - nanosecond t"
    by (simp add: nanosecond_def minus_mod_eq_div_mult [symmetric])
  have len: "length (pad 4 (nat y) @ r) \<ge> 4" for r using yp by simp
  show ?thesis
    unfolding ParseRFC3339_def dt append_assoc
    using yp len h sum d31 civil(2) f zone
    by (simp add: getnum_pad expect_def civil(1,3) y inst)
qed

corollary ParseRFC3339_Format:
  "plain_time t \<Longrightarrow> ParseRFC3339 (FormatRFC3339 t) = Some (t\<lparr>inst := inst t - nanosecond t\<rparr>)"
  using ParseRFC3339_text [of t "[]" 0] by (simp add: FormatRFC3339_def fraction_none)

corollary time_text_parse:
  assumes "time_text t = Some s" "zone t mod 60 = 0"
  shows "ParseRFC3339 s = Some t"
proof -
  have t: "plain_time t" and s: "s = date_time_text t @ fraction_text t @ zone_text t"
    using assms by (auto simp: time_text_def plain_time_def split: if_splits)
  have "fraction (fraction_text t @ zone_text t) = (nat (nanosecond t), zone_text t)"
  proof (cases "nanosecond t = 0")
    case True
    then show ?thesis by (simp add: fraction_text_def fraction_none)
  qed (rule fraction_some)
  from ParseRFC3339_text [OF t this] show ?thesis using nanosecond_range [of t] by (simp add: s)
qed

section \<open>Characters\<close>

definition time_char :: "char \<Rightarrow> bool" where
  "time_char c \<longleftrightarrow> is_digit c \<or> c \<in> {CHR ''-'', CHR ''T'', CHR '':'', CHR ''.'', CHR ''Z'', CHR ''+''}"

lemma pad_chars: "list_all time_char (pad k n)"
  using nat_text_digits [of n] by (auto simp: pad_def list_all_iff time_char_def is_digit_def between_def code_def)

lemma time_text_chars:
  assumes "time_text t = Some s"
  shows "list_all time_char s"
proof -
  have sep: "list_all time_char ''-''" "list_all time_char ''T''" "list_all time_char '':''" "time_char (CHR ''.'')"
      "list_all time_char ''Z''" "list_all time_char ''+''"
    by (simp_all add: time_char_def)
  have "list_all time_char (date_time_text t)"
    by (simp add: date_time_text_def year_text_def pad_chars sep Let_def split: prod.split)
      (simp add: time_char_def)
  moreover have "list_all time_char (zone_text t)"
    by (simp add: zone_text_def pad_chars sep Let_def) (simp add: time_char_def)
  moreover have "list_all time_char (fraction_text t)"
    using pad_chars [of 9 "nat (nanosecond t)"] sep(4)
    by (auto simp: fraction_text_def TrimRight_def list_all_iff dest: set_dropWhileD)
  ultimately show ?thesis using assms by (auto simp: time_text_def split: if_splits)
qed

end
