(* ===== verification/RoundTrips.thy ===== *)
theory RoundTrips
  imports Wire Compact TimeText
begin

text \<open>
  Encoding and decoding of the protocol's types. A codec is a text, a decoder and the values
  that survive; structs, slices and pointers of codecs are codecs.
\<close>

section \<open>Members and elements of a written text\<close>

definition readable :: "nat \<Rightarrow> string \<Rightarrow> bool" where
  "readable d t \<longleftrightarrow> (\<exists>v. denotes d t v)"

definition members_readable :: "nat \<Rightarrow> (string \<times> string) list \<Rightarrow> bool" where
  "members_readable d kts \<longleftrightarrow> (\<forall>(k, t) \<in> set kts. ValidString k \<and> readable d t)"

lemma members_readable_simps [simp]:
  "members_readable d []"
  "members_readable d ((k, t) # kts) \<longleftrightarrow> ValidString k \<and> readable d t \<and> members_readable d kts"
  "members_readable d (kts @ kts') \<longleftrightarrow> members_readable d kts \<and> members_readable d kts'"
  "members_readable d (omit absent k t) \<longleftrightarrow> absent \<or> ValidString k \<and> readable d t"
  by (auto simp: members_readable_def)

lemma readable_deeper: "readable d t \<Longrightarrow> d \<le> e \<Longrightarrow> readable e t"
  using denotes_deeper unfolding readable_def by blast

lemma readable_scan:
  assumes "readable d t" "d \<le> maxNestingDepth"
  obtains v where "t \<noteq> []" "\<not> is_ws (hd t)" "\<And>r. stop r \<Longrightarrow> scan_value maxNestingDepth (t @ r) = Some (v, r)"
  using assms denotes_deeper unfolding readable_def denotes_def starts_def by metis

lemma split_members_text:
  assumes "kts \<noteq> []" "members_readable d kts" "d \<le> maxNestingDepth" "length kts \<le> n"
  shows "split_members n (join (map member_text kts) @ CHR ''}'' # r) = Some kts"
  using assms
proof (induction kts arbitrary: n rule: induct_list012)
  case (2 kt)
  obtain k t where kt: "kt = (k, t)" by (cases kt)
  obtain m where n: "n = Suc m" using "2.prems" by (cases n) auto
  obtain v where v: "t \<noteq> []" "\<not> is_ws (hd t)" "\<And>r. stop r \<Longrightarrow> scan_value maxNestingDepth (t @ r) = Some (v, r)"
    using readable_scan [of d t] "2.prems" by (auto simp: kt)
  have "scan_name (join (map member_text [kt]) @ CHR ''}'' # r) = Some (k, t @ CHR ''}'' # r)"
    using "2.prems" scan_name_member by (simp add: kt member_text_def)
  then show ?case using v(3) by (simp add: n kt skip_ws_id [OF v(1,2)])
next
  case (3 kt ku kts)
  obtain k t where kt: "kt = (k, t)" by (cases kt)
  obtain m where n: "n = Suc m" "length (ku # kts) \<le> m" using "3.prems" by (cases n) auto
  obtain v where v: "t \<noteq> []" "\<not> is_ws (hd t)" "\<And>r. stop r \<Longrightarrow> scan_value maxNestingDepth (t @ r) = Some (v, r)"
    using readable_scan [of d t] "3.prems" by (auto simp: kt)
  define rest where "rest = join (map member_text (ku # kts)) @ CHR ''}'' # r"
  have "split_members m rest = Some (ku # kts)" using "3.IH"(2) "3.prems" n by (simp add: kt rest_def)
  moreover have "scan_name (join (map member_text (kt # ku # kts)) @ CHR ''}'' # r) = Some (k, t @ CHR '','' # rest)"
    using "3.prems" scan_name_member by (simp add: kt member_text_def rest_def)
  ultimately show ?case using v(3) by (simp add: n kt skip_ws_id [OF v(1,2)])
qed simp

lemma join_length: "length xs \<le> Suc (length (join xs))"
  by (induction xs rule: join.induct) auto

lemma raw_members_text:
  assumes "members_readable d kts" "d \<le> maxNestingDepth"
  shows "raw_members (object_text kts) = Some kts"
proof (cases kts)
  case Nil
  then show ?thesis by (simp add: raw_members_def object_text_def HasPrefix_def)
next
  case (Cons kt kts')
  then have hd: "\<not> HasPrefix (skip_ws (join (map member_text kts) @ ''}'')) ''}''"
    by (cases kts') (simp_all add: member_text_def quote_def HasPrefix_def)
  have "length kts \<le> length (join (map member_text kts) @ ''}'')"
    using join_length [of "map member_text kts"] by simp
  then have "split_members (length (join (map member_text kts) @ ''}'')) (join (map member_text kts) @ ''}'') = Some kts"
    using split_members_text [of kts d _ "[]"] Cons assms by (simp del: length_append split_members.simps)
  then show ?thesis using hd by (simp add: raw_members_def object_text_def del: split_members.simps)
qed

lemma split_elements_text:
  assumes "ts \<noteq> []" "list_all (readable d) ts" "d \<le> maxNestingDepth" "length ts \<le> n"
  shows "split_elements n (join ts @ CHR '']'' # r) = Some ts"
  using assms
proof (induction ts arbitrary: n rule: join.induct)
  case (2 t)
  obtain m where n: "n = Suc m" using "2.prems" by (cases n) auto
  obtain v where v: "t \<noteq> []" "\<not> is_ws (hd t)" "\<And>r. stop r \<Longrightarrow> scan_value maxNestingDepth (t @ r) = Some (v, r)"
    using readable_scan [of d t] "2.prems" by auto
  then show ?case using v(3) by (simp add: n skip_ws_id [OF v(1,2)])
next
  case (3 t u ts)
  obtain m where n: "n = Suc m" "length (u # ts) \<le> m" using "3.prems" by (cases n) auto
  obtain v where v: "t \<noteq> []" "\<not> is_ws (hd t)" "\<And>r. stop r \<Longrightarrow> scan_value maxNestingDepth (t @ r) = Some (v, r)"
    using readable_scan [of d t] "3.prems" by auto
  have "split_elements m (join (u # ts) @ CHR '']'' # r) = Some (u # ts)" using "3.IH" "3.prems" n by simp
  then show ?case using v(3) by (simp add: n skip_ws_id [OF v(1,2)])
qed simp

lemma raw_elements_text:
  assumes "list_all (readable d) ts" "d \<le> maxNestingDepth"
  shows "raw_elements (array_text ts) = Some ts"
proof (cases ts)
  case Nil
  then show ?thesis by (simp add: raw_elements_def array_text_def HasPrefix_def)
next
  case (Cons t ts')
  then have "starts (join ts)" using assms join_starts by (auto simp: readable_def denotes_def)
  then have hd: "\<not> HasPrefix (skip_ws (join ts @ '']'')) '']''"
    by (cases "join ts") (simp_all add: starts_def HasPrefix_def)
  have "length ts \<le> length (join ts @ '']'')" using join_length [of ts] by simp
  then have "split_elements (length (join ts @ '']'')) (join ts @ '']'') = Some ts"
    using split_elements_text [of ts d _ "[]"] Cons assms by (simp del: length_append split_elements.simps)
  then show ?thesis using hd by (simp add: raw_elements_def array_text_def del: split_elements.simps)
qed

lemma denotes_parse: "denotes d t v \<Longrightarrow> d \<le> maxNestingDepth \<Longrightarrow> parse_json t = Some v"
  using parse_denoted denotes_deeper by blast

lemma object_readable:
  assumes "members_readable d kts"
  shows "\<exists>ms. denotes (Suc d) (object_text kts) (JObject ms)"
proof -
  have "list_all2 (member_denotes d) kts (map (\<lambda>(k, t). (k, SOME v. denotes d t v)) kts)"
    using assms by (induction kts) (auto simp: member_denotes_def readable_def intro: someI)
  then show ?thesis using denotes_object by blast
qed

lemma array_readable:
  assumes "list_all (readable d) ts"
  shows "\<exists>vs. denotes (Suc d) (array_text ts) (JArray vs)"
proof -
  have "list_all2 (denotes d) ts (map (\<lambda>t. SOME v. denotes d t v) ts)"
    using assms by (induction ts) (auto simp: readable_def intro: someI)
  then show ?thesis using denotes_array by blast
qed

lemma object_parse:
  assumes "members_readable d kts" "d < maxNestingDepth"
  shows "\<exists>ms. parse_json (object_text kts) = Some (JObject ms)"
  using object_readable [OF assms(1)] denotes_parse assms(2) by fastforce

theorem decode_struct_text:
  assumes "members_readable d kts" "d < maxNestingDepth"
  shows "decode_struct flds (object_text kts) r = decode_members flds kts r"
  using object_parse [OF assms] raw_members_text [OF assms(1)] assms(2)
  by (auto simp: decode_struct_def)

theorem decodeStrict_text:
  assumes "members_readable d kts" "d < maxNestingDepth"
  shows "decodeStrict flds zero (object_text kts) = decode_members flds kts zero"
  using object_parse [OF assms] decode_struct_text [OF assms]
  by (auto simp: decodeStrict_def json_Valid_def)

lemma struct_text_Inr [result_iff]:
  "struct_text ms = Inr t \<longleftrightarrow> (\<exists>kts. list_all2 (\<lambda>m kt. fst kt = fst m \<and> snd m = Inr (snd kt)) ms kts \<and> t = object_text kts)"
proof -
  have "(\<lambda>(k, t). and_then t (\<lambda>t. Inr (k, t))) m = Inr kt \<longleftrightarrow> fst kt = fst m \<and> snd m = Inr (snd kt)"
    for m :: "string \<times> string result" and kt by (cases m; cases kt) (auto simp: and_then_Inr)
  then show ?thesis by (auto simp: struct_text_def and_then_Inr traverse_Inr)
qed

section \<open>Codecs\<close>

text \<open>
  The contract between the writer and the reader of a type: a text that was written for a
  \<open>good\<close> value is a JSON value within \<open>d\<close> levels, and is decoded, over the zero value, to what
  is \<open>received\<close>. What is received differs from what was sent only where the wire does not
  carry the difference (white space in raw messages, empty and absent slices).
\<close>

locale codec =
  fixes text_of :: "'a \<Rightarrow> string result"
    and decode :: "'a decoder"
    and zero :: 'a
    and good :: "nat \<Rightarrow> 'a \<Rightarrow> bool"
    and received :: "'a \<Rightarrow> 'a"
  assumes written: "text_of v = Inr t \<Longrightarrow> good d v \<Longrightarrow> d \<le> maxNestingDepth \<Longrightarrow> readable d t"
    and read: "text_of v = Inr t \<Longrightarrow> good d v \<Longrightarrow> d \<le> maxNestingDepth \<Longrightarrow> decode t zero = Some (received v)"
begin

lemma each_written:
  "traverse text_of vs = Inr ts \<Longrightarrow> list_all (good d) vs \<Longrightarrow> d \<le> maxNestingDepth \<Longrightarrow> list_all (readable d) ts"
  by (induction vs arbitrary: ts) (auto simp: and_then_Inr written)

lemma each_read:
  "traverse text_of vs = Inr ts \<Longrightarrow> list_all (good d) vs \<Longrightarrow> d \<le> maxNestingDepth \<Longrightarrow>
     decode_each decode zero ts [] = Some (map received vs)"
  by (induction vs arbitrary: ts) (auto simp: and_then_Inr read)

lemma slice_written:
  "traverse text_of vs = Inr ts \<Longrightarrow> list_all (good d) vs \<Longrightarrow> d \<le> maxNestingDepth \<Longrightarrow> readable (Suc d) (array_text ts)"
  using each_written array_readable unfolding readable_def [of "Suc d"] by blast

lemma slice_read:
  assumes "traverse text_of vs = Inr ts" "list_all (good d) vs" "d < maxNestingDepth" "items old = []"
  shows "decode_slice decode zero (array_text ts) old = Some (Some (map received vs))"
proof -
  have ts: "list_all (readable d) ts" using each_written assms by simp
  obtain ws where "denotes (Suc d) (array_text ts) (JArray ws)" using array_readable [OF ts] by blast
  then have "parse_json (array_text ts) \<noteq> Some JNull" using denotes_parse assms(3) by fastforce
  moreover have "raw_elements (array_text ts) = Some ts" using raw_elements_text [OF ts] assms(3) by simp
  moreover have "decode_each decode zero ts [] = Some (map received vs)" using each_read [OF assms(1,2)] assms(3) by simp
  ultimately show ?thesis using assms(4) by (simp add: decode_slice_def)
qed

lemma list_read:
  assumes "traverse text_of vs = Inr ts" "list_all (good d) vs" "d < maxNestingDepth"
  shows "decode_list decode zero (array_text ts) [] = Some (map received vs)"
  using slice_read [OF assms, of "Some []"] by (simp add: decode_list_def items_def)

end

text \<open>A struct: its text is an object whose members the field table reads.\<close>

locale struct_codec =
  fixes text_of :: "'a \<Rightarrow> string result"
    and flds :: "(string \<times> 'a decoder) list"
    and zero :: 'a
    and good :: "nat \<Rightarrow> 'a \<Rightarrow> bool"
    and received :: "'a \<Rightarrow> 'a"
  assumes members: "text_of v = Inr t \<Longrightarrow> good d v \<Longrightarrow> d < maxNestingDepth \<Longrightarrow>
      \<exists>kts. t = object_text kts \<and> members_readable d kts \<and> decode_members flds kts zero = Some (received v)"
begin

lemma object: "text_of v = Inr t \<Longrightarrow> good d v \<Longrightarrow> d < maxNestingDepth \<Longrightarrow> \<exists>ms. denotes (Suc d) t (JObject ms)"
  using members object_readable by blast

lemma strict: "text_of v = Inr t \<Longrightarrow> good d v \<Longrightarrow> d < maxNestingDepth \<Longrightarrow> decodeStrict flds zero t = Some (received v)"
  using members decodeStrict_text by metis

lemma struct: "text_of v = Inr t \<Longrightarrow> good d v \<Longrightarrow> d < maxNestingDepth \<Longrightarrow> decode_struct flds t zero = Some (received v)"
  using members decode_struct_text by metis

lemma pointer:
  assumes "text_of v = Inr t" "good d v" "d < maxNestingDepth"
  shows "decode_pointer (decode_struct flds) zero t None = Some (Some (received v))"
proof -
  obtain ms where "denotes (Suc d) t (JObject ms)" using object [OF assms] by blast
  then have "parse_json t = Some (JObject ms)" using denotes_parse assms(3) by simp
  then show ?thesis using struct [OF assms] by (simp add: decode_pointer_def)
qed

end

definition inside :: "(nat \<Rightarrow> 'a \<Rightarrow> bool) \<Rightarrow> nat \<Rightarrow> 'a \<Rightarrow> bool" where
  "inside good d v \<longleftrightarrow> (case d of 0 \<Rightarrow> False | Suc e \<Rightarrow> good e v)"

lemma inside_Suc [simp]: "inside good (Suc d) v \<longleftrightarrow> good d v"
  by (simp add: inside_def)

sublocale struct_codec \<subseteq> codec text_of "decode_struct flds" zero "inside good" received
proof unfold_locales
  fix v t d
  assume v: "text_of v = Inr t" "inside good d v" "d \<le> maxNestingDepth"
  obtain e where "d = Suc e" using v(2) by (cases d) (auto simp: inside_def)
  then show "readable d t" "decode_struct flds t zero = Some (received v)"
    using object [of v t e] struct [of v t e] v by (auto simp: readable_def)
qed

section \<open>Member by member\<close>

text \<open>
  A written member \<open>carries\<close> a decoder's old value to a new one. The members of a struct are
  written in the order of its fields; \<open>omitempty\<close> fields may be missing. The relation walks
  both lists at once.
\<close>

definition carries :: "nat \<Rightarrow> 'a decoder \<Rightarrow> 'a \<Rightarrow> string result \<Rightarrow> 'a \<Rightarrow> bool" where
  "carries d dec old res new \<longleftrightarrow> (\<forall>t. res = Inr t \<longrightarrow> readable d t \<and> dec t old = Some new)"

named_theorems carries_intros "what a member's text carries"

lemma carries_field [carries_intros]:
  "carries d dec (sel r) res x \<Longrightarrow> carries d (at_field sel upd dec) r res (upd (\<lambda>_. x) r)"
  by (auto simp: carries_def at_field_def)

context codec
begin

lemma carried [intro?]: "good d v \<Longrightarrow> d \<le> maxNestingDepth \<Longrightarrow> old = zero \<Longrightarrow> carries d decode old (text_of v) (received v)"
  using written read by (simp add: carries_def)

lemma slice_carried:
  assumes "inside (\<lambda>d. list_all (good d)) d vs" "d \<le> maxNestingDepth" "items old = []"
  shows "carries d (decode_slice decode zero) old (and_then (traverse text_of vs) (\<lambda>ts. Inr (array_text ts))) (Some (map received vs))"
proof -
  obtain e where "d = Suc e" using assms(1) by (cases d) (simp_all add: inside_def)
  then show ?thesis using assms slice_written [of vs _ e] slice_read [of vs _ e old]
    by (auto simp: carries_def and_then_Inr)
qed

lemma list_carried:
  assumes "inside (\<lambda>d. list_all (good d)) d vs" "d \<le> maxNestingDepth" "old = []"
  shows "carries d (decode_list decode zero) old (and_then (traverse text_of vs) (\<lambda>ts. Inr (array_text ts))) (map received vs)"
proof -
  obtain e where "d = Suc e" using assms(1) by (cases d) (simp_all add: inside_def)
  then show ?thesis using assms slice_written [of vs _ e] list_read [of vs _ e]
    by (auto simp: carries_def and_then_Inr)
qed

end

lemma decode_entries_text:
  "list_all2 (\<lambda>(k, v) (k', t). k' = k \<and> dec t zero = Some (f v)) es ms \<Longrightarrow>
     distinct (map fst es) \<Longrightarrow> fst ` set m \<inter> fst ` set es = {} \<Longrightarrow>
     decode_entries dec zero ms m = Some (m @ map (\<lambda>(k, v). (k, f v)) es)"
proof (induction es arbitrary: ms m)
  case (Cons e es)
  obtain k v where e: "e = (k, v)" by (cases e)
  obtain t ms' where ms: "ms = (k, t) # ms'" "dec t zero = Some (f v)"
    "list_all2 (\<lambda>(k, v) (k', t). k' = k \<and> dec t zero = Some (f v)) es ms'"
    using Cons.prems(1) by (auto simp: e list_all2_Cons1)
  have "k \<notin> fst ` set m" using Cons.prems(3) by (auto simp: e)
  then have "AList.update k (f v) m = m @ [(k, f v)]" by (induction m) auto
  moreover have "decode_entries dec zero ms' (m @ [(k, f v)]) = Some ((m @ [(k, f v)]) @ map (\<lambda>(k, v). (k, f v)) es)"
    using Cons.IH [OF ms(3)] Cons.prems(2,3) by (auto simp: e)
  ultimately show ?case using ms(1,2) by (simp add: e)
qed simp

context struct_codec
begin

lemma pointer_carried:
  assumes "inside good d v" "d \<le> maxNestingDepth" "old = None"
  shows "carries d (decode_pointer (decode_struct flds) zero) old (text_of v) (Some (received v))"
proof -
  obtain e where "d = Suc e" using assms(1) by (cases d) (simp_all add: inside_def)
  then show ?thesis using assms pointer [of v _ e] object [of v _ e] by (auto simp: carries_def readable_def)
qed

text \<open>A map of structs, written in the order of its keys.\<close>

lemma map_carried:
  assumes "inside (\<lambda>d. list_all (\<lambda>(k, v). ValidString k \<and> inside good d v)) d es" "distinct (map fst es)"
    and "d \<le> maxNestingDepth" "old = None"
  shows "carries d (decode_map (decode_struct flds) zero) old
     (and_then (traverse (\<lambda>(k, v). and_then (text_of v) (\<lambda>t. Inr (k, t))) es) (\<lambda>ms. Inr (object_text ms)))
     (Some (map (\<lambda>(k, v). (k, received v)) es))"
  unfolding carries_def
proof (intro allI impI)
  fix t
  assume "and_then (traverse (\<lambda>(k, v). and_then (text_of v) (\<lambda>t. Inr (k, t))) es) (\<lambda>ms. Inr (object_text ms)) = Inr t"
  then obtain ms where "list_all2 (\<lambda>(k, v) ku. and_then (text_of v) (\<lambda>u. Inr (k, u)) = Inr ku) es ms" and t: "t = object_text ms"
    by (auto simp: and_then_Inr traverse_Inr split_def)
  then have ms: "list_all2 (\<lambda>(k, v) (k', u). k' = k \<and> text_of v = Inr u) es ms"
    by (auto simp: and_then_Inr elim!: list_all2_mono)
  obtain e where d: "d = Suc e" using assms(1) by (cases d) (simp_all add: inside_def)
  have good: "\<forall>(k, v) \<in> set es. ValidString k \<and> inside good e v" using assms(1) by (auto simp: d list_all_iff)
  have each: "list_all2 (\<lambda>(k, v) (k', u). k' = k \<and> decode_struct flds u zero = Some (received v)) es ms \<and> members_readable e ms"
    using ms good assms(3)
  proof (induction es ms rule: list_all2_induct)
    case (Cons x xs y ys)
    then show ?case using written [of "snd x" "snd y" e] read [of "snd x" "snd y" e] by (cases x; cases y) (simp add: d)
  qed simp
  then have "decode_entries (decode_struct flds) zero ms [] = Some (map (\<lambda>(k, v). (k, received v)) es)"
    using decode_entries_text [of "decode_struct flds" zero received es ms "[]"] assms(2) by simp
  moreover have "\<exists>js. parse_json t = Some (JObject js)" using object_parse [of e ms] each assms(3) by (simp add: t d)
  moreover have "raw_members t = Some ms" using raw_members_text [of e ms] each assms(3) by (simp add: t d)
  moreover have "readable d t" using object_readable [of e ms] each by (auto simp: t d readable_def)
  ultimately show "readable d t \<and> decode_map (decode_struct flds) zero t old = Some (Some (map (\<lambda>(k, v). (k, received v)) es))"
    using assms(4) by (auto simp: decode_map_def items_def)
qed

end

inductive steps :: "nat \<Rightarrow> (string \<times> 'r decoder) list \<Rightarrow> (string \<times> string result) list \<Rightarrow> 'r \<Rightarrow> 'r \<Rightarrow> bool" for d where
  steps_done: "steps d flds [] r r"
| steps_read: "carries d dec r res x \<Longrightarrow> steps d flds ms x r' \<Longrightarrow> steps d ((k, dec) # flds) ((k, res) # ms) r r'"
| steps_skip: "steps d flds ms r r' \<Longrightarrow> steps d (f # flds) ms r r'"

lemma steps_omit:
  assumes "\<not> absent \<Longrightarrow> carries d dec r res x" "steps d flds ms (if absent then r else x) r'"
  shows "steps d ((k, dec) # flds) (omit absent k res @ ms) r r'"
  using assms steps_read [of d dec r res x flds ms r' k] steps_skip [of d flds ms r r' "(k, dec)"]
  by (cases absent) (simp_all add: omit_def)

lemma steps_omit_last:
  "(\<not> absent \<Longrightarrow> carries d dec r res x) \<Longrightarrow> steps d [(k, dec)] (omit absent k res) r (if absent then r else x)"
  using steps_read [OF _ steps_done, of d dec r res x k "[]"] steps_skip [OF steps_done, of d "(k, dec)" "[]" r]
  by (cases absent) (simp_all add: omit_def)

lemma steps_option:
  assumes "\<And>l. v = Some l \<Longrightarrow> carries d dec r (res l) (x l)" "steps d flds ms (case v of None \<Rightarrow> r | Some l \<Rightarrow> x l) r'"
  shows "steps d ((k, dec) # flds) ((case v of None \<Rightarrow> [] | Some l \<Rightarrow> [(k, res l)]) @ ms) r r'"
  using assms steps_read [of d dec r "res (the v)" "x (the v)" flds ms r' k] steps_skip [of d flds ms r r' "(k, dec)"]
  by (cases v) simp_all

lemma steps_option_last:
  "(\<And>l. v = Some l \<Longrightarrow> carries d dec r (res l) (x l)) \<Longrightarrow>
     steps d [(k, dec)] (case v of None \<Rightarrow> [] | Some l \<Rightarrow> [(k, res l)]) r (case v of None \<Rightarrow> r | Some l \<Rightarrow> x l)"
  using steps_read [OF _ steps_done, of d dec r "res (the v)" "x (the v)" k "[]"] steps_skip [OF steps_done, of d "(k, dec)" "[]" r]
  by (cases v) simp_all

lemma steps_decode:
  assumes "steps d flds ms r r'" "list_all2 (\<lambda>m kt. fst kt = fst m \<and> snd m = Inr (snd kt)) ms kts"
    and "set flds \<subseteq> set all" "distinct (map fst all)" "list_all (\<lambda>f. ValidString (fst f)) flds"
  shows "members_readable d kts \<and> decode_members all kts r = Some r'"
  using assms
proof (induction arbitrary: kts rule: steps.induct)
  case (steps_read dec r res x flds ms r' k)
  then obtain t kts' where kts: "kts = (k, t) # kts'" "res = Inr t"
    "list_all2 (\<lambda>m kt. fst kt = fst m \<and> snd m = Inr (snd kt)) ms kts'" by (auto simp: list_all2_Cons1)
  have "map_of all k = Some dec" using steps_read.prems map_of_is_SomeI [of all k dec] by simp
  then have "find_field all k = Some dec" by (simp add: find_field_def)
  moreover have "members_readable d kts' \<and> decode_members all kts' x = Some r'"
    using steps_read.IH kts(3) steps_read.prems by simp
  ultimately show ?case using steps_read.hyps(1) steps_read.prems kts(2) by (simp add: kts(1) carries_def)
qed simp_all

text \<open>What a proof of the contract for a struct has to show.\<close>

theorem struct_codec_written:
  assumes written: "\<And>v t. text_of v = Inr t \<Longrightarrow> struct_text (ms v) = Inr t"
    and read: "\<And>d v. good d v \<Longrightarrow> d < maxNestingDepth \<Longrightarrow> \<exists>w. steps d flds (ms v) zero w \<and> w = received v"
    and names: "distinct (map fst flds)" "list_all (\<lambda>f. ValidString (fst f)) flds"
  shows "struct_codec text_of flds zero good received"
proof
  fix v t d
  assume v: "text_of v = Inr t" "good d v" "d < maxNestingDepth"
  obtain kts where kts: "list_all2 (\<lambda>m kt. fst kt = fst m \<and> snd m = Inr (snd kt)) (ms v) kts" "t = object_text kts"
    using written [OF v(1)] by (auto simp: struct_text_Inr)
  have "steps d flds (ms v) zero (received v)" using read [OF v(2,3)] by blast
  then show "\<exists>kts. t = object_text kts \<and> members_readable d kts \<and> decode_members flds kts zero = Some (received v)"
    using steps_decode [OF _ kts(1) subset_refl names] kts(2) by blast
qed

corollary struct_codecI:
  assumes "\<And>v. text_of v = struct_text (ms v)"
    and "\<And>d v. good d v \<Longrightarrow> d < maxNestingDepth \<Longrightarrow> \<exists>w. steps d flds (ms v) zero w \<and> w = received v"
    and "distinct (map fst flds)" "list_all (\<lambda>f. ValidString (fst f)) flds"
  shows "struct_codec text_of flds zero good received"
  using struct_codec_written [of text_of ms good flds zero received] assms by simp

end
