(* ===== verification/Codecs.thy ===== *)
theory Codecs
  imports RoundTrips
begin

text \<open>
  The codecs of the protocol: strings, raw messages, times, and the structs of \<open>protocol.go\<close>,
  \<open>discovery.go\<close> and \<open>credential_lifetime.go\<close>.
\<close>

section \<open>Scalars\<close>

lemma decode_quote: "ValidString s \<Longrightarrow> decode_string (quote s) old = Some s"
  using denotes_parse [OF denotes_quote [of s maxNestingDepth]] by (simp add: decode_string_def on_value_def)

lemma quote_readable: "ValidString s \<Longrightarrow> readable d (quote s)"
  using denotes_quote unfolding readable_def by blast

interpretation string_codec: codec "\<lambda>s. str s" decode_string "[]" "\<lambda>d. ValidString" "\<lambda>s. s"
  by unfold_locales (auto simp: quote_readable decode_quote)

definition raw_good :: "nat \<Rightarrow> string \<Rightarrow> bool" where
  "raw_good d raw \<longleftrightarrow> (\<exists>v. sent_value d raw v)"

interpretation raw_codec: codec raw_text decode_raw "[]" raw_good sent
  by unfold_locales (auto simp: raw_good_def decode_raw_def readable_def dest: raw_text_sent sent_denotes)

lemma ascii_plain:
  assumes "\<not> code c < 0x20" "c \<notin> {CHR 0x22, CHR 0x5C, CHR ''<'', CHR ''>'', CHR ''&''}"
  shows "ascii_escape c = [c]"
proof -
  have "c \<noteq> CHR 0x08" "c \<noteq> CHR 0x0C" "c \<noteq> CHR 0x0A" "c \<noteq> CHR 0x0D" "c \<noteq> CHR 0x09"
    using assms(1) by (auto simp del: not_less)
  then show ?thesis using assms by (simp add: ascii_escape_def)
qed

lemma time_char_plain: "time_char c \<Longrightarrow> code c < 0x80 \<and> ascii_escape c = [c]"
proof -
  assume c: "time_char c"
  have "c \<notin> {CHR 0x22, CHR 0x5C, CHR ''<'', CHR ''>'', CHR ''&''}"
    using c by (auto simp: time_char_def is_digit_def between_def)
  moreover have "code c < 0x80" "\<not> code c < 0x20"
    using c by (auto simp: time_char_def is_digit_def between_def)
  ultimately show ?thesis using ascii_plain by blast
qed

lemma time_quoted: "list_all time_char s \<Longrightarrow> quote_body s = s \<and> ValidString s"
  by (induction s) (simp_all add: time_char_plain)

definition whole_minutes :: "gotime \<Rightarrow> bool" where
  "whole_minutes t \<longleftrightarrow> zone t mod 60 = 0"

lemma time_json_Inr [result_iff]: "time_json t = Inr r \<longleftrightarrow> (\<exists>s. time_text t = Some s \<and> r = quote s)"
  by (auto simp: time_json_def split: option.split)

interpretation time_codec: codec time_json decode_time zero_time "\<lambda>d. whole_minutes" "\<lambda>t. t"
proof unfold_locales
  fix t r d
  assume "time_json t = Inr r" "whole_minutes t"
  then obtain s where s: "time_text t = Some s" "r = quote s" by (auto simp: time_json_Inr)
  then have q: "quote_body s = s" "ValidString s" using time_quoted time_text_chars by blast+
  then show "readable d r" by (simp add: s(2) quote_readable)
  have "ParseRFC3339 s = Some t" using time_text_parse s(1) \<open>whole_minutes t\<close> by (simp add: whole_minutes_def)
  then show "decode_time r zero_time = Some t"
    by (simp add: decode_time_def s(2) quote_def q)
qed

lemma scalars_carried [carries_intros]:
  "ValidString s \<Longrightarrow> carries d decode_string old (str s) s"
  "raw_good d raw \<Longrightarrow> carries d decode_raw old (raw_text raw) (sent raw)"
proof -
  show "carries d decode_string old (str s) s" if "ValidString s"
    using that by (simp add: carries_def decode_quote quote_readable)
  show "carries d decode_raw old (raw_text raw) (sent raw)" if "raw_good d raw"
    using that raw_text_sent sent_denotes by (fastforce simp: carries_def decode_raw_def raw_good_def readable_def)
qed

lemma time_carried [carries_intros]: "whole_minutes t \<Longrightarrow> carries d decode_time old (time_json t) t"
  using time_codec.written [of t _ 0] time_codec.read [of t _ 0] readable_deeper [of 0 _ d]
  by (auto simp: carries_def time_json_Inr decode_time_def quote_def split: if_splits)

section \<open>Requests\<close>

definition PrepareRequest_good :: "nat \<Rightarrow> PrepareRequest \<Rightarrow> bool" where
  "PrepareRequest_good d r \<longleftrightarrow> list_all ValidString [pr_RequestID r, pr_TenantID r, pr_ConnectionID r, pr_Provider r,
      pr_Release r, pr_AccountRef r, pr_Name r] \<and> raw_good d (pr_Input r) \<and> whole_minutes (pr_Now r)"

interpretation prepare_codec: struct_codec PrepareRequest_text prepare_fields zero_prepare PrepareRequest_good
  "\<lambda>r. r\<lparr>pr_Input := sent (pr_Input r)\<rparr>"
  by (rule struct_codecI [OF PrepareRequest_text_def], intro exI conjI)
    (unfold prepare_fields_def PrepareRequest_good_def, (rule steps_read steps_done carries_intros | simp)+)

definition Connection_good :: "nat \<Rightarrow> Connection \<Rightarrow> bool" where
  "Connection_good d c \<longleftrightarrow> raw_good d (cn_Configuration c) \<and> raw_good d (cn_Onboarding c)"

interpretation connection_codec: struct_codec Connection_text connection_fields zero_connection Connection_good
  "\<lambda>c. c\<lparr>cn_Configuration := sent (cn_Configuration c), cn_Onboarding := sent (cn_Onboarding c)\<rparr>"
  by (rule struct_codecI [OF Connection_text_def], intro exI conjI)
    (unfold connection_fields_def Connection_good_def, (rule steps_read steps_done carries_intros | simp add: zero_connection_def)+)

definition VerifyRequest_good :: "nat \<Rightarrow> VerifyRequest \<Rightarrow> bool" where
  "VerifyRequest_good d r \<longleftrightarrow> list_all ValidString [vr_RequestID r, vr_TenantID r, vr_ConnectionID r, vr_Provider r, vr_Release r, vr_AccountRef r] \<and>
     raw_good d (vr_Configuration r) \<and> whole_minutes (vr_Now r)"

interpretation verify_codec: struct_codec VerifyRequest_text verify_fields zero_verify VerifyRequest_good
  "\<lambda>r. r\<lparr>vr_Configuration := sent (vr_Configuration r)\<rparr>"
  by (rule struct_codecI [OF VerifyRequest_text_def], intro exI conjI)
    (unfold verify_fields_def VerifyRequest_good_def, (rule steps_read steps_done carries_intros | simp add: zero_verify_def)+)

definition Verification_good :: "nat \<Rightarrow> Verification \<Rightarrow> bool" where
  "Verification_good d v \<longleftrightarrow> list_all ValidString [vf_TargetIdentity v] \<and>
     whole_minutes (vf_VerifiedAt v)"

interpretation verification_codec: struct_codec Verification_text verification_fields zero_verification Verification_good
  "\<lambda>v. v"
  by (rule struct_codecI [OF Verification_text_def], intro exI conjI)
    (unfold verification_fields_def Verification_good_def, (rule steps_read steps_done carries_intros | simp add: zero_verification_def)+)

definition Subject_good :: "nat \<Rightarrow> Subject \<Rightarrow> bool" where
  "Subject_good d s \<longleftrightarrow> list_all ValidString [su_TenantID s, su_ActorID s, su_DeviceID s, su_SessionID s, su_ProfileID s, su_AccountRef s, su_Environment s]"

interpretation subject_codec: struct_codec Subject_text subject_fields zero_subject Subject_good
  "\<lambda>s. s"
  by (rule struct_codecI [OF Subject_text_def], intro exI conjI)
    (unfold subject_fields_def Subject_good_def, (rule steps_read steps_done carries_intros | simp add: zero_subject_def)+)

definition Material_good :: "nat \<Rightarrow> Material \<Rightarrow> bool" where
  "Material_good d m \<longleftrightarrow> list_all ValidString [mt_Kind m, mt_TargetIdentity m, mt_RevocationSemantics m, mt_AuthorizationDigest m] \<and>
     raw_good d (mt_Payload m) \<and> whole_minutes (mt_ExpiresAt m)"

interpretation material_codec: struct_codec Material_text material_fields zero_material Material_good
  "\<lambda>m. m\<lparr>mt_Payload := sent (mt_Payload m)\<rparr>"
  by (rule struct_codecI [OF Material_text_def], intro exI conjI)
    (unfold material_fields_def Material_good_def, (rule steps_read steps_done carries_intros | simp add: zero_material_def)+)

definition ActionAuthority_good :: "nat \<Rightarrow> ActionAuthority \<Rightarrow> bool" where
  "ActionAuthority_good d a \<longleftrightarrow> list_all ValidString [aa_ID a, aa_ActionDigest a, aa_CapabilityDigest a, aa_ApprovedBy a] \<and>
     whole_minutes (aa_ApprovedAt a) \<and> whole_minutes (aa_ExpiresAt a)"

interpretation authority_codec: struct_codec ActionAuthority_text authority_fields zero_authority ActionAuthority_good
  "\<lambda>a. a"
  by (rule struct_codecI [OF ActionAuthority_text_def], intro exI conjI)
    (unfold authority_fields_def ActionAuthority_good_def, (rule steps_read steps_done carries_intros | simp add: zero_authority_def)+)

definition ActionExecution_good :: "nat \<Rightarrow> ActionExecution \<Rightarrow> bool" where
  "ActionExecution_good d e \<longleftrightarrow> list_all ValidString [ae_ProviderReceipt e, ae_ExecutionIdentity e, ae_OutputDigest e] \<and>
     raw_good d (ae_Output e) \<and> whole_minutes (ae_ExecutedAt e)"

interpretation execution_codec: struct_codec ActionExecution_text execution_fields zero_execution ActionExecution_good
  "\<lambda>e. e\<lparr>ae_Output := sent (ae_Output e)\<rparr>"
  by (rule struct_codecI [OF ActionExecution_text_def], intro exI conjI)
    (unfold execution_fields_def ActionExecution_good_def, (rule steps_read steps_done carries_intros | simp add: zero_execution_def)+)

definition ActionVerification_good :: "nat \<Rightarrow> ActionVerification \<Rightarrow> bool" where
  "ActionVerification_good d v \<longleftrightarrow> list_all ValidString [av_State v, av_VerifierRelease v, av_EvidenceDigest v] \<and>
     raw_good d (av_Evidence v) \<and> whole_minutes (av_VerifiedAt v)"

interpretation action_verification_codec: struct_codec ActionVerification_text action_verification_fields zero_action_verification ActionVerification_good
  "\<lambda>v. v\<lparr>av_Evidence := sent (av_Evidence v)\<rparr>"
  by (rule struct_codecI [OF ActionVerification_text_def], intro exI conjI)
    (unfold action_verification_fields_def ActionVerification_good_def, (rule steps_read steps_done carries_intros | simp add: zero_action_verification_def)+)

lemmas [carries_intros] = subject_codec.carried authority_codec.carried execution_codec.carried

definition ExecuteActionRequest_good :: "nat \<Rightarrow> ExecuteActionRequest \<Rightarrow> bool" where
  "ExecuteActionRequest_good d r \<longleftrightarrow> list_all ValidString [ex_RequestID r, ex_ConnectionID r, ex_Provider r, ex_Release r, ex_AccountRef r, ex_CapabilityRef r, ex_CapabilityDigest r, ex_ActionID r, ex_ActionDigest r, ex_Operation r, ex_Resource r, ex_Environment r] \<and>
     raw_good d (ex_Configuration r) \<and> raw_good d (ex_Parameters r) \<and> inside Subject_good d (ex_Subject r) \<and> inside ActionAuthority_good d (ex_Authority r) \<and> whole_minutes (ex_Now r)"

interpretation execute_codec: struct_codec ExecuteActionRequest_text execute_fields zero_execute ExecuteActionRequest_good
  "\<lambda>r. r\<lparr>ex_Configuration := sent (ex_Configuration r), ex_Parameters := sent (ex_Parameters r)\<rparr>"
  by (rule struct_codecI [OF ExecuteActionRequest_text_def], intro exI conjI)
    (unfold execute_fields_def ExecuteActionRequest_good_def, (rule steps_read steps_done carries_intros | simp add: zero_execute_def)+)

definition VerifyActionRequest_good :: "nat \<Rightarrow> VerifyActionRequest \<Rightarrow> bool" where
  "VerifyActionRequest_good d r \<longleftrightarrow> list_all ValidString [va_RequestID r, va_ConnectionID r, va_Provider r, va_Release r, va_AccountRef r, va_CapabilityRef r, va_CapabilityDigest r, va_ActionID r, va_ActionDigest r, va_Operation r, va_Resource r, va_Environment r] \<and>
     raw_good d (va_Configuration r) \<and> raw_good d (va_Parameters r) \<and> inside Subject_good d (va_Subject r) \<and> inside ActionExecution_good d (va_Execution r) \<and> whole_minutes (va_Now r)"

interpretation verify_action_codec: struct_codec VerifyActionRequest_text verify_action_fields zero_verify_action VerifyActionRequest_good
  "\<lambda>r. r\<lparr>va_Configuration := sent (va_Configuration r), va_Parameters := sent (va_Parameters r),
     va_Execution := (va_Execution r)\<lparr>ae_Output := sent (ae_Output (va_Execution r))\<rparr>\<rparr>"
  by (rule struct_codecI [OF VerifyActionRequest_text_def], intro exI conjI)
    (unfold verify_action_fields_def VerifyActionRequest_good_def, (rule steps_read steps_done carries_intros | simp add: zero_verify_action_def)+)

section \<open>Authorizations\<close>

text \<open>An empty slice under \<open>omitempty\<close> is not written and comes back nil.\<close>

definition settle :: "('a \<Rightarrow> 'a) \<Rightarrow> 'a list option \<Rightarrow> 'a list option" where
  "settle f x = (if items x = [] then None else Some (map f (items x)))"

lemma items_simps [simp]: "items None = []" "items (Some xs) = xs"
  by (simp_all add: items_def)

lemma strings_traverse: "traverse (\<lambda>s. str s) xs = Inr (map quote xs)"
  by (induction xs) simp_all

lemma strings_carried [carries_intros]:
  assumes "list_all ValidString xs" "d > 0" "d \<le> maxNestingDepth"
  shows "old = [] \<Longrightarrow> carries d (decode_list decode_string []) old (Inr (strings_text xs)) xs"
    and "items old' = [] \<Longrightarrow> carries d (decode_slice decode_string []) old' (Inr (strings_text xs)) (Some xs)"
proof -
  have "inside (\<lambda>d. list_all ValidString) d xs" using assms by (cases d) simp_all
  then show "old = [] \<Longrightarrow> carries d (decode_list decode_string []) old (Inr (strings_text xs)) xs"
    and "items old' = [] \<Longrightarrow> carries d (decode_slice decode_string []) old' (Inr (strings_text xs)) (Some xs)"
    using string_codec.list_carried [of d xs old] string_codec.slice_carried [of d xs old'] assms(3)
    by (simp_all add: strings_traverse strings_text_def)
qed

definition CapabilitySelector_good :: "nat \<Rightarrow> CapabilitySelector \<Rightarrow> bool" where
  "CapabilitySelector_good d c \<longleftrightarrow> list_all ValidString [cs_Ref c, cs_Digest c]"

lemma struct_text_Inrs: "struct_text (map (\<lambda>(k, t). (k, Inr t)) kts) = Inr (object_text kts)"
  by (auto simp: struct_text_Inr list.rel_map intro!: list.rel_refl exI [of _ kts])

interpretation selector_codec: struct_codec "\<lambda>c. Inr (CapabilitySelector_text c)" selector_fields zero_selector
  CapabilitySelector_good "\<lambda>c. c"
proof (rule struct_codecI)
  show "Inr (CapabilitySelector_text c) = struct_text [(''ref'', str (cs_Ref c)), (''digest'', str (cs_Digest c))]" for c
    using struct_text_Inrs [of "[(''ref'', quote (cs_Ref c)), (''digest'', quote (cs_Digest c))]"]
    by (simp add: CapabilitySelector_text_def)
  show "\<exists>w. steps d selector_fields [(''ref'', str (cs_Ref c)), (''digest'', str (cs_Digest c))] zero_selector w \<and> w = c"
    if "CapabilitySelector_good d c" "d < maxNestingDepth" for d c
    using that unfolding selector_fields_def CapabilitySelector_good_def
    by (intro exI conjI) (rule steps_read steps_done carries_intros | simp add: zero_selector_def)+
qed (simp_all add: selector_fields_def)

text \<open>The ceilings of a parameter.\<close>

lemma number_carried [carries_intros]:
  "is_number n \<Longrightarrow> carries d (decode_pointer decode_number []) old (number_text n) (Some n)"
proof -
  assume n: "is_number n"
  then have "parse_json n = Some (JNumber n)" "readable d n" "n \<noteq> []"
    using denotes_number denotes_parse [of maxNestingDepth n] is_number_hd [OF n] by (auto simp: readable_def)
  then show ?thesis using n
    by (simp add: carries_def number_text_def decode_pointer_def decode_number_def on_value_def)
qed

lemma flag_carried [carries_intros]: "carries d decode_bool old (Inr ''true'') True"
proof -
  have t: "denotes d ''true'' (JBool True)" for d using denotes_bool [of d True] by (simp add: bool_text_def)
  then have "parse_json ''true'' = Some (JBool True)" using denotes_parse [OF t, of maxNestingDepth] by simp
  then show ?thesis using t by (auto simp: carries_def decode_bool_def on_value_def readable_def)
qed

definition ParameterLimit_good :: "nat \<Rightarrow> ParameterLimit \<Rightarrow> bool" where
  "ParameterLimit_good d p \<longleftrightarrow> ValidString (pl_Type p) \<and> inside (\<lambda>d. list_all (raw_good d)) d (items (pl_AllowedValues p)) \<and>
     (\<forall>n. pl_Minimum p = Some n \<longrightarrow> is_number n) \<and> (\<forall>n. pl_Maximum p = Some n \<longrightarrow> is_number n)"

definition ParameterLimit_received :: "ParameterLimit \<Rightarrow> ParameterLimit" where
  "ParameterLimit_received p = p\<lparr>pl_AllowedValues := settle sent (pl_AllowedValues p)\<rparr>"

definition ParameterLimit_members :: "ParameterLimit \<Rightarrow> (string \<times> string result) list" where
  "ParameterLimit_members p =
     (''type'', str (pl_Type p)) # omit (\<not> pl_Optional p) ''optional'' (Inr ''true'') @
     omit (items (pl_AllowedValues p) = []) ''allowed_values''
       (and_then (traverse raw_text (items (pl_AllowedValues p))) (\<lambda>ts. Inr (array_text ts))) @
     (case pl_Minimum p of None \<Rightarrow> [] | Some n \<Rightarrow> [(''minimum'', number_text n)]) @
     (case pl_Maximum p of None \<Rightarrow> [] | Some n \<Rightarrow> [(''maximum'', number_text n)])"

lemma traverse_Nil_iff: "traverse f xs = Inr ys \<Longrightarrow> ys = [] \<longleftrightarrow> xs = []"
  by (auto simp: traverse_Inr)

lemma ParameterLimit_written: "ParameterLimit_text p = Inr t \<Longrightarrow> struct_text (ParameterLimit_members p) = Inr t"
  by (auto simp: ParameterLimit_text_def ParameterLimit_members_def and_then_Inr bound_member_def struct_text_Inr
      traverse_Nil_iff omit_def list_all2_append1 list_all2_Cons1 split: option.splits)

interpretation limit_codec: struct_codec ParameterLimit_text limit_fields zero_limit ParameterLimit_good ParameterLimit_received
proof (rule struct_codec_written, erule ParameterLimit_written)
  show "\<exists>w. steps d limit_fields (ParameterLimit_members p) zero_limit w \<and> w = ParameterLimit_received p"
    if "ParameterLimit_good d p" "d < maxNestingDepth" for d p
    using that unfolding limit_fields_def ParameterLimit_good_def ParameterLimit_members_def
    by (intro exI conjI) ((rule steps_read steps_omit steps_option steps_option_last steps_done carries_intros raw_codec.slice_carried
      | simp add: zero_limit_def ParameterLimit_received_def settle_def)+, auto simp: zero_limit_def intro!: ParameterLimit.equality split: option.split)
qed (simp_all add: limit_fields_def)

definition ParameterLimits_good :: "nat \<Rightarrow> ParameterLimits \<Rightarrow> bool" where
  "ParameterLimits_good d p \<longleftrightarrow> (\<forall>es. pls_Fields p = Some es \<longrightarrow> distinct (map fst es) \<and>
     inside (\<lambda>d. list_all (\<lambda>(k, l). ValidString k \<and> inside ParameterLimit_good d l)) d es)"

definition ParameterLimits_received :: "ParameterLimits \<Rightarrow> ParameterLimits" where
  "ParameterLimits_received p = p\<lparr>pls_Fields := map_option (\<lambda>es.
     map (\<lambda>(k, l). (k, ParameterLimit_received l)) (sort_key fst es)) (pls_Fields p)\<rparr>"

definition ParameterLimits_members :: "ParameterLimits \<Rightarrow> (string \<times> string result) list" where
  "ParameterLimits_members p = [(''fields'', case pls_Fields p of None \<Rightarrow> Inr ''null''
     | Some es \<Rightarrow> and_then (traverse (\<lambda>(k, l). and_then (ParameterLimit_text l) (\<lambda>t. Inr (k, t))) (sort_key fst es))
         (\<lambda>ms. Inr (object_text ms)))]"

lemma ParameterLimits_written: "ParameterLimits_text p = Inr t \<Longrightarrow> struct_text (ParameterLimits_members p) = Inr t"
  by (auto simp: ParameterLimits_text_def ParameterLimits_members_def and_then_Inr struct_text_Inr list_all2_Cons1
      split: option.splits)

lemma null_carried: "carries d (decode_map dec zero) old (Inr ''null'') None"
  using denotes_null denotes_parse [OF denotes_null, of maxNestingDepth]
  by (auto simp: carries_def readable_def decode_map_def)

lemma fields_carried:
  assumes "ParameterLimits_good d p" "d < maxNestingDepth"
  shows "carries d (decode_map (decode_struct limit_fields) zero_limit) None (snd (hd (ParameterLimits_members p)))
     (pls_Fields (ParameterLimits_received p))"
proof (cases "pls_Fields p")
  case None
  then show ?thesis by (simp add: ParameterLimits_members_def ParameterLimits_received_def null_carried)
next
  case (Some es)
  have "inside (\<lambda>d. list_all (\<lambda>(k, l). ValidString k \<and> inside ParameterLimit_good d l)) d (sort_key fst es)"
    "distinct (map fst (sort_key fst es))"
    using assms(1) Some by (auto simp: ParameterLimits_good_def inside_def list_all_iff distinct_map split: nat.splits)
  from limit_codec.map_carried [OF this] show ?thesis
    using assms(2) Some by (simp add: ParameterLimits_members_def ParameterLimits_received_def)
qed

interpretation limits_codec: struct_codec ParameterLimits_text limits_fields zero_limits ParameterLimits_good ParameterLimits_received
proof (rule struct_codec_written, erule ParameterLimits_written)
  fix d p
  assume "ParameterLimits_good d p" "d < maxNestingDepth"
  then have "carries d (decode_map (decode_struct limit_fields) zero_limit) (pls_Fields zero_limits)
      (snd (hd (ParameterLimits_members p))) (pls_Fields (ParameterLimits_received p))"
    using fields_carried by (simp add: zero_limits_def)
  from steps_read [OF carries_field [where sel = pls_Fields and upd = pls_Fields_update and r = zero_limits, OF this] steps_done]
  have st: "steps d limits_fields (ParameterLimits_members p) zero_limits (zero_limits\<lparr>pls_Fields := pls_Fields (ParameterLimits_received p)\<rparr>)"
    by (simp add: limits_fields_def ParameterLimits_members_def)
  show "\<exists>w. steps d limits_fields (ParameterLimits_members p) zero_limits w \<and> w = ParameterLimits_received p"
    by (intro exI conjI, rule st) (simp add: zero_limits_def)
qed (simp_all add: limits_fields_def)

text \<open>Rules and authorizations.\<close>

definition AuthorizationRule_good :: "nat \<Rightarrow> AuthorizationRule \<Rightarrow> bool" where
  "AuthorizationRule_good d r \<longleftrightarrow> d > 0 \<and> list_all ValidString ([ar_ID r, ar_Effect r] @ ar_Providers r @ ar_Operations r @
      ar_ResourcePrefixes r @ items (ar_ResourceIDs r)) \<and>
     inside (\<lambda>d. list_all (inside CapabilitySelector_good d)) d (items (ar_Capabilities r)) \<and>
     (\<forall>l. ar_ParameterLimits r = Some l \<longrightarrow> inside ParameterLimits_good d l)"

definition AuthorizationRule_received :: "AuthorizationRule \<Rightarrow> AuthorizationRule" where
  "AuthorizationRule_received r = r\<lparr>ar_Capabilities := settle (\<lambda>c. c) (ar_Capabilities r),
     ar_ResourceIDs := settle (\<lambda>s. s) (ar_ResourceIDs r),
     ar_ParameterLimits := map_option ParameterLimits_received (ar_ParameterLimits r)\<rparr>"

definition AuthorizationRule_members :: "AuthorizationRule \<Rightarrow> (string \<times> string result) list" where
  "AuthorizationRule_members r =
     (''id'', str (ar_ID r)) # (''effect'', str (ar_Effect r)) #
     omit (ar_Providers r = []) ''providers'' (Inr (strings_text (ar_Providers r))) @
     omit (ar_Operations r = []) ''operations'' (Inr (strings_text (ar_Operations r))) @
     omit (items (ar_Capabilities r) = []) ''capabilities''
       (and_then (traverse (\<lambda>c. Inr (CapabilitySelector_text c)) (items (ar_Capabilities r))) (\<lambda>ts. Inr (array_text ts))) @
     omit (ar_ResourcePrefixes r = []) ''resource_prefixes'' (Inr (strings_text (ar_ResourcePrefixes r))) @
     omit (items (ar_ResourceIDs r) = []) ''resource_ids'' (Inr (strings_text (items (ar_ResourceIDs r)))) @
     (case ar_ParameterLimits r of None \<Rightarrow> [] | Some l \<Rightarrow> [(''parameter_limits'', ParameterLimits_text l)])"

lemma selectors_traverse: "traverse (\<lambda>c. Inr (CapabilitySelector_text c)) cs = Inr (map CapabilitySelector_text cs)"
  by (induction cs) simp_all

lemma AuthorizationRule_written: "AuthorizationRule_text r = Inr t \<Longrightarrow> struct_text (AuthorizationRule_members r) = Inr t"
  by (auto simp: AuthorizationRule_text_def AuthorizationRule_members_def and_then_Inr struct_text_Inr selectors_traverse
      omit_def list_all2_append1 list_all2_Cons1 split: option.splits)

interpretation rule_codec: struct_codec AuthorizationRule_text rule_fields zero_rule AuthorizationRule_good AuthorizationRule_received
proof (rule struct_codec_written, erule AuthorizationRule_written)
  show "\<exists>w. steps d rule_fields (AuthorizationRule_members r) zero_rule w \<and> w = AuthorizationRule_received r"
    if "AuthorizationRule_good d r" "d < maxNestingDepth" for d r
    using that unfolding rule_fields_def AuthorizationRule_good_def AuthorizationRule_members_def
    by (intro exI conjI) ((rule steps_read steps_omit steps_option_last steps_done carries_intros selector_codec.slice_carried
        limits_codec.pointer_carried | simp add: zero_rule_def AuthorizationRule_received_def settle_def)+,
      auto simp: zero_rule_def intro!: AuthorizationRule.equality split: option.split)
qed (simp_all add: rule_fields_def)

definition Authorization_good :: "nat \<Rightarrow> Authorization \<Rightarrow> bool" where
  "Authorization_good d a \<longleftrightarrow> d > 0 \<and> list_all ValidString ([au_ProfileDigest a, au_PolicyRelease a, au_Provider a, au_AccountRef a] @
      au_Environments a @ au_ResourcePrefixes a @ items (au_ResourceIDs a)) \<and>
     inside (\<lambda>d. list_all (inside AuthorizationRule_good d)) d (au_Rules a)"

definition Authorization_received :: "Authorization \<Rightarrow> Authorization" where
  "Authorization_received a = a\<lparr>au_ResourceIDs := settle (\<lambda>s. s) (au_ResourceIDs a),
     au_Rules := map AuthorizationRule_received (au_Rules a)\<rparr>"

definition Authorization_members :: "Authorization \<Rightarrow> (string \<times> string result) list" where
  "Authorization_members a =
     (''profile_digest'', str (au_ProfileDigest a)) # (''policy_release'', str (au_PolicyRelease a)) #
     (''provider'', str (au_Provider a)) # (''account_ref'', str (au_AccountRef a)) #
     (''environments'', Inr (strings_text (au_Environments a))) #
     omit (au_ResourcePrefixes a = []) ''resource_prefixes'' (Inr (strings_text (au_ResourcePrefixes a))) @
     omit (items (au_ResourceIDs a) = []) ''resource_ids'' (Inr (strings_text (items (au_ResourceIDs a)))) @
     [(''rules'', and_then (traverse AuthorizationRule_text (au_Rules a)) (\<lambda>ts. Inr (array_text ts)))]"

lemma Authorization_written: "Authorization_text a = Inr t \<Longrightarrow> struct_text (Authorization_members a) = Inr t"
  by (auto simp: Authorization_text_def Authorization_members_def and_then_Inr struct_text_Inr
      omit_def list_all2_append1 list_all2_Cons1)

interpretation authorization_codec: struct_codec Authorization_text authorization_fields zero_authorization
  Authorization_good Authorization_received
proof (rule struct_codec_written, erule Authorization_written)
  show "\<exists>w. steps d authorization_fields (Authorization_members a) zero_authorization w \<and> w = Authorization_received a"
    if "Authorization_good d a" "d < maxNestingDepth" for d a
    using that unfolding authorization_fields_def Authorization_good_def Authorization_members_def
    by (intro exI conjI) (rule steps_read steps_omit steps_done carries_intros rule_codec.list_carried
      | simp add: zero_authorization_def Authorization_received_def settle_def)+
qed (simp_all add: authorization_fields_def)

definition CredentialLifetime_good :: "nat \<Rightarrow> CredentialLifetime \<Rightarrow> bool" where
  "CredentialLifetime_good d l \<longleftrightarrow> ValidString (cl_Protocol l) \<and> whole_minutes (cl_TaskExpiresAt l)"

interpretation lifetime_codec: struct_codec CredentialLifetime_text lifetime_fields zero_lifetime CredentialLifetime_good "\<lambda>l. l"
  by (rule struct_codecI [OF CredentialLifetime_text_def], intro exI conjI)
    (unfold lifetime_fields_def CredentialLifetime_good_def, (rule steps_read steps_done carries_intros | simp add: zero_lifetime_def)+)

definition IssueRequest_good :: "nat \<Rightarrow> IssueRequest \<Rightarrow> bool" where
  "IssueRequest_good d r \<longleftrightarrow> list_all ValidString [is_RequestID r, is_ConnectionID r, is_Provider r, is_Release r, is_AccountRef r,
      is_AuthorizationDigest r] \<and> raw_good d (is_Configuration r) \<and> inside Subject_good d (is_Subject r) \<and>
     inside Authorization_good d (is_Authorization r) \<and> whole_minutes (is_Now r) \<and>
     (\<forall>l. is_Lifetime r = Some l \<longrightarrow> inside CredentialLifetime_good d l)"

definition IssueRequest_received :: "IssueRequest \<Rightarrow> IssueRequest" where
  "IssueRequest_received r = r\<lparr>is_Configuration := sent (is_Configuration r),
     is_Authorization := Authorization_received (is_Authorization r)\<rparr>"

interpretation issue_codec: struct_codec IssueRequest_text issue_fields zero_issue IssueRequest_good IssueRequest_received
proof (rule struct_codecI [OF IssueRequest_text_def])
  show "\<exists>w. steps d issue_fields ([(''request_id'', str (is_RequestID r)), (''connection_id'', str (is_ConnectionID r)),
       (''provider'', str (is_Provider r)), (''release'', str (is_Release r)), (''account_ref'', str (is_AccountRef r)),
       (''configuration'', raw_text (is_Configuration r)), (''subject'', Subject_text (is_Subject r)),
       (''authorization'', Authorization_text (is_Authorization r)),
       (''authorization_digest'', str (is_AuthorizationDigest r)), (''now'', time_json (is_Now r))] @
       (case is_Lifetime r of None \<Rightarrow> [] | Some l \<Rightarrow> [(''lifetime'', CredentialLifetime_text l)])) zero_issue w \<and>
      w = IssueRequest_received r"
    if "IssueRequest_good d r" "d < maxNestingDepth" for d r
    using that unfolding issue_fields_def IssueRequest_good_def append_Cons append_Nil
    by (intro exI conjI) ((rule steps_read steps_option_last steps_done carries_intros authorization_codec.carried
        lifetime_codec.pointer_carried | simp add: zero_issue_def IssueRequest_received_def)+,
      auto simp: zero_issue_def intro!: IssueRequest.equality split: option.split)
qed (simp_all add: issue_fields_def)

section \<open>Discovery\<close>

lemma int_carried [carries_intros]:
  assumes "- (2 ^ 63) \<le> i" "i < 2 ^ 63"
  shows "carries d decode_int old (Inr (Itoa i)) i"
proof -
  have "parse_json (Itoa i) = Some (JNumber (Itoa i))" "readable d (Itoa i)"
    using denotes_number [OF is_number_Itoa] denotes_parse [of maxNestingDepth "Itoa i"] by (auto simp: readable_def)
  then show ?thesis using Atoi_Itoa [OF assms] by (simp add: carries_def decode_int_def on_value_def)
qed

definition DiscoveryRequest_good :: "nat \<Rightarrow> DiscoveryRequest \<Rightarrow> bool" where
  "DiscoveryRequest_good d r \<longleftrightarrow> d > 0 \<and> list_all ValidString ([dr_Protocol r, dr_RequestID r, dr_TenantID r, dr_ConnectionID r,
      dr_Provider r, dr_Release r, dr_ManifestDigest r, dr_AccountRef r, dr_CapabilityRef r, dr_CapabilityDigest r, dr_Query r,
      dr_Cursor r] @ items (dr_ResourceIDs r)) \<and> raw_good d (dr_Configuration r) \<and>
     - (2 ^ 63) \<le> dr_Limit r \<and> dr_Limit r < 2 ^ 63 \<and> whole_minutes (dr_Now r)"

definition DiscoveryRequest_received :: "DiscoveryRequest \<Rightarrow> DiscoveryRequest" where
  "DiscoveryRequest_received r = r\<lparr>dr_Configuration := sent (dr_Configuration r), dr_ResourceIDs := settle (\<lambda>s. s) (dr_ResourceIDs r)\<rparr>"

definition DiscoveryRequest_members :: "DiscoveryRequest \<Rightarrow> (string \<times> string result) list" where
  "DiscoveryRequest_members r =
     (''protocol'', str (dr_Protocol r)) # (''request_id'', str (dr_RequestID r)) #
     (''tenant_id'', str (dr_TenantID r)) # (''connection_id'', str (dr_ConnectionID r)) #
     (''provider'', str (dr_Provider r)) # (''release'', str (dr_Release r)) #
     (''manifest_digest'', str (dr_ManifestDigest r)) # (''account_ref'', str (dr_AccountRef r)) #
     (''capability_ref'', str (dr_CapabilityRef r)) # (''capability_digest'', str (dr_CapabilityDigest r)) #
     (''configuration'', raw_text (dr_Configuration r)) #
     omit (dr_Query r = []) ''query'' (str (dr_Query r)) @
     omit (dr_Cursor r = []) ''cursor'' (str (dr_Cursor r)) @
     (''limit'', Inr (Itoa (dr_Limit r))) #
     omit (items (dr_ResourceIDs r) = []) ''resource_ids'' (Inr (strings_text (items (dr_ResourceIDs r)))) @
     [(''now'', time_json (dr_Now r))]"

lemma DiscoveryRequest_written: "DiscoveryRequest_text r = Inr t \<Longrightarrow> struct_text (DiscoveryRequest_members r) = Inr t"
  by (auto simp: DiscoveryRequest_text_def DiscoveryRequest_members_def and_then_Inr struct_text_Inr time_json_Inr strings_text_def
      omit_def list_all2_append1 list_all2_Cons1 split: option.splits)

interpretation discovery_codec: struct_codec DiscoveryRequest_text discovery_fields zero_discovery
  DiscoveryRequest_good DiscoveryRequest_received
proof (rule struct_codec_written, erule DiscoveryRequest_written)
  show "\<exists>w. steps d discovery_fields (DiscoveryRequest_members r) zero_discovery w \<and> w = DiscoveryRequest_received r"
    if "DiscoveryRequest_good d r" "d < maxNestingDepth" for d r
    using that unfolding discovery_fields_def DiscoveryRequest_good_def DiscoveryRequest_members_def
    by (intro exI conjI) (rule steps_read steps_omit steps_done carries_intros
      | simp add: zero_discovery_def DiscoveryRequest_received_def settle_def)+
qed (simp_all add: discovery_fields_def)

definition DiscoveredResource_good :: "nat \<Rightarrow> DiscoveredResource \<Rightarrow> bool" where
  "DiscoveredResource_good d x \<longleftrightarrow> list_all ValidString [ds_ID x, ds_Label x, ds_Kind x]"

interpretation resource_codec: struct_codec "\<lambda>x. Inr (DiscoveredResource_text x)" resource_fields zero_resource
  DiscoveredResource_good "\<lambda>x. x"
proof (rule struct_codecI)
  show "Inr (DiscoveredResource_text x) = struct_text [(''id'', str (ds_ID x)), (''label'', str (ds_Label x)), (''kind'', str (ds_Kind x))]" for x
    using struct_text_Inrs [of "[(''id'', quote (ds_ID x)), (''label'', quote (ds_Label x)), (''kind'', quote (ds_Kind x))]"]
    by (simp add: DiscoveredResource_text_def)
  show "\<exists>w. steps d resource_fields [(''id'', str (ds_ID x)), (''label'', str (ds_Label x)), (''kind'', str (ds_Kind x))]
      zero_resource w \<and> w = x"
    if "DiscoveredResource_good d x" "d < maxNestingDepth" for d x
    using that unfolding resource_fields_def DiscoveredResource_good_def
    by (intro exI conjI) (rule steps_read steps_done carries_intros | simp add: zero_resource_def)+
qed (simp_all add: resource_fields_def)

definition DiscoveryPage_good :: "nat \<Rightarrow> DiscoveryPage \<Rightarrow> bool" where
  "DiscoveryPage_good d p \<longleftrightarrow> d > 0 \<and> list_all ValidString ([dp_Protocol p, dp_RequestDigest p, dp_NextCursor p] @
      dp_MissingResourceIDs p) \<and> whole_minutes (dp_ObservedAt p) \<and>
     inside (\<lambda>d. list_all (inside DiscoveredResource_good d)) d (items (dp_Resources p))"

definition DiscoveryPage_members :: "DiscoveryPage \<Rightarrow> (string \<times> string result) list" where
  "DiscoveryPage_members p =
     (''protocol'', str (dp_Protocol p)) # (''request_digest'', str (dp_RequestDigest p)) #
     (''observed_at'', time_json (dp_ObservedAt p)) #
     (''resources'', case dp_Resources p of None \<Rightarrow> Inr ''null''
        | Some xs \<Rightarrow> and_then (traverse (\<lambda>x. Inr (DiscoveredResource_text x)) xs) (\<lambda>ts. Inr (array_text ts))) #
     omit (dp_NextCursor p = []) ''next_cursor'' (str (dp_NextCursor p)) @
     omit (dp_MissingResourceIDs p = []) ''missing_resource_ids'' (Inr (strings_text (dp_MissingResourceIDs p)))"

lemma resources_traverse: "traverse (\<lambda>x. Inr (DiscoveredResource_text x)) xs = Inr (map DiscoveredResource_text xs)"
  by (induction xs) simp_all

lemma DiscoveryPage_members_text: "DiscoveryPage_text p = struct_text (DiscoveryPage_members p)"
  by (simp add: DiscoveryPage_text_def DiscoveryPage_members_def resources_traverse split: option.split)

lemma resources_carried [carries_intros]:
  assumes "inside (\<lambda>d. list_all (inside DiscoveredResource_good d)) d (items o')" "d \<le> maxNestingDepth" "old = None"
  shows "carries d (decode_slice (decode_struct resource_fields) zero_resource) old
     (case o' of None \<Rightarrow> Inr ''null''
      | Some xs \<Rightarrow> and_then (traverse (\<lambda>x. Inr (DiscoveredResource_text x)) xs) (\<lambda>ts. Inr (array_text ts))) o'"
proof (cases o')
  case None
  then show ?thesis using denotes_null denotes_parse [OF denotes_null, of maxNestingDepth]
    by (auto simp: carries_def readable_def decode_slice_def)
next
  case (Some xs)
  then show ?thesis using resource_codec.slice_carried [of d xs old] assms by simp
qed

interpretation page_codec: struct_codec DiscoveryPage_text page_fields zero_page DiscoveryPage_good "\<lambda>p. p"
proof (rule struct_codecI [OF DiscoveryPage_members_text])
  show "\<exists>w. steps d page_fields (DiscoveryPage_members p) zero_page w \<and> w = p"
    if "DiscoveryPage_good d p" "d < maxNestingDepth" for d p
    using that unfolding page_fields_def DiscoveryPage_good_def DiscoveryPage_members_def
    by (intro exI conjI) (rule steps_read steps_omit steps_omit_last steps_done carries_intros | simp add: zero_page_def)+
qed (simp_all add: page_fields_def)

end
