(* ===== verification/Settled.thy ===== *)
theory Settled
  imports Codecs
begin

text \<open>
  What was received is written again as it was sent: the encodings of the protocol are fixed
  points of a decoding and an encoding. So digests over the encoding agree on both ends, and
  so do the verdicts of validation.
\<close>

section \<open>Raw messages\<close>

lemma raw_valid: "raw_good d raw \<Longrightarrow> d \<le> maxNestingDepth \<Longrightarrow> raw \<noteq> [] \<Longrightarrow> \<exists>v. parse_json raw = Some v"
  using reads_deeper by (fastforce simp: raw_good_def sent_value_def parse_reads)

lemma raw_parse: "raw_good d raw \<Longrightarrow> d \<le> maxNestingDepth \<Longrightarrow> raw \<noteq> [] \<Longrightarrow> parse_json (sent raw) = parse_json raw"
proof -
  assume r: "raw_good d raw" "d \<le> maxNestingDepth" "raw \<noteq> []"
  then obtain v where v: "reads maxNestingDepth raw v" using raw_valid unfolding parse_reads by blast
  then have "reads maxNestingDepth (sent raw) v" using r reads_compact denotes_reads by (simp add: sent_def)
  with v show ?thesis by (simp add: parse_reads [symmetric])
qed

lemma sent_Nil [simp]: "raw_good d raw \<Longrightarrow> d \<le> maxNestingDepth \<Longrightarrow> sent raw \<noteq> []"
  using raw_valid [of d raw] reads_compact [of maxNestingDepth raw]
  by (auto simp: sent_def parse_reads denotes_def starts_def)

lemma raw_text_again:
  assumes "raw_good d raw" "d \<le> maxNestingDepth"
  shows "raw_text (sent raw) = raw_text raw"
proof (cases "raw = []")
  case True
  have "parse_json ''null'' = Some JNull" using denotes_parse [OF denotes_null, of maxNestingDepth] by simp
  moreover have "compact False ''null'' = ''null''" by (simp add: compact_token is_ws_def)
  ultimately show ?thesis by (simp add: True sent_def raw_text_def json_Valid_def)
next
  case False
  then obtain v where "parse_json raw = Some v" "parse_json (sent raw) = Some v" using raw_valid raw_parse assms by metis
  moreover have "compact False (sent raw) = compact False raw" using False by (simp add: sent_def compact_again)
  ultimately show ?thesis using sent_Nil [OF assms] False by (simp add: raw_text_def json_Valid_def)
qed

lemma raw_any: "raw_good d raw \<Longrightarrow> d \<le> maxNestingDepth \<Longrightarrow> raw \<noteq> [] \<Longrightarrow> Unmarshal_any (sent raw) = Unmarshal_any raw"
  by (simp add: Unmarshal_any_def raw_parse)

lemma raw_digest: "raw_good d raw \<Longrightarrow> d \<le> maxNestingDepth \<Longrightarrow> raw \<noteq> [] \<Longrightarrow> JSONDigest (sent raw) = JSONDigest raw"
  by (simp add: JSONDigest_def raw_any)

text \<open>The strict decoder also bounds the length, which HTML escapes can increase.\<close>

definition short :: "string \<Rightarrow> bool" where
  "short raw \<longleftrightarrow> length raw \<le> 64 * 1024 \<and> length (sent raw) \<le> 64 * 1024"

lemma raw_decode:
  "raw_good d raw \<Longrightarrow> d \<le> maxNestingDepth \<Longrightarrow> raw \<noteq> [] \<Longrightarrow> short raw \<Longrightarrow>
     decodeParameterJSON (sent raw) = decodeParameterJSON raw"
  by (simp add: decodeParameterJSON_def raw_parse short_def)

section \<open>Stable codecs\<close>

locale stable_codec = struct_codec +
  assumes again: "good d v \<Longrightarrow> d < maxNestingDepth \<Longrightarrow> text_of (received v) = text_of v"
begin

text \<open>Decoding and encoding what was sent gives the same bytes.\<close>

lemma resent:
  "text_of v = Inr t \<Longrightarrow> good d v \<Longrightarrow> d < maxNestingDepth \<Longrightarrow>
     \<exists>w. decodeStrict flds zero t = Some w \<and> text_of w = Inr t"
  using strict again by metis

text \<open>The bytes determine what is received.\<close>

lemma bytes_bind:
  assumes "text_of v = Inr t" "text_of w = Inr t" "good d v" "good e w" "d < maxNestingDepth" "e < maxNestingDepth"
  shows "received v = received w"
  using strict [OF assms(1,3,5)] strict [OF assms(2,4,6)] by simp

end

lemmas raw_again = raw_text_again [OF _ less_imp_le]

interpretation prepare_codec: stable_codec PrepareRequest_text prepare_fields zero_prepare PrepareRequest_good
  "\<lambda>r. r\<lparr>pr_Input := sent (pr_Input r)\<rparr>"
  by unfold_locales (auto simp: PrepareRequest_text_def PrepareRequest_good_def intro!: arg_cong [of _ _ struct_text] raw_again)

interpretation connection_codec: stable_codec Connection_text connection_fields zero_connection Connection_good
  "\<lambda>c. c\<lparr>cn_Configuration := sent (cn_Configuration c), cn_Onboarding := sent (cn_Onboarding c)\<rparr>"
  by unfold_locales (auto simp: Connection_text_def Connection_good_def raw_again)

interpretation verify_codec: stable_codec VerifyRequest_text verify_fields zero_verify VerifyRequest_good
  "\<lambda>r. r\<lparr>vr_Configuration := sent (vr_Configuration r)\<rparr>"
  by unfold_locales (auto simp: VerifyRequest_text_def VerifyRequest_good_def raw_again)

interpretation verification_codec: stable_codec Verification_text verification_fields zero_verification Verification_good
  "\<lambda>v. v"
  by unfold_locales simp

interpretation material_codec: stable_codec Material_text material_fields zero_material Material_good
  "\<lambda>m. m\<lparr>mt_Payload := sent (mt_Payload m)\<rparr>"
  by unfold_locales (auto simp: Material_text_def Material_good_def raw_again)

interpretation execution_codec: stable_codec ActionExecution_text execution_fields zero_execution ActionExecution_good
  "\<lambda>e. e\<lparr>ae_Output := sent (ae_Output e)\<rparr>"
  by unfold_locales (auto simp: ActionExecution_text_def ActionExecution_good_def raw_again)

interpretation action_verification_codec: stable_codec ActionVerification_text action_verification_fields
  zero_action_verification ActionVerification_good "\<lambda>v. v\<lparr>av_Evidence := sent (av_Evidence v)\<rparr>"
  by unfold_locales (auto simp: ActionVerification_text_def ActionVerification_good_def raw_again)

interpretation execute_codec: stable_codec ExecuteActionRequest_text execute_fields zero_execute ExecuteActionRequest_good
  "\<lambda>r. r\<lparr>ex_Configuration := sent (ex_Configuration r), ex_Parameters := sent (ex_Parameters r)\<rparr>"
  by unfold_locales (auto simp: ExecuteActionRequest_text_def ExecuteActionRequest_good_def raw_again)

lemma inside_less:
  assumes "inside good d v" "d \<le> maxNestingDepth"
  obtains e where "e < maxNestingDepth" "good e v"
  using assms by (cases d) (simp_all add: inside_def Suc_le_eq)

interpretation verify_action_codec: stable_codec VerifyActionRequest_text verify_action_fields zero_verify_action
  VerifyActionRequest_good "\<lambda>r. r\<lparr>va_Configuration := sent (va_Configuration r), va_Parameters := sent (va_Parameters r),
     va_Execution := (va_Execution r)\<lparr>ae_Output := sent (ae_Output (va_Execution r))\<rparr>\<rparr>"
proof unfold_locales
  fix d r
  assume r: "VerifyActionRequest_good d r" "d < maxNestingDepth"
  then obtain e where e: "e < maxNestingDepth" "ActionExecution_good e (va_Execution r)"
    using inside_less [of ActionExecution_good d] unfolding VerifyActionRequest_good_def by (metis less_imp_le)
  show "VerifyActionRequest_text (r\<lparr>va_Configuration := sent (va_Configuration r), va_Parameters := sent (va_Parameters r),
     va_Execution := (va_Execution r)\<lparr>ae_Output := sent (ae_Output (va_Execution r))\<rparr>\<rparr>) = VerifyActionRequest_text r"
    using r execution_codec.again [OF e(2,1)] by (auto simp: VerifyActionRequest_text_def VerifyActionRequest_good_def raw_again)
qed

text \<open>Authorizations, from the inside out.\<close>

lemma items_settle [simp]: "items (settle f x) = map f (items x)"
  by (simp add: settle_def)

lemma traverse_map: "traverse f (map g xs) = traverse (\<lambda>x. f (g x)) xs"
  by (induction xs) simp_all

lemma traverse_again:
  assumes "inside (\<lambda>d. list_all (good d)) d xs" "d \<le> maxNestingDepth"
    and "\<And>e x. good e x \<Longrightarrow> e < maxNestingDepth \<Longrightarrow> f (g x) = f x"
  shows "traverse f (map g xs) = traverse f xs"
proof -
  obtain e where "e < maxNestingDepth" "list_all (good e) xs" using assms(1,2) by (rule inside_less)
  then show ?thesis by (induction xs) (auto simp: traverse_map assms(3))
qed

interpretation limit_codec: stable_codec ParameterLimit_text limit_fields zero_limit ParameterLimit_good ParameterLimit_received
proof unfold_locales
  fix d p
  assume p: "ParameterLimit_good d p" "d < maxNestingDepth"
  have "traverse raw_text (map sent (items (pl_AllowedValues p))) = traverse raw_text (items (pl_AllowedValues p))"
    using p by (intro traverse_again [of raw_good d]) (auto simp: ParameterLimit_good_def raw_again)
  then show "ParameterLimit_text (ParameterLimit_received p) = ParameterLimit_text p"
    by (simp add: ParameterLimit_text_def ParameterLimit_received_def)
qed

lemma sort_received: "sort_key fst (map (\<lambda>(k, v). (k, f v)) (sort_key fst es)) = map (\<lambda>(k, v). (k, f v)) (sort_key fst es)"
  for es :: "(string \<times> 'a) list"
proof (rule sort_key_id_if_sorted)
  have "map fst (map (\<lambda>(k, v). (k, f v)) (sort_key fst es)) = map fst (sort_key fst es)" by (simp add: split_def)
  then show "sorted (map fst (map (\<lambda>(k, v). (k, f v)) (sort_key fst es)))" by (simp del: map_map)
qed

interpretation limits_codec: stable_codec ParameterLimits_text limits_fields zero_limits ParameterLimits_good ParameterLimits_received
proof unfold_locales
  fix d p
  assume p: "ParameterLimits_good d p" "d < maxNestingDepth"
  show "ParameterLimits_text (ParameterLimits_received p) = ParameterLimits_text p"
  proof (cases "pls_Fields p")
    case (Some es)
    let ?member = "\<lambda>(k, l). and_then (ParameterLimit_text l) (\<lambda>t. Inr (k, t))"
    have "inside (\<lambda>d. list_all (\<lambda>(k, l). ValidString k \<and> inside ParameterLimit_good d l)) d (sort_key fst es)"
      using p(1) Some by (auto simp: ParameterLimits_good_def inside_def list_all_iff split: nat.splits)
    then have "traverse ?member (map (\<lambda>(k, l). (k, ParameterLimit_received l)) (sort_key fst es)) = traverse ?member (sort_key fst es)"
      using p(2)
      by (intro traverse_again [where good = "\<lambda>d (k, l). ValidString k \<and> inside ParameterLimit_good d l"])
        (auto elim!: inside_less [of ParameterLimit_good] simp: limit_codec.again)
    then show ?thesis by (simp add: ParameterLimits_text_def ParameterLimits_received_def Some sort_received)
  qed (simp add: ParameterLimits_text_def ParameterLimits_received_def)
qed

interpretation rule_codec: stable_codec AuthorizationRule_text rule_fields zero_rule AuthorizationRule_good AuthorizationRule_received
proof unfold_locales
  fix d r
  assume r: "AuthorizationRule_good d r" "d < maxNestingDepth"
  have "ParameterLimits_text (ParameterLimits_received l) = ParameterLimits_text l" if "ar_ParameterLimits r = Some l" for l
    using r that by (auto simp: AuthorizationRule_good_def limits_codec.again elim!: inside_less [of ParameterLimits_good])
  then show "AuthorizationRule_text (AuthorizationRule_received r) = AuthorizationRule_text r"
    by (simp add: AuthorizationRule_text_def AuthorizationRule_received_def split: option.split)
qed

interpretation authorization_codec: stable_codec Authorization_text authorization_fields zero_authorization
  Authorization_good Authorization_received
proof unfold_locales
  fix d a
  assume a: "Authorization_good d a" "d < maxNestingDepth"
  have "traverse AuthorizationRule_text (map AuthorizationRule_received (au_Rules a)) = traverse AuthorizationRule_text (au_Rules a)"
    using a by (intro traverse_again [of "inside AuthorizationRule_good" d])
      (auto simp: Authorization_good_def rule_codec.again elim!: inside_less [of AuthorizationRule_good])
  then show "Authorization_text (Authorization_received a) = Authorization_text a"
    by (simp add: Authorization_text_def Authorization_received_def)
qed

interpretation issue_codec: stable_codec IssueRequest_text issue_fields zero_issue IssueRequest_good IssueRequest_received
proof unfold_locales
  fix d r
  assume r: "IssueRequest_good d r" "d < maxNestingDepth"
  then have "Authorization_text (Authorization_received (is_Authorization r)) = Authorization_text (is_Authorization r)"
    by (auto simp: IssueRequest_good_def authorization_codec.again elim!: inside_less [of Authorization_good])
  then show "IssueRequest_text (IssueRequest_received r) = IssueRequest_text r"
    using r by (auto simp: IssueRequest_text_def IssueRequest_received_def IssueRequest_good_def raw_again)
qed

interpretation discovery_codec: stable_codec DiscoveryRequest_text discovery_fields zero_discovery
  DiscoveryRequest_good DiscoveryRequest_received
proof unfold_locales
  fix d r
  assume "DiscoveryRequest_good d r" "d < maxNestingDepth"
  then have "raw_text (sent (dr_Configuration r)) = raw_text (dr_Configuration r)" by (auto simp: DiscoveryRequest_good_def raw_again)
  then show "DiscoveryRequest_text (DiscoveryRequest_received r) = DiscoveryRequest_text r"
    by (cases "time_text (dr_Now r)") (simp_all add: DiscoveryRequest_text_def DiscoveryRequest_received_def)
qed

interpretation page_codec: stable_codec DiscoveryPage_text page_fields zero_page DiscoveryPage_good "\<lambda>p. p"
  by unfold_locales simp

end
