(* ===== verification/Agreement.thy ===== *)
theory Agreement
  imports Settled Services
begin

text \<open>
  Both ends of a channel agree: validation accepts what was received of an accepted message,
  and the digests that bind messages to each other are the same on the received message. On
  this rest the dispatches: what a service answers to a dispatched request is a valid answer
  to the request that was dispatched.
\<close>

section \<open>Actions\<close>

abbreviation ExecuteActionRequest_received :: "ExecuteActionRequest \<Rightarrow> ExecuteActionRequest" where
  "ExecuteActionRequest_received r \<equiv> r\<lparr>ex_Configuration := sent (ex_Configuration r), ex_Parameters := sent (ex_Parameters r)\<rparr>"

abbreviation ActionExecution_received :: "ActionExecution \<Rightarrow> ActionExecution" where
  "ActionExecution_received e \<equiv> e\<lparr>ae_Output := sent (ae_Output e)\<rparr>"

abbreviation ActionVerification_received :: "ActionVerification \<Rightarrow> ActionVerification" where
  "ActionVerification_received v \<equiv> v\<lparr>av_Evidence := sent (av_Evidence v)\<rparr>"

abbreviation VerifyActionRequest_received :: "VerifyActionRequest \<Rightarrow> VerifyActionRequest" where
  "VerifyActionRequest_received r \<equiv> r\<lparr>va_Configuration := sent (va_Configuration r), va_Parameters := sent (va_Parameters r),
     va_Execution := ActionExecution_received (va_Execution r)\<rparr>"

lemma raw_accepted: "raw_good d raw \<Longrightarrow> d \<le> maxNestingDepth \<Longrightarrow> json_Valid raw \<Longrightarrow> raw \<noteq> [] \<Longrightarrow> json_Valid (sent raw)"
  by (simp add: json_Valid_def raw_parse)

lemma action_digest_received:
  "raw_good d raw \<Longrightarrow> d \<le> maxNestingDepth \<Longrightarrow> raw \<noteq> [] \<Longrightarrow> ActionDigest c op res env (sent raw) = ActionDigest c op res env raw"
  by (simp add: ActionDigest_def raw_any)

lemma execute_received:
  assumes "ExecuteActionRequest_good d r" "d < maxNestingDepth" "ExecuteActionRequest_Validate r c = ok"
  shows "ExecuteActionRequest_Validate (ExecuteActionRequest_received r) c = ok"
proof -
  have raw: "raw_good d (ex_Configuration r)" "raw_good d (ex_Parameters r)" "d \<le> maxNestingDepth"
    using assms(1,2) by (simp_all add: ExecuteActionRequest_good_def)
  have ok: "ex_Configuration r \<noteq> []" "json_Valid (ex_Configuration r)" "ex_Parameters r \<noteq> []" "json_Valid (ex_Parameters r)"
    using assms(3) by (auto simp: ExecuteActionRequest_Validate_def Let_def split: if_splits)
  have "sent (ex_Configuration r) \<noteq> []" "sent (ex_Parameters r) \<noteq> []" using raw by simp_all
  then show ?thesis using assms(3) raw_accepted [OF raw(1,3) ok(2,1)] raw_accepted [OF raw(2,3) ok(4,3)]
      action_digest_received [OF raw(2,3) ok(3)]
    by (simp add: ExecuteActionRequest_Validate_def Let_def split: if_splits)
qed

lemma execution_received:
  assumes "ActionExecution_good d e" "d \<le> maxNestingDepth" "ActionExecution_Validate e = ok"
  shows "ActionExecution_Validate (ActionExecution_received e) = ok"
proof -
  have "JSONDigest (ae_Output e) = Inr (ae_OutputDigest e)"
    using assms(3) by (auto simp: ActionExecution_Validate_def split: if_splits)
  moreover from this have "ae_Output e \<noteq> []" by (auto simp: JSONDigest_def)
  ultimately show ?thesis using assms raw_digest [of d "ae_Output e"]
    by (auto simp: ActionExecution_Validate_def ActionExecution_good_def split: if_splits)
qed

lemma verification_received:
  assumes "ActionVerification_good d v" "d \<le> maxNestingDepth" "ActionVerification_Validate v = ok"
  shows "ActionVerification_Validate (ActionVerification_received v) = ok"
proof -
  have "JSONDigest (av_Evidence v) = Inr (av_EvidenceDigest v)"
    using assms(3) by (auto simp: ActionVerification_Validate_def split: if_splits)
  moreover from this have "av_Evidence v \<noteq> []" by (auto simp: JSONDigest_def)
  ultimately show ?thesis using assms raw_digest [of d "av_Evidence v"]
    by (auto simp: ActionVerification_Validate_def ActionVerification_good_def split: if_splits)
qed

lemma verify_action_received:
  assumes "VerifyActionRequest_good d r" "d < maxNestingDepth" "VerifyActionRequest_Validate r c = ok"
  shows "VerifyActionRequest_Validate (VerifyActionRequest_received r) c = ok"
proof -
  have raw: "raw_good d (va_Configuration r)" "raw_good d (va_Parameters r)" "d \<le> maxNestingDepth"
    using assms(1,2) by (simp_all add: VerifyActionRequest_good_def)
  obtain e where "e < maxNestingDepth" "ActionExecution_good e (va_Execution r)"
    using assms(1) inside_less [OF _ raw(3), of ActionExecution_good] by (auto simp: VerifyActionRequest_good_def)
  moreover have ok: "va_Configuration r \<noteq> []" "json_Valid (va_Configuration r)" "va_Parameters r \<noteq> []" "json_Valid (va_Parameters r)"
    "ActionExecution_Validate (va_Execution r) = ok"
    using assms(3) by (auto simp: VerifyActionRequest_Validate_def Let_def split: if_splits)
  ultimately have "ActionExecution_Validate (ActionExecution_received (va_Execution r)) = ok"
    using execution_received by (metis less_imp_le)
  moreover have "sent (va_Configuration r) \<noteq> []" "sent (va_Parameters r) \<noteq> []" using raw by simp_all
  ultimately show ?thesis using assms(3) raw_accepted [OF raw(1,3) ok(2,1)] raw_accepted [OF raw(2,3) ok(4,3)]
      action_digest_received [OF raw(2,3) ok(3)]
    by (simp add: VerifyActionRequest_Validate_def Let_def split: if_splits)
qed

section \<open>Connection verification\<close>

abbreviation VerifyRequest_received :: "VerifyRequest \<Rightarrow> VerifyRequest" where
  "VerifyRequest_received r \<equiv> r\<lparr>vr_Configuration := sent (vr_Configuration r)\<rparr>"

lemma verification_digest_received:
  "VerifyRequest_good d q \<Longrightarrow> d < maxNestingDepth \<Longrightarrow>
     VerifyConnectionRequestDigest (VerifyRequest_received q) = VerifyConnectionRequestDigest q"
  by (simp add: VerifyConnectionRequestDigest_def verify_codec.again)

lemma verification_result_received:
  "VerifyRequest_good d q \<Longrightarrow> d < maxNestingDepth \<Longrightarrow>
     ConnectionVerificationResult_Validate r (VerifyRequest_received q) now = ConnectionVerificationResult_Validate r q now"
  by (simp add: ConnectionVerificationResult_Validate_def verification_digest_received)

text \<open>The time left to an implementation under a context with two deadlines.\<close>

lemma two_deadlines:
  assumes "ctx_Err_after (WithTimeout (WithTimeout ctx (SubT a now)) (SubT b now)) out = ok" "inst now < inst a" "inst now < inst b"
  shows "inst now + oc_Elapsed out < inst a" "inst now + oc_Elapsed out < inst b"
proof -
  have le: "inst now < inst t \<Longrightarrow> SubT t now \<le> inst t - inst now" for t by (auto simp: SubT_def)
  have "oc_Elapsed out < SubT a now" "oc_Elapsed out < SubT b now"
    using assms(1) by (auto simp: ctx_Err_after_ok WithTimeout_def split: option.splits)
  then show "inst now + oc_Elapsed out < inst a" "inst now + oc_Elapsed out < inst b"
    using le [OF assms(2)] le [OF assms(3)] by simp_all
qed

text \<open>
  A dispatch of \<open>q\<close>: the implementation is asked what the wire carries of \<open>q\<close>, and what the
  runtime returns is a valid result for \<open>q\<close> before the dispatch expires.
\<close>

theorem dispatched_verification:
  assumes "VerifyRequest_text q = Inr (di_Request d)" "VerifyRequest_good n q" "n < maxNestingDepth"
    and "Dispatch_VerifyConnection d ctx service now = Inr r"
  shows "\<exists>impl c t. cvs_Implementation service = Some impl \<and> oc_Result (impl c (VerifyRequest_received q)) = Inr r \<and>
     inst t = inst now + oc_Elapsed (impl c (VerifyRequest_received q)) \<and> inst t < inst (di_ExpiresAt d) \<and>
     vr_ConnectionID q = di_ConnectionID d \<and> cv_RequestDigest r = di_RequestDigest d \<and>
     ConnectionVerificationResult_Validate r q t = ok"
proof -
  have read: "decodeStrict verify_fields zero_verify (di_Request d) = Some (VerifyRequest_received q)"
    using verify_codec.strict [OF assms(1-3)] .
  let ?ctx = "WithTimeout ctx (SubT (di_ExpiresAt d) now)"
  have d: "Dispatch_Validate d now = ok" "vr_ConnectionID q = di_ConnectionID d" "di_Phase d = OutboundPhaseVerifyConnection"
    "Service_VerifyConnection service ?ctx (VerifyRequest_received q) now = Inr r"
    using assms(4) by (auto simp: Dispatch_VerifyConnection_def read and_then_Inr split: if_splits)
  obtain impl where impl: "cvs_Implementation service = Some impl"
    using d(4) by (auto simp: Service_VerifyConnection_def split: if_splits)
  define c where "c = WithTimeout ?ctx (SubT (AddT (vr_Now q) connectionVerificationAge) now)"
  define out where "out = impl c (VerifyRequest_received q)"
  have s: "oc_Result out = Inr r" "ctx_Err_after c out = ok"
    "ConnectionVerificationResult_Validate r q (AddT now (oc_Elapsed out)) = ok"
    "ValidateConnectionVerificationRequest (VerifyRequest_received q) (cvs_Manifest service) now = ok"
    using d(4) by (auto simp: Service_VerifyConnection_def impl and_then_Inr Let_def c_def out_def
        verification_result_received [OF assms(2,3)] split: if_splits)
  have "inst now + oc_Elapsed out < inst (di_ExpiresAt d)"
    using two_deadlines(1) [OF s(2) [unfolded c_def]] d(1) s(4)
    by (simp add: Dispatch_Validate_ok ConnectionRequest_ok AddT_def connectionVerificationAge_def)
  moreover have "VerifyConnectionRequestDigest q = Inr (di_RequestDigest d)"
    using d(1,3) assms(1) by (simp add: VerifyConnectionRequestDigest_def Dispatch_Validate_ok)
  then have "cv_RequestDigest r = di_RequestDigest d" using s(3) by (simp add: ConnectionResult_ok)
  ultimately show ?thesis using impl s(1,3) d(2)
    by (intro exI [of _ impl] exI [of _ c] exI [of _ "AddT now (oc_Elapsed out)"]) (simp add: out_def AddT_def)
qed

section \<open>Discovery\<close>

lemma settle_id [simp]: "x \<noteq> Some [] \<Longrightarrow> settle (\<lambda>s. s) x = x"
  by (cases x) (auto simp: settle_def)

lemma discovery_received:
  assumes "DiscoveryRequest_good d r" "d < maxNestingDepth" "DiscoveryRequest_Validate r c = ok" "short (dr_Configuration r)"
  shows "DiscoveryRequest_received r = r\<lparr>dr_Configuration := sent (dr_Configuration r)\<rparr>"
    and "decodeParameterJSON (sent (dr_Configuration r)) = decodeParameterJSON (dr_Configuration r)"
    and "json_Valid (sent (dr_Configuration r))"
proof -
  have raw: "raw_good d (dr_Configuration r)" "d \<le> maxNestingDepth" using assms(1,2) by (simp_all add: DiscoveryRequest_good_def)
  have ok: "json_Valid (dr_Configuration r)" "dr_Configuration r \<noteq> []"
    using assms(3) by (auto simp: DiscoveryRequest_Validate_ok decodeParameterJSON_def)
  show "decodeParameterJSON (sent (dr_Configuration r)) = decodeParameterJSON (dr_Configuration r)"
    using raw_decode [OF raw ok(2) assms(4)] .
  show "json_Valid (sent (dr_Configuration r))" using raw_accepted [OF raw ok] .
  have "dr_ResourceIDs r \<noteq> Some []" using assms(3) by (auto simp: DiscoveryRequest_Validate_ok check_exact_ok)
  then show "DiscoveryRequest_received r = r\<lparr>dr_Configuration := sent (dr_Configuration r)\<rparr>"
    by (simp add: DiscoveryRequest_received_def)
qed

lemma received_fields: "dr_Now (r\<lparr>dr_Configuration := x\<rparr>) = dr_Now r" "dr_Query (r\<lparr>dr_Configuration := x\<rparr>) = dr_Query r"
  "dr_Cursor (r\<lparr>dr_Configuration := x\<rparr>) = dr_Cursor r" "dr_Limit (r\<lparr>dr_Configuration := x\<rparr>) = dr_Limit r"
  "dr_ResourceIDs (r\<lparr>dr_Configuration := x\<rparr>) = dr_ResourceIDs r"
  by simp_all

lemma discovery_digest_received:
  assumes "DiscoveryRequest_good d r" "d < maxNestingDepth" "DiscoveryRequest_Validate r c = ok" "short (dr_Configuration r)"
  shows "DiscoveryRequest_Validate (DiscoveryRequest_received r) c = ok"
    and "DiscoveryRequestDigest (DiscoveryRequest_received r) c = DiscoveryRequestDigest r c"
proof -
  note eq = discovery_received [OF assms]
  show v: "DiscoveryRequest_Validate (DiscoveryRequest_received r) c = ok"
    using assms(3,4) eq(2,3) unfolding eq(1) by (simp add: DiscoveryRequest_Validate_ok check_exact_ok short_def)
  show "DiscoveryRequestDigest (DiscoveryRequest_received r) c = DiscoveryRequestDigest r c"
    using v assms(3) eq(2) unfolding eq(1) by (simp add: DiscoveryRequestDigest_def)
qed

text \<open>A received request is read as the sent one by every check of the service and the page.\<close>

lemma page_received:
  assumes "DiscoveryRequest_good d r" "d < maxNestingDepth" "DiscoveryRequest_Validate r c = ok" "short (dr_Configuration r)"
  shows "DiscoveryPage_Validate p (DiscoveryRequest_received r) c now = DiscoveryPage_Validate p r c now"
    and "ValidateAt (DiscoveryRequest_received r) c now = ValidateAt r c now"
proof -
  note eq = discovery_received [OF assms]
  note dg = discovery_digest_received [OF assms]
  show "DiscoveryPage_Validate p (DiscoveryRequest_received r) c now = DiscoveryPage_Validate p r c now"
    unfolding DiscoveryPage_Validate_def dg(2) unfolding eq(1) received_fields ..
  show "ValidateAt (DiscoveryRequest_received r) c now = ValidateAt r c now"
    unfolding ValidateAt_def dg(1) assms(3) unfolding eq(1) received_fields ..
qed

text \<open>Conversely, what the service accepts was acceptable, unless an empty selection was dropped.\<close>

lemma discovery_sent:
  assumes "DiscoveryRequest_good d r" "d < maxNestingDepth" "DiscoveryRequest_Validate (DiscoveryRequest_received r) c = ok"
    and "dr_ResourceIDs r \<noteq> Some []" "length (dr_Configuration r) \<le> 64 * 1024"
  shows "DiscoveryRequest_Validate r c = ok" "short (dr_Configuration r)"
proof -
  have raw: "raw_good d (dr_Configuration r)" "d \<le> maxNestingDepth" using assms(1,2) by (simp_all add: DiscoveryRequest_good_def)
  have eq: "DiscoveryRequest_received r = r\<lparr>dr_Configuration := sent (dr_Configuration r)\<rparr>"
    using assms(4) by (simp add: DiscoveryRequest_received_def)
  have v: "DiscoveryRequest_Validate (r\<lparr>dr_Configuration := sent (dr_Configuration r)\<rparr>) c = ok"
    using assms(3) by (simp add: eq)
  then obtain ms where ms: "decodeParameterJSON (sent (dr_Configuration r)) = Inr (JObject ms)"
    by (auto simp: DiscoveryRequest_Validate_ok)
  have "dr_Configuration r \<noteq> []"
  proof
    assume "dr_Configuration r = []"
    moreover have "parse_json ''null'' = Some JNull" using denotes_parse [OF denotes_null, of maxNestingDepth] by simp
    ultimately show False using ms by (simp add: sent_def decodeParameterJSON_def readParameterValue.simps)
  qed
  note ne = this
  show s: "short (dr_Configuration r)" using v assms(5) by (simp add: short_def DiscoveryRequest_Validate_ok)
  have "json_Valid (dr_Configuration r)" using raw_valid [OF raw ne] by (auto simp: json_Valid_def)
  then show "DiscoveryRequest_Validate r c = ok"
    using v raw_decode [OF raw ne s] assms(5) by (simp add: DiscoveryRequest_Validate_ok check_exact_ok)
qed

lemma age_positive: "ValidateAt q c now = ok \<Longrightarrow> \<exists>d. ac_Discovery c = Some d \<and> inst now < inst (dr_Now q) + seconds (rd_MaximumAgeSeconds d)"
  by (auto simp: ValidateAt_ok)

lemma service_answer:
  assumes "DiscoveryRequest_good n q" "n < maxNestingDepth" "dr_ResourceIDs q \<noteq> Some []" "length (dr_Configuration q) \<le> 64 * 1024"
    and "Service_DiscoverResources service ctx (DiscoveryRequest_received q) now = Inr p"
  obtains impl c a cx where "dsv_Implementation service = Some impl" "discovery_capability service q = Some c"
    "ac_Discovery c = Some a" "cx = WithTimeout ctx (SubT (AddT (dr_Now q) (seconds (rd_MaximumAgeSeconds a))) now)"
    "inst now < inst (dr_Now q) + seconds (rd_MaximumAgeSeconds a)"
    "oc_Result (impl cx (DiscoveryRequest_received q)) = Inr p" "ctx_Err_after cx (impl cx (DiscoveryRequest_received q)) = ok"
    "DiscoveryPage_Validate p q c (AddT now (oc_Elapsed (impl cx (DiscoveryRequest_received q)))) = ok"
proof -
  let ?q = "DiscoveryRequest_received q"
  have fields: "dr_Now ?q = dr_Now q" "dr_CapabilityRef ?q = dr_CapabilityRef q" by (simp_all add: DiscoveryRequest_received_def)
  then have cap: "discovery_capability service ?q = discovery_capability service q" unfolding discovery_capability_def by simp
  obtain impl where impl: "dsv_Implementation service = Some impl"
    using assms(5) by (auto simp: Service_DiscoverResources_def and_then_Inr DiscoveryService_Validate_def split: if_splits)
  have same: "service\<lparr>dsv_Implementation := Some impl\<rparr> = service" using impl by (cases service) simp
  have "discovery_admits service ctx ?q now" using discovery_service.served [of impl service ctx ?q now p] assms(5) by (simp only: same)
  then obtain c where c: "discovery_capability service q = Some c" "ValidateAt ?q c now = ok"
    unfolding discovery_admits_def cap by blast
  obtain a where a: "ac_Discovery c = Some a" "inst now < inst (dr_Now q) + seconds (rd_MaximumAgeSeconds a)"
    using age_positive [OF c(2)] by (auto simp: fields)
  define cx where "cx = WithTimeout ctx (SubT (AddT (dr_Now q) (seconds (rd_MaximumAgeSeconds a))) now)"
  have s: "oc_Result (impl cx ?q) = Inr p" "ctx_Err_after cx (impl cx ?q) = ok"
    "DiscoveryPage_Validate p ?q c (AddT now (oc_Elapsed (impl cx ?q))) = ok"
    using assms(5) by (auto simp: Service_DiscoverResources_def impl cap c a(1) and_then_Inr Let_def cx_def fields split: if_splits)
  have "DiscoveryRequest_Validate ?q c = ok" using c(2) by (simp add: ValidateAt_ok)
  from discovery_sent [OF assms(1,2) this assms(3,4)] have "DiscoveryPage_Validate p q c (AddT now (oc_Elapsed (impl cx ?q))) = ok"
    using s(3) page_received(1) [OF assms(1,2)] by simp
  with impl c(1) a cx_def s(1,2) show ?thesis by (intro that)
qed

theorem dispatched_discovery:
  assumes "DiscoveryRequest_text q = Inr (di_Request d)" "DiscoveryRequest_good n q" "n < maxNestingDepth"
    and "dr_ResourceIDs q \<noteq> Some []" "length (dr_Configuration q) \<le> 64 * 1024"
    and "Dispatch_DiscoverResources d ctx service now = Inr p"
  shows "\<exists>impl cx t. dsv_Implementation service = Some impl \<and> oc_Result (impl cx (DiscoveryRequest_received q)) = Inr p \<and>
     inst t = inst now + oc_Elapsed (impl cx (DiscoveryRequest_received q)) \<and> inst t < inst (di_ExpiresAt d) \<and>
     dr_ConnectionID q = di_ConnectionID d \<and>
     (\<exists>c \<in> set (ma_Actions (dsv_Manifest service)). ac_Ref c = dr_CapabilityRef q \<and> DiscoveryPage_Validate p q c t = ok)"
proof -
  let ?q = "DiscoveryRequest_received q"
  have read: "decodeStrict discovery_fields zero_discovery (di_Request d) = Some ?q"
    using discovery_codec.strict [OF assms(1-3)] .
  let ?ctx = "WithTimeout ctx (SubT (di_ExpiresAt d) now)"
  have d: "Dispatch_Validate d now = ok" "dr_ConnectionID q = di_ConnectionID d"
    "Service_DiscoverResources service ?ctx ?q now = Inr p"
    using assms(6) by (auto simp: Dispatch_DiscoverResources_def read and_then_Inr DiscoveryRequest_received_def split: if_splits)
  obtain impl c a cx where s: "dsv_Implementation service = Some impl" "discovery_capability service q = Some c"
    "ac_Discovery c = Some a" "cx = WithTimeout ?ctx (SubT (AddT (dr_Now q) (seconds (rd_MaximumAgeSeconds a))) now)"
    "inst now < inst (dr_Now q) + seconds (rd_MaximumAgeSeconds a)" "oc_Result (impl cx ?q) = Inr p"
    "ctx_Err_after cx (impl cx ?q) = ok" "DiscoveryPage_Validate p q c (AddT now (oc_Elapsed (impl cx ?q))) = ok"
    by (rule service_answer [OF assms(2-5) d(3)], rule that)
  have "inst now + oc_Elapsed (impl cx ?q) < inst (di_ExpiresAt d)"
    using two_deadlines(1) [OF s(7) [unfolded s(4)]] d(1) s(5) unfolding s(4) [symmetric] by (simp add: Dispatch_Validate_ok AddT_def)
  then have "inst (AddT now (oc_Elapsed (impl cx ?q))) < inst (di_ExpiresAt d)" by (simp add: AddT_def)
  moreover have "inst (AddT now (oc_Elapsed (impl cx ?q))) = inst now + oc_Elapsed (impl cx ?q)" by (simp add: AddT_def)
  moreover have "c \<in> set (ma_Actions (dsv_Manifest service))" "ac_Ref c = dr_CapabilityRef q"
    using discovery_capability_Some [OF s(2)] by simp_all
  ultimately show ?thesis using s(1,6,8) d(2) by blast
qed

section \<open>Authorizations\<close>

text \<open>The allowed values of an authorization stay within the decoder's bound when they are escaped.\<close>

definition short_limit :: "ParameterLimit \<Rightarrow> bool" where
  "short_limit l \<longleftrightarrow> list_all short (items (pl_AllowedValues l))"

definition short_rule :: "AuthorizationRule \<Rightarrow> bool" where
  "short_rule r \<longleftrightarrow> (\<forall>p. ar_ParameterLimits r = Some p \<longrightarrow> list_all (\<lambda>(k, l). short_limit l) (items (pls_Fields p)))"

lemma allowed_received:
  assumes "ParameterLimit_good d l" "d \<le> maxNestingDepth" "short_limit l" "raw \<in> set (items (pl_AllowedValues l))"
    and "\<exists>v. decodeParameterJSON raw = Inr v"
  shows "decodeParameterJSON (sent raw) = decodeParameterJSON raw"
proof -
  obtain e where "e < maxNestingDepth" "raw_good e raw"
    using assms(1,2,4) inside_less [of "\<lambda>d. list_all (raw_good d)" d "items (pl_AllowedValues l)"]
    by (metis ParameterLimit_good_def list.pred_set)
  moreover have "short raw" "raw \<noteq> []" using assms(3-5) by (auto simp: short_limit_def list_all_iff decodeParameterJSON_def)
  ultimately show ?thesis by (simp add: raw_decode)
qed

lemma limit_received:
  assumes "ParameterLimit_good d l" "d \<le> maxNestingDepth" "short_limit l" "check_limit key l = ok"
  shows "check_limit key (ParameterLimit_received l) = ok" "admits (ParameterLimit_received l) v = admits l v"
proof -
  let ?l = "ParameterLimit_received l"
  have each: "\<exists>v. decodeParameterJSON raw = Inr v \<and> parameterType v (pl_Type l) \<and> in_bounds l v"
    if "raw \<in> set (items (pl_AllowedValues l))" for raw using assms(4) that by (auto simp: check_limit_ok)
  then have eq: "decodeParameterJSON (sent raw) = decodeParameterJSON raw"
    if "raw \<in> set (items (pl_AllowedValues l))" for raw using allowed_received [OF assms(1-3) that] that by blast
  have same: "items (pl_AllowedValues ?l) = map sent (items (pl_AllowedValues l))" "pl_Type ?l = pl_Type l"
    "pl_Optional ?l = pl_Optional l" "check_range ?l = check_range l" "in_bounds ?l = in_bounds l"
    by (simp_all add: ParameterLimit_received_def check_range_def in_bounds_def fun_eq_iff split: jval.split)
  have "pl_AllowedValues ?l \<noteq> Some []" by (auto simp: ParameterLimit_received_def settle_def)
  then show "check_limit key ?l = ok" using assms(4) each eq by (auto simp: check_limit_ok same)
  have "list_ex (\<lambda>raw. case decodeParameterJSON raw of Inr allowed \<Rightarrow> parameterEqual v allowed | Inl _ \<Rightarrow> False) (map sent raws) =
      list_ex (\<lambda>raw. case decodeParameterJSON raw of Inr allowed \<Rightarrow> parameterEqual v allowed | Inl _ \<Rightarrow> False) raws"
    if "set raws \<subseteq> set (items (pl_AllowedValues l))" for raws using that eq by (induction raws) auto
  from this [OF subset_refl] show "admits ?l v = admits l v" by (simp add: admits_def allows_value_def same)
qed

lemma limits_received:
  assumes "ParameterLimits_good d p" "d \<le> maxNestingDepth" "list_all (\<lambda>(k, l). short_limit l) (items (pls_Fields p))"
    and "ParameterLimits_Validate p = ok"
  shows "ParameterLimits_Validate (ParameterLimits_received p) = ok"
    and "ParameterLimits_Matches (ParameterLimits_received p) raw = Inr True \<longleftrightarrow> ParameterLimits_Matches p raw = Inr True"
proof -
  obtain es where es: "pls_Fields p = Some es" "length es \<le> 64" "\<forall>(k, l) \<in> set es. check_limit k l = ok"
    using assms(4) by (auto simp: Validate_ok)
  let ?es = "map (\<lambda>(k, l). (k, ParameterLimit_received l)) (sort_key fst es)"
  have received: "pls_Fields (ParameterLimits_received p) = Some ?es" by (simp add: ParameterLimits_received_def es)
  have each: "check_limit k (ParameterLimit_received l) = ok \<and> (\<forall>v. admits (ParameterLimit_received l) v = admits l v)"
    if "(k, l) \<in> set es" for k l
  proof -
    obtain e where e: "e < maxNestingDepth" "list_all (\<lambda>(k, l). ValidString k \<and> inside ParameterLimit_good e l) es"
      using assms(1,2) es(1) inside_less [of "\<lambda>d. list_all (\<lambda>(k, l). ValidString k \<and> inside ParameterLimit_good d l)" d es]
      by (auto simp: ParameterLimits_good_def)
    then have "inside ParameterLimit_good e l" using that by (auto simp: list_all_iff)
    then obtain e' where "e' < maxNestingDepth" "ParameterLimit_good e' l" using e(1) inside_less by (metis less_imp_le)
    moreover have "short_limit l" "check_limit k l = ok" using assms(3) es(1,3) that by (auto simp: list_all_iff)
    ultimately show ?thesis using limit_received by (metis less_imp_le)
  qed
  show v: "ParameterLimits_Validate (ParameterLimits_received p) = ok"
    using each es(2) by (auto simp: Validate_ok received)
  have "permits ?es vals \<longleftrightarrow> permits es vals" for vals
  proof -
    have "fst ` set ?es = fst ` set es" by (force simp: image_image split_def)
    moreover have "(\<forall>(key, l) \<in> set ?es. case map_of vals key of None \<Rightarrow> pl_Optional l | Some v \<Rightarrow> admits l v) \<longleftrightarrow>
        (\<forall>(key, l) \<in> set es. case map_of vals key of None \<Rightarrow> pl_Optional l | Some v \<Rightarrow> admits l v)"
      using each by (auto simp: ParameterLimit_received_def split: option.splits)
    ultimately show ?thesis by (simp add: permits_def)
  qed
  then show "ParameterLimits_Matches (ParameterLimits_received p) raw = Inr True \<longleftrightarrow> ParameterLimits_Matches p raw = Inr True"
    by (simp only: Matches_True v assms(4) received es(1) items_simps simp_thms)
qed

lemma rule_received:
  assumes "AuthorizationRule_good d r" "d \<le> maxNestingDepth" "short_rule r" "rule_ok r"
  shows "rule_ok (AuthorizationRule_received r)"
    and "MatchesAuthorizationRule (AuthorizationRule_received r) p op res c = MatchesAuthorizationRule r p op res c"
    and "usable (AuthorizationRule_received r) c = usable r c"
    and "ar_ParameterLimits r = Some l \<Longrightarrow> ParameterLimits_Matches (ParameterLimits_received l) raw = Inr True \<longleftrightarrow>
      ParameterLimits_Matches l raw = Inr True"
proof -
  have some: "ar_Capabilities r \<noteq> Some []" "ar_ResourceIDs r \<noteq> Some []"
    using assms(4) by (auto simp: rule_ok_def ValidateCapabilitySelection_ok ValidateResourceSelection_ok)
  have same: "AuthorizationRule_received r = r\<lparr>ar_ParameterLimits := map_option ParameterLimits_received (ar_ParameterLimits r)\<rparr>"
    by (simp add: AuthorizationRule_received_def some)
  show "MatchesAuthorizationRule (AuthorizationRule_received r) p op res c = MatchesAuthorizationRule r p op res c"
    "usable (AuthorizationRule_received r) c = usable r c"
    by (simp_all add: same MatchesAuthorizationRule_def usable_def)
  have limits: "ParameterLimits_Validate (ParameterLimits_received l) = ok \<and>
      (ParameterLimits_Matches (ParameterLimits_received l) raw = Inr True \<longleftrightarrow> ParameterLimits_Matches l raw = Inr True)"
    if l: "ar_ParameterLimits r = Some l" for l
  proof -
    obtain e where "e < maxNestingDepth" "ParameterLimits_good e l"
      using assms(1,2) l inside_less [of ParameterLimits_good d l] by (auto simp: AuthorizationRule_good_def)
    moreover have "list_all (\<lambda>(k, l). short_limit l) (items (pls_Fields l))" "ParameterLimits_Validate l = ok"
      using assms(3,4) l by (auto simp: short_rule_def rule_ok_def)
    ultimately show ?thesis using limits_received by (metis less_imp_le)
  qed
  then show "ar_ParameterLimits r = Some l \<Longrightarrow> ParameterLimits_Matches (ParameterLimits_received l) raw = Inr True \<longleftrightarrow>
      ParameterLimits_Matches l raw = Inr True" by blast
  show "rule_ok (AuthorizationRule_received r)" using assms(4) limits by (auto simp: same rule_ok_def)
qed

lemma each_rule_good:
  assumes "Authorization_good d a" "d \<le> maxNestingDepth" "r \<in> set (au_Rules a)"
  obtains e where "e \<le> maxNestingDepth" "AuthorizationRule_good e r"
proof -
  obtain e where e: "e < maxNestingDepth" "list_all (inside AuthorizationRule_good e) (au_Rules a)"
    using assms(1,2) inside_less [of "\<lambda>d. list_all (inside AuthorizationRule_good d)" d "au_Rules a"]
    by (auto simp: Authorization_good_def)
  then have "inside AuthorizationRule_good e r" using assms(3) by (simp add: list_all_iff)
  then show ?thesis using e(1) inside_less that by (metis less_imp_le)
qed

text \<open>The bounds of what can be sent are number literals, so no check panics.\<close>

lemma good_literal: "AuthorizationRule_good d r \<Longrightarrow> d \<le> maxNestingDepth \<Longrightarrow> literal_rule r \<and> literal_rule (AuthorizationRule_received r)"
proof -
  assume r: "AuthorizationRule_good d r" "d \<le> maxNestingDepth"
  have "literal_limits p \<and> literal_limits (ParameterLimits_received p)" if p: "ar_ParameterLimits r = Some p" for p
  proof (cases "pls_Fields p")
    case (Some es)
    obtain e where e: "e < maxNestingDepth" "ParameterLimits_good e p"
      using r p inside_less [of ParameterLimits_good d p] by (auto simp: AuthorizationRule_good_def)
    then obtain e' where e': "list_all (\<lambda>(k, l). ValidString k \<and> inside ParameterLimit_good e' l) es"
      using Some inside_less [of "\<lambda>d. list_all (\<lambda>(k, l). ValidString k \<and> inside ParameterLimit_good d l)" e es]
      by (auto simp: ParameterLimits_good_def)
    have "literal_bounds l \<and> literal_bounds (ParameterLimit_received l)" if "(k, l) \<in> set es" for k l
    proof -
      have "inside ParameterLimit_good e' l" using e' that by (auto simp: list_all_iff)
      then show ?thesis by (cases e') (auto simp: inside_def ParameterLimit_good_def literal_bounds_def ParameterLimit_received_def)
    qed
    then show ?thesis using Some by (auto simp: literal_limits_def ParameterLimits_received_def)
  qed (simp add: literal_limits_def ParameterLimits_received_def)
  then show ?thesis by (auto simp: literal_rule_def AuthorizationRule_received_def)
qed

lemma Within_decides: "\<forall>r \<in> set rs. literal_rule r \<Longrightarrow> \<exists>b. ParametersWithinCapabilityRules rs p op res c raw = Inr b"
  using Within_no_error [of rs p op res c raw] Within_avoids [of rs p op res c raw]
  by (cases "ParametersWithinCapabilityRules rs p op res c raw"; cases "projl (ParametersWithinCapabilityRules rs p op res c raw)")
    (auto simp: avoids_def)

theorem authorization_received:
  assumes "Authorization_good d a" "d < maxNestingDepth" "list_all short_rule (au_Rules a)" "Authorization_Validate a = ok"
  shows "Authorization_Validate (Authorization_received a) = ok"
    and "AuthorizationDigest (Authorization_received a) = AuthorizationDigest a"
    and "ParametersWithinCapabilityRules (au_Rules (Authorization_received a)) p op res c raw =
      ParametersWithinCapabilityRules (au_Rules a) p op res c raw"
proof -
  have rule: "rule_ok (AuthorizationRule_received r) \<and>
      MatchesAuthorizationRule (AuthorizationRule_received r) p op res c = MatchesAuthorizationRule r p op res c \<and>
      usable (AuthorizationRule_received r) c = usable r c \<and>
      (\<forall>l. ar_ParameterLimits r = Some l \<longrightarrow> (ParameterLimits_Matches (ParameterLimits_received l) raw = Inr True \<longleftrightarrow>
         ParameterLimits_Matches l raw = Inr True))" if r: "r \<in> set (au_Rules a)" for r
  proof -
    obtain e where "e \<le> maxNestingDepth" "AuthorizationRule_good e r"
      using assms(1,2) r by (auto elim: each_rule_good)
    moreover have "short_rule r" "rule_ok r" using assms(3,4) r by (auto simp: list_all_iff Authorization_Validate_ok)
    ultimately show ?thesis using rule_received by blast
  qed
  have "au_ResourceIDs a \<noteq> Some []" using assms(4) by (auto simp: Authorization_Validate_ok ValidateResourceSelection_ok)
  then have same: "Authorization_received a = a\<lparr>au_Rules := map AuthorizationRule_received (au_Rules a)\<rparr>"
    by (simp add: Authorization_received_def)
  have ids: "map ar_ID (map AuthorizationRule_received rs) = map ar_ID rs" for rs by (simp add: AuthorizationRule_received_def)
  show v: "Authorization_Validate (Authorization_received a) = ok"
    using assms(4) rule by (simp add: Authorization_Validate_ok same ids del: map_map)
  show "AuthorizationDigest (Authorization_received a) = AuthorizationDigest a"
    by (simp add: AuthorizationDigest_def v assms(4) authorization_codec.again [OF assms(1,2)])
  have "ParametersWithinCapabilityRules (map AuthorizationRule_received (au_Rules a)) p op res c raw = Inr True \<longleftrightarrow>
      ParametersWithinCapabilityRules (au_Rules a) p op res c raw = Inr True"
    unfolding Within_True using rule by (auto simp: AuthorizationRule_received_def)
  moreover have "\<forall>r \<in> set (au_Rules a). literal_rule r \<and> literal_rule (AuthorizationRule_received r)"
    using each_rule_good [OF assms(1) less_imp_le [OF assms(2)]] good_literal by metis
  then have "\<exists>b. ParametersWithinCapabilityRules (au_Rules a) p op res c raw = Inr b"
    "\<exists>b. ParametersWithinCapabilityRules (map AuthorizationRule_received (au_Rules a)) p op res c raw = Inr b"
    by (auto intro!: Within_decides)
  ultimately show "ParametersWithinCapabilityRules (au_Rules (Authorization_received a)) p op res c raw =
      ParametersWithinCapabilityRules (au_Rules a) p op res c raw" by (auto simp: same)
qed

end
