(* ===== verification/Exchange.thy ===== *)
theory Exchange
  imports Nonces Agreement
begin

text \<open>
  Client and handler together: what \<open>HTTPClient.call\<close> returns when its request reaches the
  handler of the same release unchanged and the answer comes back unchanged.
\<close>

section \<open>A network that delivers\<close>

definition network :: "HTTPHandler \<Rightarrow> go_context \<Rightarrow> clock \<Rightarrow> nonces \<Rightarrow> transport" where
  "network h ctx clock seen url r = Inr (Some (fst (serve h ctx clock seen r)))"

text \<open>
  The client is configured for the handler's release and secret, and its endpoint is such that
  appending a path of the protocol gives a URL with that path.
\<close>

definition paired :: "HTTPClient \<Rightarrow> HTTPHandler \<Rightarrow> string \<Rightarrow> bool" where
  "paired c h path \<longleftrightarrow> hc_SharedSecret c = hh_SharedSecret h \<and> hc_ManifestDigest c = hh_ManifestDigest h \<and>
     hc_Release c = hh_Release h \<and> \<not> blank (hc_SharedSecret c) \<and> digestPattern (hc_ManifestDigest c) \<and>
     \<not> blank (hc_Release c) \<and> map_option request_path (url_Parse (TrimRight (hc_Endpoint c) (CHR ''/'') @ path)) = Some path"

text \<open>A time as the wire carries it (whole seconds) is within two minutes of the receiver's clock.\<close>

definition in_window :: "gotime \<Rightarrow> gotime \<Rightarrow> bool" where
  "in_window stamp now \<longleftrightarrow> plain_time (UTC stamp) \<and> inst now - 2 * Minute \<le> inst stamp - nanosecond stamp \<and>
     inst stamp - nanosecond stamp \<le> inst now + 2 * Minute"

lemma VerifySignature_sent:
  assumes "in_window stamp now" "\<not> blank nonce"
  shows "VerifySignature secret (FormatRFC3339 (UTC stamp)) nonce
     (Signature secret (FormatRFC3339 (UTC stamp)) nonce body) body (UTC now) = ok"
proof -
  have "ParseRFC3339 (FormatRFC3339 (UTC stamp)) = Some ((UTC stamp)\<lparr>inst := inst stamp - nanosecond stamp\<rparr>)"
    using ParseRFC3339_Format [of "UTC stamp"] assms(1) by (simp add: in_window_def UTC_def nanosecond_def)
  then show ?thesis using assms by (simp add: VerifySignature_ok in_window_def UTC_def)
qed

lemma signed_request_authentic:
  assumes "paired c h path" "in_window (cclock 0) (clock 0)" "\<not> blank nonce" "length body \<le> maxProtocolBody"
  shows "authentic h (clock 0) (signed_request c nonce (cclock 0) path body) body"
  using assms VerifySignature_sent [of "cclock 0" "clock 0" nonce "hc_SharedSecret c" body]
  by (simp add: authentic_def signed_request_def paired_def Let_def)

text \<open>
  The conditions of one exchange: an unused nonce, clocks within two minutes of each other for
  the request and for the response made at \<open>t\<close>.
\<close>

definition connected :: "HTTPClient \<Rightarrow> HTTPHandler \<Rightarrow> string \<Rightarrow> clock \<Rightarrow> clock \<Rightarrow> gotime \<Rightarrow> string \<Rightarrow> nonces \<Rightarrow> bool" where
  "connected c h path cclock clock t nonce seen \<longleftrightarrow> paired c h path \<and> in_window (cclock 0) (clock 0) \<and>
     in_window t (cclock 1) \<and> \<not> blank nonce \<and> purge (AddT (UTC (clock 1)) (- 3 * Minute)) seen nonce = None"

lemma signed_request_authenticated:
  assumes "connected c h path cclock clock t nonce seen" "length body \<le> maxProtocolBody"
  shows "\<exists>seen'. authenticate h clock seen (signed_request c nonce (cclock 0) path body) = (Some (body, nonce), seen')"
proof -
  have "hq_Nonce (signed_request c nonce (cclock 0) path body) = nonce" by (simp add: signed_request_def Let_def)
  moreover have "authentic h (clock 0) (signed_request c nonce (cclock 0) path body) body"
    using assms by (intro signed_request_authentic) (simp_all add: connected_def)
  ultimately show ?thesis using assms(1) by (simp add: authenticate_Some connected_def)
qed

text \<open>The response is accepted by the client that made the request.\<close>

lemma response_accepted:
  assumes "connected c h path cclock clock t nonce seen" "length body \<le> maxProtocolBody" "decode body = Some v"
  shows "accept_response c nonce (UTC (cclock 1)) decode (Some (respond h t nonce (Inr body))) = Inr v"
  using assms VerifySignature_sent [of t "cclock 1" nonce "hc_SharedSecret c" body]
  by (simp add: accept_response_Inr respond_def paired_def connected_def Let_def)

text \<open>What the wire allows: the message can be written, within the limit on bodies.\<close>

definition deliverable :: "string result \<Rightarrow> bool" where
  "deliverable m \<longleftrightarrow> (\<exists>body. m = Inr body \<and> length body \<le> maxProtocolBody)"

theorem exchange:
  assumes request: "struct_codec qtext qflds qzero qgood qreceived" "deliverable (qtext q)" "qgood d q"
    and response: "struct_codec rtext rflds rzero rgood rreceived" "deliverable (rtext r)" "rgood d r"
    and d: "d < maxNestingDepth" and con: "connected c h path cclock clock t nonce seen"
    and handler: "\<And>m seen' body answer. hq_Path m = path \<Longrightarrow> authenticate h clock seen m = (Some (body, nonce), seen') \<Longrightarrow>
      decodeStrict qflds qzero body = Some (qreceived q) \<Longrightarrow> rtext r = Inr answer \<Longrightarrow>
      fst (serve h ctx clock seen m) = respond h t nonce (Inr answer)"
  shows "call c (Inr nonce) cclock (network h ctx clock seen) path (qtext q) (decodeStrict rflds rzero) = Inr (rreceived r)"
proof -
  obtain body where body: "qtext q = Inr body" "length body \<le> maxProtocolBody"
    using request(2) by (auto simp: deliverable_def)
  obtain answer where answer: "rtext r = Inr answer" "length answer \<le> maxProtocolBody"
    using response(2) by (auto simp: deliverable_def)
  have read: "decodeStrict qflds qzero body = Some (qreceived q)" "decodeStrict rflds rzero answer = Some (rreceived r)"
    using struct_codec.strict [OF request(1) body(1) request(3) d] struct_codec.strict [OF response(1) answer(1) response(3) d]
    by simp_all
  let ?m = "signed_request c nonce (cclock 0) path body"
  obtain seen' where "authenticate h clock seen ?m = (Some (body, nonce), seen')"
    using signed_request_authenticated [OF con body(2)] by blast
  moreover have "hq_Path ?m = path" by (simp add: signed_request_def Let_def)
  ultimately have "fst (serve h ctx clock seen ?m) = respond h t nonce (Inr answer)"
    using handler [of ?m] read(1) answer(1) by simp
  moreover have "paired c h path" using con by (simp add: connected_def)
  ultimately show ?thesis using response_accepted [OF con answer(2), of "decodeStrict rflds rzero"] read(2) body(1)
    by (auto simp: call_Inr network_def paired_def)
qed

section \<open>Misplaced paths\<close>

text \<open>
  A client whose endpoint ends in a question mark or a number sign: the path of the protocol
  becomes the query or the fragment, and the request is for the root, which is no route.
\<close>

lemma protocol_path_plain:
  assumes "path \<in> protocol_paths"
  shows "\<forall>c \<in> set path. plain_char c \<or> c = CHR ''/''"
proof -
  have "list_all (list_all (\<lambda>c. plain_char c \<or> c = CHR ''/'')) [''/v1/prepare'', ''/v1/verify'', ''/v1/issue'',
      ''/v1/resources/discover'', ''/v1/actions/execute'', ''/v1/actions/verify'']" by code_simp
  then show ?thesis using assms unfolding list_all_iff protocol_paths_def by (rule bspec)
qed

lemma marked_endpoint_parsed:
  assumes "list_all plain_char host" "mark \<in> {''?'', ''#''}" "path \<in> protocol_paths"
  shows "\<exists>u. url_Parse (TrimRight (''https://'' @ host @ ''/'' @ mark) (CHR ''/'') @ path) = Some u \<and>
    url_Host u = host \<and> url_Path u = ''/'' \<and> url_RawQuery u @ url_Fragment u = path"
proof -
  have "TrimRight (''https://'' @ host @ ''/'' @ mark) (CHR ''/'') = ''https://'' @ host @ ''/'' @ mark"
    using assms(2) by (auto simp: TrimRight_def)
  then show ?thesis using assms(2) url_Parse_marked [OF assms(1) protocol_path_plain [OF assms(3)]] by auto
qed

lemma network_root: "network h ctx clock seen target (signed_request c nonce now ''/'' body) = Inr (Some (http_Error ''404 page not found'' 404))"
proof -
  have "''/'' \<notin> routes h" using routes_protocol [of h] by (auto simp: protocol_paths_def)
  then show ?thesis by (simp add: network_def serve_not_found signed_request_def Let_def)
qed

lemma accept_response_404:
  "accept_response c nonce now decode (Some (http_Error ''404 page not found'' 404)) = fail ''external adapter returned 404''"
proof -
  have "Itoa 404 = ''404''" by code_simp
  then show ?thesis by (simp add: accept_response_def http_Error_def maxProtocolBody_def Let_def)
qed

lemma marked_endpoint_call:
  assumes "list_all plain_char host" "mark \<in> {''?'', ''#''}" "path \<in> protocol_paths"
    and "hc_Endpoint c = ''https://'' @ host @ ''/'' @ mark"
    and "\<not> blank (hc_SharedSecret c)" "digestPattern (hc_ManifestDigest c)" "\<not> blank (hc_Release c)"
  shows "call c (Inr nonce) cclock (network h ctx clock seen) path (Inr body) decode = fail ''external adapter returned 404''"
proof -
  obtain u where "url_Parse (TrimRight (hc_Endpoint c) (CHR ''/'') @ path) = Some u" "request_path u = ''/''"
    using marked_endpoint_parsed [OF assms(1-3)] assms(4) by (auto simp: request_path_def)
  then show ?thesis using assms(5-7)
    by (simp add: call_def and_then_def network_root accept_response_404 Let_def)
qed

section \<open>The endpoints\<close>

text \<open>
  Each endpoint in turn: the implementation is asked exactly what the wire carries of the
  request, and the client returns what the wire carries of its answer.
\<close>

lemmas prepare_exchange = exchange [OF prepare_codec.struct_codec_axioms _ _ connection_codec.struct_codec_axioms]
lemmas verify_exchange = exchange [OF verify_codec.struct_codec_axioms _ _ verification_codec.struct_codec_axioms]
lemmas issue_exchange = exchange [OF issue_codec.struct_codec_axioms _ _ material_codec.struct_codec_axioms]
lemmas execute_exchange = exchange [OF execute_codec.struct_codec_axioms _ _ execution_codec.struct_codec_axioms]
lemmas verify_action_exchange = exchange [OF verify_action_codec.struct_codec_axioms _ _ action_verification_codec.struct_codec_axioms]
lemmas discovery_exchange = exchange [OF discovery_codec.struct_codec_axioms _ _ page_codec.struct_codec_axioms]

theorem exchange_prepare:
  assumes "connected c h ''/v1/prepare'' cclock clock (clock 3) nonce seen"
    and "deliverable (PrepareRequest_text q)" "PrepareRequest_good d q" "d < maxNestingDepth" "pr_Release q = hh_Release h"
    and "hh_Implementation h = Some impl" "bi_Prepare impl (q\<lparr>pr_Input := sent (pr_Input q)\<rparr>) = Inr r"
    and "deliverable (Connection_text r)" "Connection_good d r"
  shows "Client_Prepare c (Inr nonce) cclock (network h ctx clock seen) q =
     Inr (r\<lparr>cn_Configuration := sent (cn_Configuration r), cn_Onboarding := sent (cn_Onboarding r)\<rparr>)"
  unfolding Client_Prepare_def
  by (rule prepare_exchange [OF assms(2,3,8,9,4,1)]) (simp add: serve_def handlePrepare_def assms(5-7))

theorem exchange_verify:
  assumes "connected c h ''/v1/verify'' cclock clock (clock 3) nonce seen"
    and "deliverable (VerifyRequest_text q)" "VerifyRequest_good d q" "d < maxNestingDepth" "vr_Release q = hh_Release h"
    and "hh_Implementation h = Some impl" "bi_Verify impl (q\<lparr>vr_Configuration := sent (vr_Configuration q)\<rparr>) = Inr r"
    and "deliverable (Verification_text r)" "Verification_good d r"
  shows "Client_Verify c (Inr nonce) cclock (network h ctx clock seen) q = Inr r"
  unfolding Client_Verify_def
  by (rule verify_exchange [OF assms(2,3,8,9,4,1)]) (simp add: serve_def handleVerify_def assms(5-7))

theorem exchange_issue:
  assumes "connected c h ''/v1/issue'' cclock clock (clock 3) nonce seen"
    and "deliverable (IssueRequest_text q)" "IssueRequest_good d q" "d < maxNestingDepth" "is_Release q = hh_Release h"
    and "hh_Implementation h = Some impl" "bi_Issue impl (IssueRequest_received q) = Inr r"
    and "deliverable (Material_text r)" "Material_good d r"
  shows "Client_Issue c (Inr nonce) cclock (network h ctx clock seen) q = Inr (r\<lparr>mt_Payload := sent (mt_Payload r)\<rparr>)"
  unfolding Client_Issue_def
  by (rule issue_exchange [OF assms(2,3,8,9,4,1)]) (use assms(5-7) in \<open>simp add: serve_def handleIssue_def IssueRequest_received_def\<close>)

theorem exchange_execute:
  assumes "connected c h ''/v1/actions/execute'' cclock clock (clock 3) nonce seen"
    and "deliverable (ExecuteActionRequest_text q)" "ExecuteActionRequest_good d q" "d < maxNestingDepth" "ex_Release q = hh_Release h"
    and "hh_Actions h = Some actions"
    and "ai_ExecuteAction actions (q\<lparr>ex_Configuration := sent (ex_Configuration q), ex_Parameters := sent (ex_Parameters q)\<rparr>) = Inr r"
    and "ActionExecution_Validate r = ok" "deliverable (ActionExecution_text r)" "ActionExecution_good d r"
  shows "Client_ExecuteAction c (Inr nonce) cclock (network h ctx clock seen) q = Inr (r\<lparr>ae_Output := sent (ae_Output r)\<rparr>)"
  unfolding Client_ExecuteAction_def
  by (rule execute_exchange [OF assms(2,3,9,10,4,1)]) (simp add: serve_def handleExecuteAction_def assms(5-8))

theorem exchange_verify_action:
  assumes "connected c h ''/v1/actions/verify'' cclock clock (clock 3) nonce seen"
    and "deliverable (VerifyActionRequest_text q)" "VerifyActionRequest_good d q" "d < maxNestingDepth" "va_Release q = hh_Release h"
    and "hh_Actions h = Some actions"
    and "ai_VerifyAction actions (q\<lparr>va_Configuration := sent (va_Configuration q), va_Parameters := sent (va_Parameters q),
       va_Execution := (va_Execution q)\<lparr>ae_Output := sent (ae_Output (va_Execution q))\<rparr>\<rparr>) = Inr r"
    and "ActionVerification_Validate r = ok" "deliverable (ActionVerification_text r)" "ActionVerification_good d r"
  shows "Client_VerifyAction c (Inr nonce) cclock (network h ctx clock seen) q = Inr (r\<lparr>av_Evidence := sent (av_Evidence r)\<rparr>)"
  unfolding Client_VerifyAction_def
  by (rule verify_action_exchange [OF assms(2,3,9,10,4,1)]) (simp add: serve_def handleVerifyAction_def assms(5-8))

text \<open>
  Discovery validates on both sides, the service against the received request and the client
  against the request it sent; the verdicts differ only in the clock. The client's clock is
  read before and after the call.
\<close>

theorem exchange_discovery:
  assumes "connected c h ''/v1/resources/discover'' (\<lambda>n. cclock (Suc n)) clock (clock 4) nonce seen"
    and "deliverable (DiscoveryRequest_text q)" "DiscoveryRequest_good d q" "d < maxNestingDepth" "short (dr_Configuration q)"
    and "dr_Release q = hc_Release c" "dr_ManifestDigest q = hc_ManifestDigest c" "ValidateAt q capability (cclock 0) = ok"
    and "hh_Discovery h = Some service" "discovery_capability service q = Some capability"
    and "Service_DiscoverResources service ctx (DiscoveryRequest_received q) (UTC (clock 3)) = Inr p"
    and "deliverable (DiscoveryPage_text p)" "DiscoveryPage_good d p"
    and "ac_Discovery capability = Some a" "\<not> check_stale (cclock 3) (dp_ObservedAt p) (dr_Now q) (rd_MaximumAgeSeconds a)"
  shows "Client_DiscoverResources c (Inr nonce) cclock (network h ctx clock seen) q capability = Inr p"
proof -
  let ?q = "DiscoveryRequest_received q"
  have reply: "call c (Inr nonce) (\<lambda>n. cclock (Suc n)) (network h ctx clock seen) ''/v1/resources/discover'' (DiscoveryRequest_text q)
      (decodeStrict page_fields zero_page) = Inr p"
    by (rule discovery_exchange [OF assms(2,3,12,13,4,1)]) (simp add: serve_def handleDiscoverResources_def assms(9,11))
  have "DiscoveryRequest_Validate q capability = ok" using assms(8) by (simp add: ValidateAt_ok)
  then have "dr_ResourceIDs q \<noteq> Some []" "length (dr_Configuration q) \<le> 64 * 1024"
    by (auto simp: DiscoveryRequest_Validate_ok check_exact_ok)
  then obtain t where "DiscoveryPage_Validate p q capability t = ok"
    using service_answer [OF assms(3,4) _ _ assms(11)] assms(10) by (metis option.inject)
  then have "DiscoveryPage_Validate p q capability (cclock 3) = ok"
    using assms(14,15) by (auto simp: DiscoveryPage_Validate_ok)
  then show ?thesis using assms(6-8) reply by (simp add: Client_DiscoverResources_def)
qed

end
