(* ===== verification/Exactness.thy ===== *)
theory Exactness
  imports Structs
begin

text \<open>
  Exactness of the canonical text: two decoded values have the same canonical text exactly
  when \<open>parameterEqual\<close> says they are equal. Strings that the scanner returns are valid
  UTF-8, so nothing is lost when they are written.
\<close>

section \<open>Scanned strings are valid\<close>

lemma valid_append: "rune_len w = length w \<Longrightarrow> w \<noteq> [] \<Longrightarrow> ValidString s \<Longrightarrow> ValidString (w @ s)"
proof (cases w)
  case (Cons c u)
  assume w: "rune_len w = length w" "w \<noteq> []" "ValidString s"
  then have "rune_len (w @ s) = length w" using rune_len_take [of w s] by simp
  then show ?thesis using w Cons by (simp add: Let_def)
qed simp

lemma byte_between [simp]: "n < 256 \<Longrightarrow> between lo hi (byte n) \<longleftrightarrow> lo \<le> n \<and> n \<le> hi"
  by (simp add: between_def)

lemma encode_rune_len:
  assumes "r < 0x110000" "\<not> surrogate r"
  shows "rune_len (encode_rune r) = length (encode_rune r)"
proof -
  consider (1) "r < 0x80" | (2) "0x80 \<le> r" "r < 0x800" | (3) "0x800 \<le> r" "r < 0x10000" | (4) "0x10000 \<le> r"
    by linarith
  then show ?thesis
  proof cases
    case 2
    then have d: "2 \<le> r div 64" "r div 64 < 32" by (simp_all add: less_mult_imp_div_less div_le_mono [of "128" r 64, simplified])
    then show ?thesis using 2 by (simp add: encode_rune_def rune_len_def rune_size_def second_ok_def Let_def)
  next
    case 3
    define a where "a = r div 4096"
    define b where "b = r div 64 mod 64"
    have a: "a < 16" using 3 by (simp add: a_def less_mult_imp_div_less)
    have r: "r div 64 = 64 * a + b" by (simp add: a_def b_def div_mult2_eq [of r 64 64, simplified])
    have b: "b < 64" by (simp add: b_def)
    have "32 \<le> b" if "a = 0"
      using that r div_le_mono [of 2048 r 64] 3 by simp
    moreover have "b < 32" if "a = 13"
    proof (rule ccontr)
      assume "\<not> b < 32"
      then have "864 \<le> r div 64" "r div 64 < 896" using that r b by simp_all
      then have "55296 \<le> r" "r < 57344"
        using less_eq_div_iff_mult_less_eq [of 64 864 r] div_less_iff_less_mult [of 64 r 896] by simp_all
      then show False using assms(2) by (simp add: surrogate_def)
    qed
    moreover have "r mod 64 \<le> 63" using mod_less_divisor [of 64 r] by linarith
    ultimately show ?thesis using 3 a b
      by (auto simp: encode_rune_def rune_len_def rune_size_def second_ok_def cont_def Let_def
          a_def [symmetric] b_def [symmetric])
  next
    case 4
    define a where "a = r div 262144"
    define b where "b = r div 4096 mod 64"
    have r: "r div 4096 = 64 * a + b" by (simp add: a_def b_def div_mult2_eq [of r 4096 64, simplified])
    have b: "b < 64" by (simp add: b_def)
    have q: "16 \<le> r div 4096" "r div 4096 < 272"
      using 4 assms(1) div_le_mono [of 65536 r 4096] by (simp_all add: less_mult_imp_div_less)
    have "a < 5" "a = 0 \<Longrightarrow> 16 \<le> b" "a = 4 \<Longrightarrow> b < 16" using q r b by simp_all
    moreover have "r mod 64 \<le> 63" "r div 64 mod 64 \<le> 63"
      using mod_less_divisor [of 64 r] mod_less_divisor [of 64 "r div 64"] by linarith+
    ultimately show ?thesis using 4 b
      by (auto simp: encode_rune_def rune_len_def rune_size_def second_ok_def cont_def Let_def
          a_def [symmetric] b_def [symmetric])
  qed (simp add: encode_rune_def)
qed

lemma encode_rune_nonempty [simp]: "encode_rune r \<noteq> []"
  by (simp add: encode_rune_def)

lemma hex_val_less: "hex_val c = Some n \<Longrightarrow> n < 16"
  by (auto simp: hex_val_def is_digit_def between_def split: if_splits)

lemma hex4_less: "hex4 s = Some n \<Longrightarrow> n < 0x10000"
  by (auto simp: hex4_def split: list.splits Option.bind_splits dest!: hex_val_less)

lemma scan_string_valid: "scan_string s = Some (v, r) \<Longrightarrow> ValidString v"
proof (induction s arbitrary: v rule: scan_string.induct)
  case 1
  then show ?case by simp
next
  case (2 c cs)
  have repl: "rune_len replacement = length replacement" "replacement \<noteq> []"
    unfolding replacement_def by (rule encode_rune_len) (simp_all add: surrogate_def)
  consider (quote) "c = CHR 0x22" | (escape) "c = CHR 0x5C" | (plain) "c \<noteq> CHR 0x22" "c \<noteq> CHR 0x5C" by blast
  then show ?case
  proof cases
    case quote
    then show ?thesis using "2.prems" by simp
  next
    case escape
    then obtain e es where cs: "cs = e # es" using "2.prems" by (cases cs) auto
    show ?thesis
    proof (cases "e = CHR ''u''")
      case False
      then obtain b u where b: "simple_escape e = Some b" "scan_string es = Some (u, r)" "v = b # u"
        using "2.prems" escape cs by (auto simp: prepend_Some split: option.splits)
      then have "ValidString u" using "2.IH"(4) escape cs False by simp
      moreover have "code b < 0x80"
        using b(1) by (auto simp: simple_escape_def split: if_splits)
      ultimately show ?thesis using b(3) by simp
    next
      case True
      then obtain x where x: "hex4 es = Some x" using "2.prems" escape cs by (auto split: option.splits)
      show ?thesis
      proof (cases "surrogate x")
        case False
        then obtain u where u: "scan_string (drop 4 es) = Some (u, r)" "v = encode_rune x @ u"
          using "2.prems" escape cs True x by (auto simp: prepend_Some)
        then have "ValidString u" using "2.IH"(3) escape cs True x False by simp
        then show ?thesis using u(2) valid_append encode_rune_len [of x] hex4_less [OF x] False by simp
      next
        case sur: True
        show ?thesis
        proof (cases "surrogate_pair x (drop 4 es)")
          case None
          then obtain u where u: "scan_string (drop 4 es) = Some (u, r)" "v = replacement @ u"
            using "2.prems" escape cs True x sur by (auto simp: prepend_Some)
          then have "ValidString u" using "2.IH"(1) escape cs True x sur None by simp
          then show ?thesis using u(2) valid_append repl by simp
        next
          case (Some q)
          then obtain u where u: "scan_string (drop 10 es) = Some (u, r)" "v = encode_rune q @ u"
            using "2.prems" escape cs True x sur by (auto simp: prepend_Some)
          then have "ValidString u" using "2.IH"(2) escape cs True x sur Some by simp
          moreover have "q < 0x110000" "\<not> surrogate q"
            using Some sur by (auto simp: surrogate_pair_def surrogate_def split: if_splits list.splits option.splits)
          ultimately show ?thesis using u(2) valid_append encode_rune_len [of q] by simp
        qed
      qed
    qed
  next
    case plain
    define n where "n = rune_len (c # cs)"
    have ge: "\<not> code c < 0x20" using "2.prems" plain by auto
    show ?thesis
    proof (cases "n = 0")
      case True
      then obtain u where u: "scan_string cs = Some (u, r)" "v = replacement @ u"
        using "2.prems" plain ge by (auto simp: n_def prepend_Some)
      then have "ValidString u" using "2.IH"(5) plain ge True n_def by simp
      then show ?thesis using u(2) valid_append repl by simp
    next
      case False
      then obtain u where u: "scan_string (drop (n - 1) cs) = Some (u, r)" "v = take n (c # cs) @ u"
        using "2.prems" plain ge by (auto simp: n_def prepend_Some Let_def)
      then have "ValidString u" using "2.IH"(6) plain ge False n_def by simp
      moreover have "rune_len (take n (c # cs)) = length (take n (c # cs))"
        using rune_len_take [of "c # cs" "[]"] rune_len_length [of "c # cs"] False by (simp add: n_def)
      ultimately show ?thesis using u(2) valid_append False by simp
    qed
  qed
qed

text \<open>All strings of a tree.\<close>

fun texts_valid :: "jval \<Rightarrow> bool" where
  "texts_valid (JString s) = ValidString s"
| "texts_valid (JArray vs) = list_all texts_valid vs"
| "texts_valid (JObject ms) = list_all (\<lambda>(k, v). ValidString k \<and> texts_valid v) ms"
| "texts_valid v = True"

lemma scan_name_valid: "scan_name s = Some (k, r) \<Longrightarrow> ValidString k"
  by (auto simp: scan_name_def split: Option.bind_splits list.splits if_splits dest: scan_string_valid)

lemma scan_scalar_valid: "scan_scalar s = Some (v, r) \<Longrightarrow> texts_valid v"
  by (auto simp: scan_scalar_def scan_word_def split: list.splits if_splits dest: scan_string_valid)

lemma scan_valid:
  "scan_value d s = Some (v, r) \<Longrightarrow> texts_valid v"
  "scan_members d s = Some (ms, r) \<Longrightarrow> list_all (\<lambda>(k, v). ValidString k \<and> texts_valid v) ms"
  "scan_elements d s = Some (es, r) \<Longrightarrow> list_all texts_valid es"
proof (induction d s and d s and d s arbitrary: v r and ms r and es r
    rule: scan_value_scan_members_scan_elements.induct)
  case (1 d s)
  then obtain c t where c: "skip_ws s = c # t" by (cases "skip_ws s") (auto simp: scan_value.simps [of d s])
  show ?case
    using "1.prems" "1.IH"(1) [OF c] "1.IH"(2) [OF c]
    by (auto simp: scan_value.simps [of d s] c split: if_splits dest: scan_scalar_valid)
next
  case (2 d s)
  then obtain k s1 w s2 where n: "scan_name s = Some (k, s1)" and w: "scan_value d s1 = Some (w, s2)"
    by (auto simp: scan_members.simps [of d s] split: option.splits)
  from "2.prems" n w obtain c t where c: "skip_ws s2 = c # t"
    by (cases "skip_ws s2") (auto simp: scan_members.simps [of d s])
  show ?case
    using "2.prems" "2.IH"(1) [OF n refl w] "2.IH"(2) [OF n refl w refl c] scan_name_valid [OF n]
    by (auto simp: scan_members.simps [of d s] n w c split: if_splits)
next
  case (3 d s)
  then obtain w s2 where w: "scan_value d s = Some (w, s2)"
    by (auto simp: scan_elements.simps [of d s] split: option.splits)
  from "3.prems" w obtain c t where c: "skip_ws s2 = c # t"
    by (cases "skip_ws s2") (auto simp: scan_elements.simps [of d s])
  show ?case
    using "3.prems" "3.IH"(1) [OF w] "3.IH"(2) [OF w refl c]
    by (auto simp: scan_elements.simps [of d s] w c split: if_splits)
qed

lemma read_texts:
  "readParameterValue t d = Inr v \<Longrightarrow> texts_valid t \<Longrightarrow> texts_valid v"
  "read_object ms obj d = Inr obj' \<Longrightarrow> texts_valid (JObject ms) \<Longrightarrow> texts_valid (JObject obj) \<Longrightarrow> texts_valid (JObject obj')"
  "read_array ts d = Inr vs \<Longrightarrow> texts_valid (JArray ts) \<Longrightarrow> texts_valid (JArray vs)"
proof (induction t d and ms obj d and ts d arbitrary: v and obj' and vs
    rule: readParameterValue_read_object_read_array.induct)
  case (1 t d)
  show ?case using "1.prems" "1.IH"
    by (cases t) (auto simp: readParameterValue.simps [of _ d] result_iff read_number_iff split: if_splits)
qed (auto simp: result_iff)

lemma decode_texts: "decodeParameterJSON raw = Inr v \<Longrightarrow> texts_valid v"
  using read_texts(1) scan_valid(1)
  by (fastforce simp: decodeParameterJSON_def parse_json_def split: if_splits option.splits)

section \<open>Canonical values\<close>

abbreviation canon :: "jval \<Rightarrow> jval" where
  "canon v \<equiv> sort_keys (canonicalDiscoveryNumbers v)"

lemma canon_wf: "param_value v \<Longrightarrow> texts_valid v \<Longrightarrow> wf_json (canon v)"
  unfolding wf_sort_keys
  by (induction v rule: canonicalDiscoveryNumbers.induct) (fastforce simp: list_all_iff canonical_is_number)+

text \<open>There are no doubles, so reading a canonical value back changes nothing.\<close>

lemma scanned_lits: "scanned v \<Longrightarrow> lits v = v"
proof (induction v rule: lits.induct)
  case (3 ms)
  then have "(case m of (k, v) \<Rightarrow> (k, lits v)) = m" if "m \<in> set ms" for m
    using that by (cases m) (auto simp: list_all_iff)
  then show ?case by (simp add: map_idI)
qed (auto simp: list_all_iff map_idI)

lemma canon_scanned: "param_value v \<Longrightarrow> scanned (canon v)"
proof (induction v rule: canonicalDiscoveryNumbers.induct)
  case (2 ms)
  then show ?case by (auto simp: list_all_iff)
qed (auto simp: list_all_iff)

lemma sort_key_same:
  fixes xs ys :: "(string \<times> 'b) list"
  assumes "distinct (map fst xs)" "distinct (map fst ys)"
  shows "sort_key fst xs = sort_key fst ys \<longleftrightarrow> set xs = set ys"
proof
  assume "sort_key fst xs = sort_key fst ys"
  then show "set xs = set ys" by (metis set_sort)
next
  assume eq: "set xs = set ys"
  have "distinct xs" "distinct ys" using assms by (simp_all add: distinct_map)
  with eq have "mset xs = mset ys" by (simp add: set_eq_iff_mset_eq_distinct)
  moreover have "inj_on fst (set xs)" using assms(1) by (simp add: distinct_map)
  ultimately show "sort_key fst xs = sort_key fst ys"
    using sort_key_inj_key_eq [of xs "sort_key fst ys" fst] by simp
qed

lemma entries_same:
  assumes "distinct (map fst xs)" "distinct (map fst ys)"
  shows "(\<lambda>(k, v). (k, f v)) ` set xs = (\<lambda>(k, v). (k, f v)) ` set ys \<longleftrightarrow>
     length xs = length ys \<and> (\<forall>(k, v) \<in> set xs. \<exists>w. map_of ys k = Some w \<and> f v = f w)"
  (is "?L \<longleftrightarrow> ?R")
proof -
  have len: "length zs = card ((\<lambda>(k, v). (k, f v)) ` set zs)" if "distinct (map fst zs)" for zs
  proof -
    have "inj_on (\<lambda>(k, v). (k, f v)) (set zs)"
      using that by (auto simp: inj_on_def) (metis eq_key_imp_eq_value)
    moreover have "length zs = card (set zs)" using that by (simp add: distinct_map distinct_card)
    ultimately show ?thesis by (simp add: card_image)
  qed
  show ?thesis
  proof
    assume eq: ?L
    have "\<exists>w. map_of ys k = Some w \<and> f v = f w" if "(k, v) \<in> set xs" for k v
    proof -
      have "(k, f v) \<in> (\<lambda>(k, v). (k, f v)) ` set ys" using that eq by force
      then obtain w where "(k, w) \<in> set ys" "f v = f w" by auto
      then show ?thesis using assms(2) by auto
    qed
    moreover have "length xs = length ys" using eq len [OF assms(1)] len [OF assms(2)] by simp
    ultimately show ?R by auto
  next
    assume r: ?R
    have "(\<lambda>(k, v). (k, f v)) ` set xs \<subseteq> (\<lambda>(k, v). (k, f v)) ` set ys"
    proof
      fix y assume "y \<in> (\<lambda>(k, v). (k, f v)) ` set xs"
      then obtain k v where v: "(k, v) \<in> set xs" "y = (k, f v)" by auto
      then obtain w where "map_of ys k = Some w" "f v = f w" using r by auto
      then have "(k, w) \<in> set ys" "y = (k, f w)" using v(2) by (auto dest: map_of_SomeD)
      then show "y \<in> (\<lambda>(k, v). (k, f v)) ` set ys" by (metis (mono_tags, lifting) case_prod_conv image_eqI)
    qed
    moreover have "card ((\<lambda>(k, v). (k, f v)) ` set xs) = card ((\<lambda>(k, v). (k, f v)) ` set ys)"
      using r len [OF assms(1)] len [OF assms(2)] by simp
    ultimately show ?L by (simp add: card_subset_eq)
  qed
qed

lemma parameterEqual_plain:
  "parameterEqual JNull w \<longleftrightarrow> JNull = w" "parameterEqual (JBool b) w \<longleftrightarrow> JBool b = w"
  "parameterEqual (JFloat f) w \<longleftrightarrow> JFloat f = w" "parameterEqual (JString s) w \<longleftrightarrow> JString s = w"
  by (simp_all add: parameterEqual.simps [of JNull] parameterEqual.simps [of "JBool b"]
      parameterEqual.simps [of "JFloat f"] parameterEqual.simps [of "JString s"])

lemma canon_plain:
  "JNull = canon w \<longleftrightarrow> JNull = w" "JBool b = canon w \<longleftrightarrow> JBool b = w"
  "JFloat f = canon w \<longleftrightarrow> JFloat f = w" "JString s = canon w \<longleftrightarrow> JString s = w"
  by (cases w; simp)+

lemma canon_same: "param_value v \<Longrightarrow> param_value w \<Longrightarrow> canon v = canon w \<longleftrightarrow> parameterEqual v w"
proof (induction v arbitrary: w rule: canonicalDiscoveryNumbers.induct)
  case (1 l)
  show ?case
  proof (cases w)
    case (JNumber l')
    then have "bounded_number l" "bounded_number l'" using 1 by simp_all
    then show ?thesis
      using canonical_number_unique [of l l'] bounded_number_SetString [of l] bounded_number_SetString [of l']
      by (auto simp: JNumber parameterEqual.simps compareNumber_def split: if_splits)
  qed (simp_all add: parameterEqual.simps)
next
  case (2 ms)
  show ?case
  proof (cases w)
    case (JObject ns)
    have d: "distinct (map fst ms)" "distinct (map fst ns)" using 2 JObject by simp_all
    have fst: "map fst (map (\<lambda>(k, v). (k, canon v)) zs) = map fst zs" for zs by (induction zs) auto
    have fd: "distinct (map fst (map (\<lambda>(k, v). (k, canon v)) ms))" "distinct (map fst (map (\<lambda>(k, v). (k, canon v)) ns))"
      using d by (simp_all only: fst)
    have c: "canon (JObject zs) = JObject (sort_key fst (map (\<lambda>(k, v). (k, canon v)) zs))" for zs
      by (simp add: comp_def case_prod_unfold)
    have "canon (JObject ms) = canon w \<longleftrightarrow>
        (\<lambda>(k, v). (k, canon v)) ` set ms = (\<lambda>(k, v). (k, canon v)) ` set ns"
      unfolding JObject c using sort_key_same [OF fd] by simp
    also have "\<dots> \<longleftrightarrow> length ms = length ns \<and>
        (\<forall>(k, v) \<in> set ms. \<exists>u. map_of ns k = Some u \<and> canon v = canon u)"
      by (rule entries_same [OF d])
    also have "\<dots> \<longleftrightarrow> length ms = length ns \<and>
        (\<forall>(k, v) \<in> set ms. \<exists>u. map_of ns k = Some u \<and> parameterEqual v u)"
    proof -
      have "canon v = canon u \<longleftrightarrow> parameterEqual v u" if "(k, v) \<in> set ms" "map_of ns k = Some u" for k v u
        using that 2 JObject by (fastforce simp: list_all_iff dest: map_of_SomeD)
      then show ?thesis by blast
    qed
    also have "\<dots> \<longleftrightarrow> parameterEqual (JObject ms) w"
      by (subst parameterEqual.simps) (auto simp: JObject list_all_iff split: option.splits)
    finally show ?thesis .
  qed (simp_all add: parameterEqual.simps)
next
  case (3 vs)
  show ?case
  proof (cases w)
    case (JArray ws)
    have e: "canon v = canon u \<longleftrightarrow> parameterEqual v u" if "v \<in> set vs" "u \<in> set ws" for v u
      using that 3 JArray by (auto simp: list_all_iff)
    have "canon (JArray vs) = canon w \<longleftrightarrow> length vs = length ws \<and> (\<forall>i < length vs. canon (vs ! i) = canon (ws ! i))"
      by (auto simp: JArray list_eq_iff_nth_eq)
    also have "\<dots> \<longleftrightarrow> length vs = length ws \<and> (\<forall>i < length vs. parameterEqual (vs ! i) (ws ! i))"
      using e by (auto simp: nth_mem)
    also have "\<dots> \<longleftrightarrow> parameterEqual (JArray vs) w"
      by (simp add: parameterEqual.simps [of "JArray vs"] JArray list_all_length) auto
    finally show ?thesis .
  qed (simp_all add: parameterEqual.simps)
qed (simp_all add: parameterEqual_plain canon_plain)

text \<open>The texts are equal exactly when the values are.\<close>

theorem canonical_text_same:
  assumes "decodeParameterJSON r = Inr v" "decodeParameterJSON s = Inr w"
  shows "Marshal_any (canonicalDiscoveryNumbers v) = Marshal_any (canonicalDiscoveryNumbers w) \<longleftrightarrow> parameterEqual v w"
proof -
  have p: "param_value v" "param_value w" "texts_valid v" "texts_valid w"
    using assms decode_sound decode_texts by blast+
  have "json_text (canon v) = json_text (canon w) \<longleftrightarrow> canon v = canon w"
    using json_text_inject [OF canon_wf canon_wf, OF p(1,3,2,4)] scanned_lits canon_scanned p(1,2) by metis
  then show ?thesis using canon_same p(1,2) by (simp add: Marshal_any_def)
qed

end
