(* ===== verification/Bindings.thy ===== *)
theory Bindings
  imports Agreement Exactness
begin

text \<open>
  What the digests of authorizations and of discovery requests bind: two messages with the
  same digest are read as the same message, unless their digested texts collide.
\<close>

section \<open>Authorizations\<close>

definition authorization_encoding :: "Authorization \<Rightarrow> string \<Rightarrow> bool" where
  "authorization_encoding a e \<longleftrightarrow> Authorization_text a = Inr e"

definition sendable :: "Authorization \<Rightarrow> bool" where
  "sendable a \<longleftrightarrow> (\<exists>d < maxNestingDepth. Authorization_good d a)"

lemma object_text_trimmed: "TrimSpace (object_text ms) = object_text ms"
  by (intro TrimSpace_solid) (simp_all add: object_text_def solid_def between_def)

interpretation authorization_binding: digest_binding AuthorizationDigest authorization_encoding
  "\<lambda>a b. Authorization_received a = Authorization_received b" sendable
proof unfold_locales
  fix a d
  assume "AuthorizationDigest a = Inr d"
  then obtain e where e: "Authorization_text a = Inr e" "d = sha_digest (TrimSpace e)"
    by (auto simp: AuthorizationDigest_def and_then_Inr)
  moreover have "TrimSpace e = e" using e(1) by (auto simp: Authorization_text_def and_then_Inr object_text_trimmed)
  ultimately show "\<exists>e. authorization_encoding a e \<and> d = sha_digest e" by (auto simp: authorization_encoding_def)
next
  fix a b e
  assume "authorization_encoding a e" "authorization_encoding b e" "sendable a" "sendable b"
  then show "Authorization_received a = Authorization_received b"
    using authorization_codec.bytes_bind unfolding authorization_encoding_def sendable_def by blast
qed

section \<open>Discovery requests\<close>

lemma levels_le: "v \<in> set vs \<Longrightarrow> Suc (levels v) \<le> levels (JArray vs)"
  by (induction vs) auto

lemma levels_member_le: "(k, v) \<in> set ms \<Longrightarrow> Suc (levels v) \<le> levels (JObject ms)"
  by (induction ms) auto

lemma canon_nest: "nest (canon v) \<le> Suc (levels v)"
proof (induction v rule: canonicalDiscoveryNumbers.induct)
  case (2 ms)
  then show ?case using levels_member_le [of _ _ ms] by (auto simp: image_image split_def intro!: Max.boundedI) (meson le_trans)
next
  case (3 vs)
  then show ?case using levels_le [of _ vs] by (auto simp: image_image intro!: Max.boundedI) (meson le_trans)
qed simp_all

lemma canonical_configuration:
  assumes "decodeParameterJSON raw = Inr v"
  shows "raw_good 17 (Marshal_any (canonicalDiscoveryNumbers v))"
    and "parse_json (Marshal_any (canonicalDiscoveryNumbers v)) = Some (canon v)"
    and "Marshal_any (canonicalDiscoveryNumbers v) \<noteq> []"
proof -
  have p: "param_value v" "texts_valid v" "levels v \<le> 16" using assms decode_sound decode_texts by blast+
  have "denotes 17 (json_text (canon v)) (canon v)"
    using denotes_json_text [OF canon_wf [OF p(1,2)], of 17] canon_nest [of v] p(3) scanned_lits [OF canon_scanned [OF p(1)]] by simp
  then have d: "denotes 17 (Marshal_any (canonicalDiscoveryNumbers v)) (canon v)" by (simp add: Marshal_any_def)
  then show "Marshal_any (canonicalDiscoveryNumbers v) \<noteq> []" by (simp add: denotes_def starts_def)
  then show "raw_good 17 (Marshal_any (canonicalDiscoveryNumbers v))"
    using denotes_reads [OF d] by (auto simp: raw_good_def sent_value_def)
  show "parse_json (Marshal_any (canonicalDiscoveryNumbers v)) = Some (canon v)"
    using denotes_parse [OF d] by (simp add: maxNestingDepth_def)
qed

text \<open>A validated request is well formed text in all its fields.\<close>

lemma validated_strings:
  assumes "DiscoveryRequest_Validate r c = ok" "whole_minutes (dr_Now r)" "raw_good 17 raw"
  shows "DiscoveryRequest_good 17 (r\<lparr>dr_Configuration := raw\<rparr>)"
proof -
  have valid: "discoveryText s n \<Longrightarrow> ValidString s" for s n by (simp add: discoveryText_def)
  have c: "ActionCapability_Validate c = ok" "ActionCapabilityDigest c = Inr (dr_CapabilityDigest r)"
    using assms(1) digest_capability_ok by (auto simp: DiscoveryRequest_Validate_ok)
  have "digestPattern (dr_CapabilityDigest r)" using capability_binding.digest_shape [OF c(2)] .
  moreover have "identityPattern (ac_Ref c)" using c(1) by (simp add: ActionCapability_Validate_ok)
  moreover obtain a where "ac_Discovery c = Some a" "rd_MaximumPageSize a \<le> 200"
    using c(1) assms(1) by (auto simp: DiscoveryRequest_Validate_ok ActionCapability_Validate_ok ResourceDiscovery_Validate_ok)
  moreover have "list_all ValidString (items (dr_ResourceIDs r))"
    using assms(1) valid by (cases "dr_ResourceIDs r") (auto simp: DiscoveryRequest_Validate_ok check_exact_ok list_all_iff)
  moreover have "ValidString ResourceDiscoveryProtocol" by (simp add: ResourceDiscoveryProtocol_def ValidString_ascii)
  moreover have "dr_Query r = [] \<or> ValidString (dr_Query r)" "dr_Cursor r = [] \<or> ValidString (dr_Cursor r)"
    using assms(1) valid by (auto simp: DiscoveryRequest_Validate_ok)
  ultimately show ?thesis using assms valid digestPattern_valid identityPattern_solid solid_list_valid
    by (auto simp: DiscoveryRequest_good_def DiscoveryRequest_Validate_ok)
qed

definition discovery_encoding :: "DiscoveryRequest \<Rightarrow> string \<Rightarrow> bool" where
  "discovery_encoding r e \<longleftrightarrow> (\<exists>v. decodeParameterJSON (dr_Configuration r) = Inr v \<and>
     DiscoveryRequest_text (r\<lparr>dr_Configuration := Marshal_any (canonicalDiscoveryNumbers v)\<rparr>) = Inr e)"

text \<open>The requests agree in every field, and their configurations as parameter values.\<close>

definition same_discovery :: "DiscoveryRequest \<Rightarrow> DiscoveryRequest \<Rightarrow> bool" where
  "same_discovery r s \<longleftrightarrow> r\<lparr>dr_Configuration := []\<rparr> = s\<lparr>dr_Configuration := []\<rparr> \<and>
     (\<exists>v w. decodeParameterJSON (dr_Configuration r) = Inr v \<and> decodeParameterJSON (dr_Configuration s) = Inr w \<and> parameterEqual v w)"

interpretation discovery_binding: digest_binding "\<lambda>r. DiscoveryRequestDigest r c" discovery_encoding same_discovery
  "\<lambda>r. DiscoveryRequest_Validate r c = ok \<and> whole_minutes (dr_Now r)" for c
proof unfold_locales
  fix r d
  assume "DiscoveryRequestDigest r c = Inr d"
  then show "\<exists>e. discovery_encoding r e \<and> d = sha_digest e"
    by (auto simp: DiscoveryRequestDigest_def and_then_Inr discovery_encoding_def)
next
  fix r s e
  assume e: "discovery_encoding r e" "discovery_encoding s e"
    and ok: "DiscoveryRequest_Validate r c = ok \<and> whole_minutes (dr_Now r)" "DiscoveryRequest_Validate s c = ok \<and> whole_minutes (dr_Now s)"
  obtain v w where v: "decodeParameterJSON (dr_Configuration r) = Inr v" "decodeParameterJSON (dr_Configuration s) = Inr w"
    and t: "DiscoveryRequest_text (r\<lparr>dr_Configuration := Marshal_any (canonicalDiscoveryNumbers v)\<rparr>) = Inr e"
      "DiscoveryRequest_text (s\<lparr>dr_Configuration := Marshal_any (canonicalDiscoveryNumbers w)\<rparr>) = Inr e"
    using e by (auto simp: discovery_encoding_def)
  note cfg = canonical_configuration [OF v(1)] canonical_configuration [OF v(2)]
  have eq: "DiscoveryRequest_received (r\<lparr>dr_Configuration := Marshal_any (canonicalDiscoveryNumbers v)\<rparr>) =
      DiscoveryRequest_received (s\<lparr>dr_Configuration := Marshal_any (canonicalDiscoveryNumbers w)\<rparr>)"
    using ok cfg by (intro discovery_codec.bytes_bind [OF t, of 17 17] validated_strings [of _ c]) (simp_all add: maxNestingDepth_def)
  have ids: "dr_ResourceIDs r \<noteq> Some []" "dr_ResourceIDs s \<noteq> Some []"
    using ok by (auto simp: DiscoveryRequest_Validate_ok check_exact_ok)
  have "sent (Marshal_any (canonicalDiscoveryNumbers v)) = sent (Marshal_any (canonicalDiscoveryNumbers w))"
    using arg_cong [OF eq, of dr_Configuration] by (simp add: DiscoveryRequest_received_def)
  moreover have "parse_json (sent (Marshal_any (canonicalDiscoveryNumbers x))) = Some (canon x)"
    if "decodeParameterJSON raw = Inr x" for raw x
    using raw_parse [OF canonical_configuration(1) [OF that]] canonical_configuration(2,3) [OF that]
    by (simp add: maxNestingDepth_def)
  ultimately have "canon v = canon w" using v by (metis option.inject)
  then have "parameterEqual v w" using canon_same decode_sound v by blast
  moreover have "r\<lparr>dr_Configuration := []\<rparr> = s\<lparr>dr_Configuration := []\<rparr>"
    using arg_cong [OF eq, of "\<lambda>q. q\<lparr>dr_Configuration := []\<rparr>"] ids by (simp add: DiscoveryRequest_received_def)
  ultimately show "same_discovery r s" using v by (auto simp: same_discovery_def)
qed

end
