(* ===== verification/Scenarios.thy ===== *)
theory Scenarios
  imports Examples Exchange Bindings
begin

text \<open>
  The concrete values of \<open>Examples\<close> sent over the wire: they survive it, their texts are short
  enough to be sent, and a client and a handler with one secret can exchange them.
\<close>

section \<open>How long texts are\<close>

lemma length_quote: "length (quote s) \<le> 6 * length s + 2"
proof -
  have "length (quote_body s) \<le> 6 * length s"
  proof (induction s rule: quote_body.induct)
    case (2 c cs)
    define n where "n = rune_len (c # cs)"
    have multi: "length (rune_escape (take n (c # cs)) @ quote_body (drop (n - 1) cs)) \<le> 6 * length (c # cs)" if "\<not> code c < 0x80" "n \<noteq> 0"
    proof -
      have "n \<ge> 2" "n \<le> Suc (length cs)"
        using rune_len_multi [of c cs] rune_len_length [of "c # cs"] that by (simp_all add: n_def)
      moreover have "length (rune_escape (take n (c # cs))) \<le> 6 * n" using \<open>n \<ge> 2\<close> by (auto simp: rune_escape_def)
      moreover have "length (quote_body (drop (n - 1) cs)) \<le> 6 * (length cs - (n - 1))"
        using "2.IH"(3) [OF that(1) n_def] that(2) by simp
      ultimately show ?thesis by simp
    qed
    have "length (ascii_escape c) \<le> 6" by (simp add: ascii_escape_def)
    then show ?case using 2 multi by (auto simp: n_def Let_def)
  qed simp
  then show ?thesis by (simp add: quote_def)
qed

lemma quote_within: "6 * length s + 2 \<le> n \<Longrightarrow> length (quote s) \<le> n"
  using length_quote le_trans by blast

lemma join_within: "list_all (\<lambda>t. length t \<le> n) ts \<Longrightarrow> length (join ts) \<le> length ts * (n + 1)"
  by (induction ts rule: join.induct) auto

lemma array_within: "list_all (\<lambda>t. length t \<le> n) ts \<Longrightarrow> length ts * (n + 1) + 2 \<le> m \<Longrightarrow> length (array_text ts) \<le> m"
  using join_within [of n ts] by (simp add: array_text_def)

lemma object_within:
  "list_all (\<lambda>(k, t). length k \<le> 32 \<and> length t \<le> n) kts \<Longrightarrow> length kts * (n + 196) + 2 \<le> m \<Longrightarrow> length (object_text kts) \<le> m"
proof -
  assume a: "list_all (\<lambda>(k, t). length k \<le> 32 \<and> length t \<le> n) kts" "length kts * (n + 196) + 2 \<le> m"
  have "length (member_text (k, t)) \<le> n + 195" if "length k \<le> 32" "length t \<le> n" for k t
    using length_quote [of k] that by (simp add: member_text_def)
  then have "list_all (\<lambda>t. length t \<le> n + 195) (map member_text kts)" using a(1) by (auto simp: list_all_iff)
  then show ?thesis using join_within [of "n + 195" "map member_text kts"] a(2) by (simp add: object_text_def add.commute)
qed

lemma digest_within: "digestPattern s \<Longrightarrow> length s = 71"
  by (auto simp: digestPattern_def HasPrefix_iff)

lemma struct_within:
  assumes "list_all (\<lambda>(k, r). length k \<le> 32 \<and> (\<exists>t. r = Inr t \<and> length t \<le> n)) ms" "length ms * (n + 196) + 2 \<le> m"
  shows "\<exists>t. struct_text ms = Inr t \<and> length t \<le> m"
proof -
  define kts where "kts = map (\<lambda>(k, r). (k, projr r)) ms"
  have kts: "list_all2 (\<lambda>m kt. fst kt = fst m \<and> snd m = Inr (snd kt)) ms kts"
    using assms(1) unfolding kts_def by (induction ms) auto
  have "list_all (\<lambda>(k, t). length k \<le> 32 \<and> length t \<le> n) kts" using kts assms(1)
    by (induction rule: list_all2_induct) auto
  from object_within [OF this, of m] show ?thesis
    using kts assms(2) by (auto simp: struct_text_Inr list_all2_lengthD intro!: exI [of _ "object_text kts"])
qed

section \<open>Values that survive the wire\<close>

lemma ascii_text [simp]: "list_all (\<lambda>c. code c < 0x80) s \<Longrightarrow> ValidString s"
  by (rule ValidString_ascii)

lemma ex_raw_good: "raw_good (Suc d) ''{}''" "raw_good (Suc d) ex_parameters" "raw_good d ''5''" "raw_good d ''6e0''"
  by (auto simp: raw_good_def sent_value_def reads_def ex_parameters_def json_eval)

declare compact.simps [simp del]

lemma ex_sent: "sent ''{}'' = ''{}''" "sent ex_parameters = ex_parameters" "sent ''5'' = ''5''" "sent ''6e0'' = ''6e0''"
  by (simp_all add: sent_def ex_parameters_def compact_open compact_close compact_copied copied_def compact_token is_ws_def)

lemma ex_digest_valid [simp]: "ValidString ex_digest" "ValidString ex_release" "ValidString ex_search_digest" "ValidString ex_action_digest"
  using capability_binding.digest_shape [OF ex_search_digest] by (simp_all add: digestPattern_valid)

lemma ex_minutes [simp]: "whole_minutes ex_now" "whole_minutes (ex_later s)"
  by (simp_all add: whole_minutes_def ex_now_def ex_later_def AddT_def)

lemma ex_limit_good: "ParameterLimit_good (Suc d) ex_limit"
proof -
  have "is_number ''1''" "is_number ''10''" using SetString_is_number ex_values by blast+
  then show ?thesis by (simp add: ParameterLimit_good_def ex_limit_def ex_raw_good)
qed

lemma ex_rule_good: "AuthorizationRule_good (5 + d) ex_rule"
  by (simp add: AuthorizationRule_good_def ex_rule_def ParameterLimits_good_def ex_limits_def ex_limit_good
      CapabilitySelector_good_def ex_selector_def eval_nat_numeral)

lemma ex_authorization_good: "Authorization_good (7 + d) ex_authorization"
  using ex_rule_good [of d] by (simp add: Authorization_good_def ex_authorization_def eval_nat_numeral)

lemma ex_issue_good: "IssueRequest_good (8 + d) ex_issue"
  using ex_authorization_good [of d]
  by (simp add: IssueRequest_good_def ex_issue_def ex_raw_good Subject_good_def ex_subject_def CredentialLifetime_good_def
      CredentialLifetimeProtocol_def eval_nat_numeral)

lemma ex_material_good: "Material_good (Suc d) ex_material"
  by (simp add: Material_good_def ex_material_def ex_raw_good)

lemma ex_execute_good: "ExecuteActionRequest_good (Suc d) ex_execute"
  by (simp add: ExecuteActionRequest_good_def ex_execute_def ex_raw_good Subject_good_def ex_subject_def
      ActionAuthority_good_def ex_authority_def)

lemma ex_exact_good: "DiscoveryRequest_good (Suc d) ex_exact"
  by (simp add: DiscoveryRequest_good_def ex_exact_def ex_raw_good ResourceDiscoveryProtocol_def)

lemma ex_page_good: "DiscoveryPage_good (3 + d) ex_page"
proof -
  have "ValidString ex_exact_digest" using discovery_binding.digest_shape [OF ex_exact_digest] digestPattern_valid by blast
  then show ?thesis
    by (simp add: DiscoveryPage_good_def ex_page_def ResourceDiscoveryProtocol_def DiscoveredResource_good_def eval_nat_numeral)
qed

lemma ex_short: "list_all short_rule [ex_rule]" "short ''{}''"
  by (simp_all add: short_rule_def ex_rule_def ex_limits_def short_limit_def ex_limit_def short_def ex_sent)

section \<open>Messages that can be sent\<close>

definition fits :: "nat \<Rightarrow> string result \<Rightarrow> bool" where
  "fits n r \<longleftrightarrow> (\<exists>t. r = Inr t \<and> length t \<le> n)"

lemma fits_simps [simp]: "fits n (Inr t) \<longleftrightarrow> length t \<le> n"
  by (simp add: fits_def)

lemma fits_more: "fits m r \<Longrightarrow> m \<le> n \<Longrightarrow> fits n r"
  by (auto simp: fits_def)

lemma fits_struct:
  "list_all (\<lambda>(k, r). length k \<le> 32 \<and> fits n r) ms \<Longrightarrow> length ms * (n + 196) + 2 \<le> m \<Longrightarrow> fits m (struct_text ms)"
  using struct_within [of n ms m] by (simp add: fits_def)

lemma deliverable_fits: "deliverable r \<longleftrightarrow> fits maxProtocolBody r"
  by (auto simp: deliverable_def fits_def)

lemma ex_digest_length [simp]: "length ex_digest = 71" "length ex_release = 71" "length ex_search_digest = 71" "length ex_action_digest = 71"
  "length ex_exact_digest = 71"
  using capability_binding.digest_shape [OF ex_search_digest] discovery_binding.digest_shape [OF ex_exact_digest]
  by (simp_all add: digest_within)

lemma ex_times [simp]: "30 \<le> n \<Longrightarrow> fits n (time_json ex_now)" "30 \<le> n \<Longrightarrow> fits n (time_json (ex_later 50))"
  "30 \<le> n \<Longrightarrow> fits n (time_json (ex_later 60))"
proof -
  have "time_text (ex_later 50) = Some ''2024-01-01T00:00:50Z''" "time_text (ex_later 60) = Some ''2024-01-01T00:01:00Z''"
    by (simp add: ex_later_def AddT_def ex_now_def time_eval ex_date, code_simp)+
  then have "fits 30 (time_json ex_now)" "fits 30 (time_json (ex_later 50))" "fits 30 (time_json (ex_later 60))"
    using ex_now_text by (simp_all add: time_json_def quote_def ascii_escape_def)
  then show "30 \<le> n \<Longrightarrow> fits n (time_json ex_now)" "30 \<le> n \<Longrightarrow> fits n (time_json (ex_later 50))"
    "30 \<le> n \<Longrightarrow> fits n (time_json (ex_later 60))" using fits_more by blast+
qed

lemma ex_raws [simp]: "30 \<le> n \<Longrightarrow> fits n (raw_text ''{}'')" "30 \<le> n \<Longrightarrow> fits n (raw_text ex_parameters)"
  using ex_sent ex_jsons by (simp_all add: raw_text_def sent_def ex_parameters_def)

lemma ex_subject_fits: "fits 3000 (Subject_text ex_subject)"
  unfolding Subject_text_def by (rule fits_struct [of 60]) (simp_all add: ex_subject_def quote_within)

lemma ex_authorization_fits: "fits 69000 (Authorization_text ex_authorization)"
proof -
  have j: "json_Valid ''5''" "json_Valid ''6e0''" by (simp_all add: json_Valid_def json_eval)
  have n: "is_number ''1''" "is_number ''10''" using SetString_is_number ex_values by blast+
  have "\<exists>t. ParameterLimit_text ex_limit = Inr t \<and> length t \<le> 1000"
    using ex_sent j n by (simp add: ParameterLimit_text_def ex_limit_def raw_text_def sent_def bound_member_def number_text_def omit_def
        object_within [of 50] array_within [of 20] quote_within)
  then have "\<exists>t. ParameterLimits_text ex_limits = Inr t \<and> length t \<le> 1400"
    by (auto simp: ParameterLimits_text_def ex_limits_def object_within [of 1200] object_within [of 1000])
  then have "\<exists>t. AuthorizationRule_text ex_rule = Inr t \<and> length t \<le> 9600"
    by (auto simp: AuthorizationRule_text_def ex_rule_def omit_def CapabilitySelector_text_def ex_selector_def strings_text_def
        object_within [of 1400] array_within [of 1300] object_within [of 430] quote_within)
  then show ?thesis
    by (auto simp: fits_def Authorization_text_def ex_authorization_def omit_def strings_text_def
        object_within [of 9610] array_within [of 9600] array_within [of 100] quote_within)
qed

lemma ex_issue_sent: "deliverable (IssueRequest_text ex_issue)"
proof -
  have "fits 3000 (CredentialLifetime_text \<lparr> cl_Protocol = CredentialLifetimeProtocol, cl_TaskExpiresAt = ex_later 50 \<rparr>)"
    unfolding CredentialLifetime_text_def
    by (rule fits_struct [of 400]) (simp_all add: CredentialLifetimeProtocol_def quote_within)
  then show ?thesis
    unfolding deliverable_fits IssueRequest_text_def maxProtocolBody_def using ex_subject_fits ex_authorization_fits
    by (intro fits_struct [of 69000]) (simp_all add: ex_issue_def quote_within fits_more)
qed

lemma ex_material_sent: "deliverable (Material_text ex_material)"
  unfolding deliverable_fits Material_text_def maxProtocolBody_def
  by (rule fits_struct [of 500]) (simp_all add: ex_material_def quote_within)

lemma ex_execute_sent: "deliverable (ExecuteActionRequest_text ex_execute)"
proof -
  have "fits 4000 (ActionAuthority_text ex_authority)"
    unfolding ActionAuthority_text_def by (rule fits_struct [of 430]) (simp_all add: ex_authority_def quote_within)
  then show ?thesis
    unfolding deliverable_fits ExecuteActionRequest_text_def maxProtocolBody_def using ex_subject_fits
    by (intro fits_struct [of 4000]) (simp_all add: ex_execute_def quote_within fits_more)
qed

lemma ex_exact_text: "\<exists>t. DiscoveryRequest_text ex_exact = Inr t \<and> length t \<le> 60000"
  using ex_sent ex_jsons
  by (simp add: DiscoveryRequest_text_def ex_exact_def raw_text_def sent_def ex_now_text omit_def ResourceDiscoveryProtocol_def
      Itoa_def nat_text.simps object_within [of 430] array_within [of 100] quote_within)

lemma ex_page_sent: "deliverable (DiscoveryPage_text ex_page)"
  unfolding deliverable_fits maxProtocolBody_def
  by (simp add: DiscoveryPage_members_text DiscoveryPage_members_def)
    (rule fits_struct [of 2000], simp_all add: ex_page_def omit_def DiscoveredResource_text_def strings_text_def
      ResourceDiscoveryProtocol_def quote_within array_within [of 1500] object_within [of 100])

section \<open>A client and its handler\<close>

definition ex_client :: HTTPClient where
  "ex_client = \<lparr> hc_Endpoint = ''https://h/'', hc_SharedSecret = ''s1'', hc_ManifestDigest = ex_release, hc_Release = ''v1'' \<rparr>"

definition ex_receipt :: ActionExecution where
  "ex_receipt = \<lparr> ae_ProviderReceipt = ''q1'', ae_ExecutionIdentity = ''i1'', ae_ExecutedAt = ex_now, ae_Output = ''{}'',
     ae_OutputDigest = sha_digest (Marshal_any (JObject [])) \<rparr>"

definition ex_server :: HTTPHandler where
  "ex_server = ex_handler\<lparr>hh_Implementation := Some (ex_broker_calls\<lparr>bi_Issue := \<lambda>_. Inr ex_material\<rparr>),
     hh_Actions := Some \<lparr> ai_ExecuteAction = (\<lambda>_. Inr ex_receipt), ai_VerifyAction = (\<lambda>_. fail ''no'') \<rparr>,
     hh_Discovery := Some ex_service\<rparr>"

lemma ex_receipt_ok: "ActionExecution_Validate ex_receipt = ok" "ActionExecution_good (Suc d) ex_receipt"
  "deliverable (ActionExecution_text ex_receipt)"
proof -
  have "JSONDigest ''{}'' = Inr (sha_digest (Marshal_any (JObject [])))"
    by (simp add: JSONDigest_def Unmarshal_any_def json_eval last_wins_def)
  then show "ActionExecution_Validate ex_receipt = ok" by (simp add: ActionExecution_Validate_def ex_receipt_def ex_blanks)
  have d: "digestPattern (sha_digest (Marshal_any (JObject [])))" by simp
  then show "ActionExecution_good (Suc d) ex_receipt"
    by (simp add: ActionExecution_good_def ex_receipt_def ex_raw_good digestPattern_valid)
  show "deliverable (ActionExecution_text ex_receipt)"
    using digest_within [OF d] unfolding deliverable_fits ActionExecution_text_def maxProtocolBody_def
    by (intro fits_struct [of 500]) (simp_all add: ex_receipt_def quote_within)
qed

lemma ex_in_window: "in_window ex_now (ex_later s) \<longleftrightarrow> \<bar>s\<bar> \<le> 120"
proof -
  have "plain_time (UTC ex_now)"
    by (simp add: plain_time_def UTC_def ex_now_def time_year_def local_seconds_def Second_def ex_date)
  moreover have "nanosecond ex_now = 0" by (simp add: nanosecond_def ex_now_def Second_def)
  ultimately show ?thesis by (auto simp: in_window_def Minute_def Second_def)
qed

lemma ex_endpoint: "path \<in> {''/v1/issue'', ''/v1/actions/execute'', ''/v1/resources/discover''} \<Longrightarrow>
    map_option request_path (url_Parse (TrimRight (hc_Endpoint ex_client) (CHR ''/'') @ path)) = Some path"
proof -
  have "TrimRight (hc_Endpoint ex_client) (CHR ''/'') = ''https://h''" by (simp add: ex_client_def TrimRight_def)
  then show "path \<in> {''/v1/issue'', ''/v1/actions/execute'', ''/v1/resources/discover''} \<Longrightarrow> ?thesis"
    by (elim insertE emptyE) (simp_all add: request_path_def url_eval)
qed

text \<open>The server's clock is a minute ahead of the client's when the request arrives.\<close>

definition ex_clock :: clock where
  "ex_clock n = (if n < 3 then ex_later 60 else ex_later 0)"

lemma ex_clock [simp]: "ex_clock 3 = ex_now" "ex_clock 4 = ex_now"
  by (simp_all add: ex_clock_def ex_later_def AddT_def)

lemma ex_connected:
  assumes "path \<in> {''/v1/issue'', ''/v1/actions/execute'', ''/v1/resources/discover''}"
  shows "connected ex_client ex_server path (\<lambda>n. ex_now) ex_clock ex_now ''q1'' Map.empty"
proof -
  have "ex_later 0 = ex_now" by (simp add: ex_later_def AddT_def)
  then show ?thesis using ex_endpoint [OF assms] ex_in_window [of 60] ex_in_window [of 0]
    by (simp add: connected_def paired_def purge_def ex_blanks ex_clock_def) (simp add: ex_client_def ex_server_def ex_handler_def ex_blanks)
qed

section \<open>Dispatches\<close>

definition ex_verify :: VerifyRequest where
  "ex_verify = \<lparr> vr_RequestID = ''q1'', vr_TenantID = ''t1'', vr_ConnectionID = ''c1'', vr_Provider = ''db'', vr_Release = ''v1'',
     vr_AccountRef = ''prod'', vr_Configuration = ''{}'', vr_Now = ex_now \<rparr>"

text \<open>The text of a request, the digest of its dispatch, and a dispatch that carries it.\<close>

definition ex_request_text :: "string result \<Rightarrow> string" where
  "ex_request_text r = (case r of Inr t \<Rightarrow> t | Inl _ \<Rightarrow> [])"

definition ex_dispatch :: "string \<Rightarrow> string \<Rightarrow> Dispatch" where
  "ex_dispatch phase request = \<lparr> di_Protocol = OutboundRuntimeProtocol, di_ID = ''i1'', di_ConnectionID = ''c1'', di_Phase = phase,
     di_Request = request, di_RequestDigest = ex_request_text (DispatchRequestDigest phase request), di_ClaimToken = ''t1'',
     di_ClaimedAt = ex_now, di_ExpiresAt = ex_later 50 \<rparr>"

definition ex_result :: ConnectionVerificationResult where
  "ex_result = \<lparr> cv_Protocol = ConnectionVerificationProtocol, cv_RequestDigest = ex_request_text (VerifyConnectionRequestDigest ex_verify),
     cv_TargetIdentity = ''db'', cv_VerifiedAt = ex_now, cv_EvidenceDigest = ex_release \<rparr>"

definition ex_verifier :: ConnectionVerificationService where
  "ex_verifier = \<lparr> cvs_Manifest = ex_search_manifest, cvs_ManifestDigest = ex_release,
     cvs_Implementation = Some (\<lambda>ctx q. \<lparr> oc_Result = Inr ex_result, oc_Elapsed = 10 * Second, oc_Cancelled = False \<rparr>) \<rparr>"

lemma ex_verify_good: "VerifyRequest_good (Suc d) ex_verify"
  by (simp add: VerifyRequest_good_def ex_verify_def ex_raw_good)

lemma ex_configuration_denotes: "denotes 1 ''{}'' (JObject [])"
  using denotes_object [of 0 "[]" "[]"] by (simp add: object_text_def)

lemma ex_verify_text: "\<exists>t ms. VerifyRequest_text ex_verify = Inr t \<and> length t \<le> 60000 \<and> parse_json t = Some (JObject ms) \<and>
    (\<exists>v. readParameterValue (JObject ms) 0 = Inr v)"
proof -
  let ?kts = "[(''request_id'', quote ''q1''), (''tenant_id'', quote ''t1''), (''connection_id'', quote ''c1''), (''provider'', quote ''db''),
    (''release'', quote ''v1''), (''account_ref'', quote ''prod''), (''configuration'', ''{}''), (''now'', quote ''2024-01-01T00:00:00Z'')]"
  let ?ms = "[(''request_id'', JString ''q1''), (''tenant_id'', JString ''t1''), (''connection_id'', JString ''c1''), (''provider'', JString ''db''),
    (''release'', JString ''v1''), (''account_ref'', JString ''prod''), (''configuration'', JObject []), (''now'', JString ''2024-01-01T00:00:00Z'')]"
  have "VerifyRequest_text ex_verify = Inr (object_text ?kts)"
    using ex_sent ex_jsons by (simp add: VerifyRequest_text_def ex_verify_def struct_text_def raw_text_def sent_def time_json_def ex_now_text)
  moreover have "length (object_text ?kts) \<le> 60000" by (simp add: object_within [of 200] quote_within)
  moreover have "denotes 2 (object_text ?kts) (JObject ?ms)"
    using denotes_object [of 1 ?kts ?ms] ex_configuration_denotes by (simp add: member_denotes_def denotes_quote eval_nat_numeral)
  then have "parse_json (object_text ?kts) = Some (JObject ?ms)" using denotes_parse by (simp add: maxNestingDepth_def)
  moreover have "\<exists>v. readParameterValue (JObject ?ms) 0 = Inr v" by (simp add: readParameterValue.simps)
  ultimately show ?thesis by blast
qed

lemma ex_exact_read: "\<exists>t ms. DiscoveryRequest_text ex_exact = Inr t \<and> parse_json t = Some (JObject ms) \<and>
    (\<exists>v. readParameterValue (JObject ms) 0 = Inr v)"
proof -
  let ?kts = "[(''protocol'', quote ResourceDiscoveryProtocol), (''request_id'', quote ''q1''), (''tenant_id'', quote ''t1''),
    (''connection_id'', quote ''c1''), (''provider'', quote ''db''), (''release'', quote ''v1''), (''manifest_digest'', quote ex_release),
    (''account_ref'', quote ''prod''), (''capability_ref'', quote ''db/read''), (''capability_digest'', quote ex_search_digest),
    (''configuration'', ''{}''), (''limit'', ''5''), (''resource_ids'', array_text [quote ''orders'', quote ''users'']),
    (''now'', quote ''2024-01-01T00:00:00Z'')]"
  let ?ms = "[(''protocol'', JString ResourceDiscoveryProtocol), (''request_id'', JString ''q1''), (''tenant_id'', JString ''t1''),
    (''connection_id'', JString ''c1''), (''provider'', JString ''db''), (''release'', JString ''v1''), (''manifest_digest'', JString ex_release),
    (''account_ref'', JString ''prod''), (''capability_ref'', JString ''db/read''), (''capability_digest'', JString ex_search_digest),
    (''configuration'', JObject []), (''limit'', JNumber ''5''), (''resource_ids'', JArray [JString ''orders'', JString ''users'']),
    (''now'', JString ''2024-01-01T00:00:00Z'')]"
  have "byte 53 = CHR ''5''" by code_simp
  then have "DiscoveryRequest_text ex_exact = Inr (object_text ?kts)"
    using ex_sent ex_jsons by (simp add: DiscoveryRequest_text_def ex_exact_def raw_text_def sent_def ex_now_text omit_def Itoa_def nat_text.simps digit_char_def)
  moreover have "denotes 1 (array_text [quote ''orders'', quote ''users'']) (JArray [JString ''orders'', JString ''users''])"
    using denotes_array [of 0] by (simp add: denotes_quote)
  then have "denotes 2 (object_text ?kts) (JObject ?ms)"
    using denotes_object [of 1 ?kts ?ms] ex_configuration_denotes ex_values(1)
    by (simp add: SetString_is_number member_denotes_def denotes_quote denotes_number ResourceDiscoveryProtocol_def eval_nat_numeral)
  then have "parse_json (object_text ?kts) = Some (JObject ?ms)" using denotes_parse by (simp add: maxNestingDepth_def)
  moreover have "\<exists>v. readParameterValue (JObject ?ms) 0 = Inr v"
    by (simp add: readParameterValue.simps read_number_def exponent_suffix_def ex_values)
  ultimately show ?thesis by blast
qed

lemma ex_dispatch_ok:
  assumes "phase \<in> exact_phases" "parse_json t = Some (JObject ms)" "length t \<le> 60000" "readParameterValue (JObject ms) 0 = Inr v"
  shows "Dispatch_Validate (ex_dispatch phase t) ex_now = ok"
    and "DispatchRequestDigest phase t = Inr (ex_request_text (DispatchRequestDigest phase t))"
proof -
  have "t \<noteq> []" using assms(2) by (auto simp: parse_json_def scan_value.simps [of _ "[]"] skip_ws_def)
  then show d: "DispatchRequestDigest phase t = Inr (ex_request_text (DispatchRequestDigest phase t))"
    using assms by (auto simp: DispatchRequestDigest_def exact_phases_def decodeParameterJSON_def ex_request_text_def)
  have "phase \<in> set phases" using assms(1) by (auto simp: exact_phases_def phases_def)
  then show "Dispatch_Validate (ex_dispatch phase t) ex_now = ok"
    using d by (simp add: Dispatch_Validate_ok ex_dispatch_def ex_blanks Second_def)
qed

lemma ex_verify_dispatched:
  "\<exists>t. VerifyRequest_text ex_verify = Inr t \<and>
     Dispatch_VerifyConnection (ex_dispatch OutboundPhaseVerifyConnection t) ex_context ex_verifier ex_now = Inr ex_result"
proof -
  obtain t ms v where t: "VerifyRequest_text ex_verify = Inr t" "length t \<le> 60000" "parse_json t = Some (JObject ms)"
    "readParameterValue (JObject ms) 0 = Inr v" using ex_verify_text by blast
  note d = ex_dispatch_ok [of OutboundPhaseVerifyConnection, OF _ t(3,2,4)]
  have read: "decodeStrict verify_fields zero_verify t = Some ex_verify"
    using verify_codec.strict [OF t(1) ex_verify_good [of 0]] ex_sent by (simp add: maxNestingDepth_def ex_verify_def)
  have digest: "VerifyConnectionRequestDigest ex_verify = Inr (ex_request_text (VerifyConnectionRequestDigest ex_verify))"
    using d(2) t(1) by (simp add: VerifyConnectionRequestDigest_def exact_phases_def)
  then have r: "ConnectionVerificationResult_Validate ex_result ex_verify (ex_later 10) = ok"
    by (simp add: ConnectionResult_ok ex_result_def ex_blanks ex_texts ex_verify_def [THEN arg_cong, of vr_Now] Second_def Minute_def)
  have v: "ValidateConnectionVerificationRequest ex_verify (cvs_Manifest ex_verifier) ex_now = ok"
    by (simp add: ConnectionRequest_ok ex_verifier_def ex_broker_def ex_verify_def ex_blanks ex_texts ex_empty Second_def Minute_def)
  have later: "AddT ex_now (10 * Second) = ex_later 10" by (simp add: ex_later_def)
  have "Service_VerifyConnection ex_verifier (WithTimeout ex_context (SubT (ex_later 50) ex_now)) ex_verify ex_now = Inr ex_result"
    using r v later by (simp add: Service_VerifyConnection_def Let_def) (simp add: ex_verifier_def ex_context_def ctx_Err_def
        ctx_Err_after_def WithTimeout_def SubT_def AddT_def connectionVerificationAge_def Minute_def Second_def ex_verify_def [THEN arg_cong, of vr_Now])
  then have "Dispatch_VerifyConnection (ex_dispatch OutboundPhaseVerifyConnection t) ex_context ex_verifier ex_now = Inr ex_result"
    using d(1) read by (simp add: Dispatch_VerifyConnection_def exact_phases_def)
      (simp add: ex_dispatch_def ex_verify_def ex_verifier_def ex_broker_def TransportMode_def manifest_protocols)
  then show ?thesis using t(1) by blast
qed

lemma ex_exact_received: "DiscoveryRequest_received ex_exact = ex_exact"
proof -
  have "sent (dr_Configuration ex_exact) = dr_Configuration ex_exact" using ex_sent by (simp add: ex_exact_def)
  moreover have "settle (\<lambda>s. s) (dr_ResourceIDs ex_exact) = dr_ResourceIDs ex_exact" by (simp add: ex_exact_def)
  ultimately show ?thesis by (simp add: DiscoveryRequest_received_def)
qed

lemma ex_exact_dispatched:
  "\<exists>t. DiscoveryRequest_text ex_exact = Inr t \<and>
     Dispatch_DiscoverResources (ex_dispatch OutboundPhaseDiscoverResources t) ex_context ex_service ex_now = Inr ex_page"
proof -
  obtain t ms v where t: "DiscoveryRequest_text ex_exact = Inr t" "parse_json t = Some (JObject ms)"
    "readParameterValue (JObject ms) 0 = Inr v" "length t \<le> 60000" using ex_exact_read ex_exact_text by fastforce
  note d = ex_dispatch_ok(1) [of OutboundPhaseDiscoverResources, OF _ t(2,4,3)]
  have read: "decodeStrict discovery_fields zero_discovery t = Some ex_exact"
    using discovery_codec.strict [OF t(1) ex_exact_good [of 0]] ex_exact_received by (simp add: maxNestingDepth_def)
  have "Service_DiscoverResources ex_service (WithTimeout ex_context (SubT (ex_later 50) ex_now)) ex_exact ex_now = Inr ex_page"
    by (rule ex_service_answer_in) (simp_all add: WithTimeout_def ex_context_def SubT_def Second_def)
  then show ?thesis using t(1) d read
    by (intro exI [of _ t]) (simp add: Dispatch_DiscoverResources_def exact_phases_def,
      simp add: ex_dispatch_def ex_service_def ex_broker_def TransportMode_def manifest_protocols ex_exact_def [THEN arg_cong, of dr_ConnectionID])
qed

end
