(* ===== verification/Spec2Isabelle.thy ===== *)
theory Spec2Isabelle
  imports Scenarios
begin

text \<open>
  A model of the provider adapter SDK (Go package \<open>provideradapter\<close>, all of \<open>src/*.go\<close> but
  the tests), and the properties that span its parts.

  The program. A publisher signs a release manifest (\<open>manifest.go\<close>): identities, a credential and
  renderer contract, a broker, typed action capabilities. A control plane talks to the released
  adapter, either by signed HTTP requests to an inbound broker (\<open>http.go\<close>, \<open>protocol.go\<close>,
  \<open>discovery_transport.go\<close>) or by dispatches that an outbound runtime pulls (\<open>outbound.go\<close>).
  Requests carry authorizations whose rules narrow resources, parameters and capabilities
  (\<open>constraints.go\<close>, \<open>capability_selection.go\<close>), authorities for single actions, task deadlines
  (\<open>credential_lifetime.go\<close>); discovery and connection verification return evidence that is bound
  to the digest of the request (\<open>discovery.go\<close>, \<open>connection_verification.go\<close>). Effects of a
  capability are assessed under policy presets (\<open>assessment.go\<close>, \<open>policy_binding.go\<close>).

  The theories, from the bottom. A Go function with an error is a function into \<open>result\<close>: a
  value, an error message or a panic (\<open>Prelude\<close>, with the contracts of validation loops and of
  runs). Strings are byte strings. \<open>GoText\<close>, \<open>GoTime\<close>, \<open>Number\<close>, \<open>Float64\<close>, \<open>Json\<close>, \<open>JsonText\<close>,
  \<open>Sha256\<close> and \<open>Encodings\<close> model what the code uses of the standard library: trimming, UTF-8,
  anchored patterns, instants and RFC 3339, rationals and doubles of JSON number literals, the
  JSON scanner and encoder, SHA-256 and HMAC, base64, hexadecimal and URL parsing. \<open>Structs\<close> is the
  encoding of Go structs, \<open>Decoding\<close> the strict decoding of \<open>http.go\<close> into field tables.
  Components: \<open>Parameters\<close>, \<open>Ceilings\<close>, \<open>Selections\<close>, \<open>Authorizations\<close> (constraints, capability
  selection and the authorizations of \<open>protocol.go\<close>); \<open>Digests\<close>, \<open>Actions\<close>, \<open>Wire\<close> (digests,
  actions and messages of \<open>protocol.go\<close>); \<open>Capability\<close>, \<open>Manifests\<close>, \<open>Releases\<close> (\<open>manifest.go\<close>);
  \<open>Assessment\<close>; \<open>Lifetimes\<close>; \<open>Canonical_Numbers\<close>, \<open>Exactness\<close>, \<open>Discovery\<close>; \<open>Outbound\<close>; \<open>Services\<close>
  (the connection-verification and discovery services and their dispatches); \<open>Http\<close> (signatures,
  handler, client) and \<open>Nonces\<close> (the handler as a state machine).
  The wire: \<open>Compact\<close> (what \<open>json.Marshal\<close> makes of raw JSON keeps its value and is a fixed
  point), \<open>TimeText\<close> (RFC 3339 written and read back), \<open>RoundTrips\<close> and \<open>Codecs\<close> (the encodings and
  the field tables of the messages as codecs), \<open>Settled\<close> (what was received is written again as it
  was sent), \<open>Agreement\<close> (validation, digests and decisions agree at both ends; dispatches),
  \<open>Exchange\<close> (client and handler together) and \<open>Bindings\<close> (what the digests of authorizations and
  discovery requests bind). \<open>Examples\<close> and \<open>Scenarios\<close> hold the concrete values the properties are
  exercised on. Definitions keep the names of the code; a method of a
  type is \<open>Type_Method\<close>; a loop of a function is a recursive function of its own named \<open>check_...\<close>
  or \<open>match_...\<close>.

  State. The only mutable state is the handler's map from nonces to times, passed explicitly
  through \<open>authenticate\<close> and the endpoint handlers; \<open>Nonces\<close> makes an authentication a step and
  runs of the handler lists of steps, in the order in which they take the lock. Readings of the
  clock are arguments, one per call of \<open>Now\<close>. Calls of a provider implementation, the transport
  of a request, Ed25519 and the source of random nonces are parameters.

  The lemmas. Each component has a \<open>_ok\<close> lemma per validation that says exactly when it accepts
  (collected in \<open>result_iff\<close>), and \<open>_avoids\<close> lemmas that it cannot panic. The locales: \<open>seen_loop\<close>
  (a validation loop with a set of seen keys, interpreted for every such loop), \<open>digest_binding\<close>
  (a digest of an injective encoding, for actions, JSON values, capabilities and manifests),
  \<open>freshness\<close> (a window of acceptance, for signatures, deadlines, discovery requests and pages),
  \<open>expiring_memory\<close> (the nonce cache), \<open>guarded_service\<close> (the two services), \<open>codec\<close>, \<open>struct_codec\<close>
  and \<open>stable_codec\<close> (an encoding, the decoder that reads it, and the fixed point; interpreted for
  every message of the protocol). For a message \<open>v\<close>, \<open>X_good d v\<close> says that its strings are UTF-8,
  its times have whole-minute zones, its raw JSON is well formed and everything nests at most \<open>d\<close>
  deep; \<open>X_received v\<close> is what the strict decoder makes of its text. An exchange assumes a network
  that delivers (\<open>network\<close>), which is the only assumption on the transport: \<open>connected\<close> lists the
  configuration and clock conditions, among them that the client's endpoint followed by the path of
  the protocol is a URL with that path (\<open>call\<close> asks for the path of the URL it has parsed).

  Bounds. Recursion is structural or has a termination proof, so every modelled function is
  total; the JSON scanner carries Go's nesting limit of 10000 and the splitting of members the
  length of the text as fuel, which each member shortens. Durations are 64-bit where the code
  multiplies declared seconds, with the product proved exact for the lifetimes that validation
  admits.

  Not modelled. \<open>net/http\<close>'s server, header canonicalisation and connection handling; its mux
  beyond the literal paths of the routes: requests are POST requests (the mux answers other
  methods with 405), it redirects paths that are not clean and decodes escaped ones, and \<open>serve\<close> is
  defined for every handler, whether or not \<open>Handler_check\<close> admits it; the \<open>Content-Type\<close> and
  \<open>Cache-Control\<close> headers, which no code reads; \<open>crypto/rand\<close> beyond its result; Ed25519 beyond a
  parameter; the texts of error messages of \<open>encoding/json\<close>; the order in which Go iterates a map
  where only the label of an error message depends on it.

  Where the model is coarser than Go. A nil and an empty slice of environments or rules are one
  value, written \<open>[]\<close>, where Go writes a nil one as \<open>null\<close> and reads that back as nil. An
  empty \<open>json.RawMessage\<close> that is not nil is written as \<open>null\<close>, where Go reports an error. A
  \<open>json.Number\<close> in a schema is a number literal, as decoding makes it. A member that a text repeats
  replaces a slice read before, elements included. A service's clock advances by the one elapsed
  time of the call of its implementation, and its context ends exactly at the deadline. Instants
  are unbounded integers where Go's wrap after some hundred billion years.
\<close>

section \<open>Both ends of the wire\<close>

text \<open>C1: Issuing works end to end. A client and a handler with the same secret, release and
  digest, clocks within two minutes of each other and an unused nonce exchange one request: the
  broker is asked exactly what the wire carries of the request, and the client returns exactly what
  the wire carries of the material, raw JSON rewritten without white space and with HTML escapes.
  Neither end rejects the other's message.\<close>

theorem issue_end_to_end:
  assumes "connected c h ''/v1/issue'' cclock clock (clock 3) nonce seen"
    and "deliverable (IssueRequest_text q)" "IssueRequest_good d q" "d < maxNestingDepth" "is_Release q = hh_Release h"
    and "hh_Implementation h = Some impl" "bi_Issue impl (IssueRequest_received q) = Inr r"
    and "deliverable (Material_text r)" "Material_good d r"
  shows "Client_Issue c (Inr nonce) cclock (network h ctx clock seen) q = Inr (r\<lparr>mt_Payload := sent (mt_Payload r)\<rparr>)"
  by (rule exchange_issue [OF assms])

theorem issue_end_to_end_witness:
  "Client_Issue ex_client (Inr ''q1'') (\<lambda>n. ex_now)
     (network ex_server ex_context ex_clock Map.empty) ex_issue = Inr ex_material"
proof -
  have "connected ex_client ex_server ''/v1/issue'' (\<lambda>n. ex_now) ex_clock (ex_clock 3) ''q1'' Map.empty" using ex_connected [of "''/v1/issue''"] by simp
  from issue_end_to_end [OF this ex_issue_sent ex_issue_good [of 0] _ _ _ _ ex_material_sent, of _ ex_context]
  show ?thesis using ex_sent ex_material_good [of 7]
    by (simp add: maxNestingDepth_def ex_server_def ex_handler_def ex_issue_def ex_material_def)
qed

text \<open>C2: Executing an action works end to end, and the checks at both ends agree: when the client
  sends a request that validates for a capability, the request the implementation is asked also
  validates for it (same action digest, same authority), and the receipt the client returns
  validates (same output digest).\<close>

theorem action_end_to_end:
  assumes "connected c h ''/v1/actions/execute'' cclock clock (clock 3) nonce seen"
    and "deliverable (ExecuteActionRequest_text q)" "ExecuteActionRequest_good d q" "d < maxNestingDepth" "ex_Release q = hh_Release h"
    and "ExecuteActionRequest_Validate q capability = ok"
    and "hh_Actions h = Some actions" "ai_ExecuteAction actions (ExecuteActionRequest_received q) = Inr r"
    and "ActionExecution_Validate r = ok" "deliverable (ActionExecution_text r)" "ActionExecution_good d r"
  shows "ExecuteActionRequest_Validate (ExecuteActionRequest_received q) capability = ok \<and>
    (\<exists>receipt. Client_ExecuteAction c (Inr nonce) cclock (network h ctx clock seen) q = Inr receipt \<and>
       receipt = r\<lparr>ae_Output := sent (ae_Output r)\<rparr> \<and> ActionExecution_Validate receipt = ok)"
  using execute_received [OF assms(3,4,6)] exchange_execute [OF assms(1-5,7-11)] execution_received [OF assms(11) _ assms(9)] assms(4)
  by simp

theorem action_end_to_end_witness:
  "\<exists>receipt. Client_ExecuteAction ex_client (Inr ''q1'') (\<lambda>n. ex_now)
     (network ex_server ex_context ex_clock Map.empty) ex_execute = Inr receipt \<and>
     ActionExecution_Validate receipt = ok"
proof -
  have "connected ex_client ex_server ''/v1/actions/execute'' (\<lambda>n. ex_now) ex_clock
      (ex_clock 3) ''q1'' Map.empty" using ex_connected [of "''/v1/actions/execute''"] by simp
  from action_end_to_end [OF this ex_execute_sent ex_execute_good [of 0] _ _ ex_execute_ok _ _ ex_receipt_ok(1,3,2), of _ ex_context]
  show ?thesis by (simp add: maxNestingDepth_def ex_server_def ex_handler_def ex_execute_def)
qed

text \<open>C3: Discovery works end to end, validated on both sides: the page the service accepts for the
  received request is accepted by the client for the request it sent (the digest of the request is
  the same on both ends), as long as the evidence is still fresh on the client's clock.\<close>

theorem discovery_end_to_end:
  assumes "connected c h ''/v1/resources/discover'' (\<lambda>n. cclock (Suc n)) clock (clock 4) nonce seen"
    and "deliverable (DiscoveryRequest_text q)" "DiscoveryRequest_good d q" "d < maxNestingDepth" "short (dr_Configuration q)"
    and "dr_Release q = hc_Release c" "dr_ManifestDigest q = hc_ManifestDigest c" "ValidateAt q capability (cclock 0) = ok"
    and "hh_Discovery h = Some service" "discovery_capability service q = Some capability"
    and "Service_DiscoverResources service ctx (DiscoveryRequest_received q) (UTC (clock 3)) = Inr p"
    and "deliverable (DiscoveryPage_text p)" "DiscoveryPage_good d p"
    and "ac_Discovery capability = Some a" "\<not> check_stale (cclock 3) (dp_ObservedAt p) (dr_Now q) (rd_MaximumAgeSeconds a)"
  shows "Client_DiscoverResources c (Inr nonce) cclock (network h ctx clock seen) q capability = Inr p"
  by (rule exchange_discovery [OF assms])

theorem discovery_end_to_end_witness:
  "Client_DiscoverResources ex_client (Inr ''q1'') (\<lambda>n. ex_now)
     (network ex_server ex_context ex_clock Map.empty) ex_exact ex_search = Inr ex_page"
proof -
  have c: "connected ex_client ex_server ''/v1/resources/discover'' (\<lambda>n. (\<lambda>n. ex_now) (Suc n))
      ex_clock (ex_clock 4) ''q1'' Map.empty"
    using ex_connected [of "''/v1/resources/discover''"] by simp
  have e: "dr_Configuration ex_exact = ''{}''" "dr_Now ex_exact = ex_now" "dr_CapabilityRef ex_exact = ''db/read''"
    "dr_Release ex_exact = ''v1''" "dr_ManifestDigest ex_exact = ex_release" "dp_ObservedAt ex_page = ex_now"
    by (simp_all add: ex_exact_def ex_page_def)
  have sent: "deliverable (DiscoveryRequest_text ex_exact)" using ex_exact_text by (auto simp: deliverable_def maxProtocolBody_def)
  have now: "ValidateAt ex_exact ex_search ex_now = ok" by (simp add: ValidateAt_ok e ex_discovery_def seconds_exact Second_def)
  have fresh: "\<not> check_stale ex_now ex_now ex_now (rd_MaximumAgeSeconds ex_discovery)"
    by (simp add: check_stale_def time_defs ex_discovery_def seconds_exact Second_def)
  have served: "Service_DiscoverResources ex_service ex_context (DiscoveryRequest_received ex_exact) (UTC (ex_clock 3)) = Inr ex_page"
    using ex_service_answer by (simp add: ex_exact_received UTC_def) (simp add: ex_now_def)
  have cap: "discovery_capability ex_service ex_exact = Some ex_search"
    by (simp add: discovery_capability_def e ex_service_def del: discovery_capability_impl)
  show ?thesis
    by (rule discovery_end_to_end [OF c sent ex_exact_good [of 2] _ _ _ _ now _ cap _ ex_page_sent])
      (use served fresh ex_page_good [of 0] in \<open>simp_all add: maxNestingDepth_def e ex_short ex_client_def ex_server_def\<close>)
qed

text \<open>C4: The signatures fit together in both directions: under the same conditions the handler
  authenticates the request the client signed and records its nonce, and the client accepts the
  response the handler signed for that nonce. The times travel as RFC 3339 text with whole
  seconds, which loses less than the windows allow.\<close>

theorem signed_exchange_authentic:
  assumes "connected c h path cclock clock t nonce seen" "length body \<le> maxProtocolBody" "length answer \<le> maxProtocolBody"
    and "decode answer = Some v"
  shows "(\<exists>seen'. authenticate h clock seen (signed_request c nonce (cclock 0) path body) = (Some (body, nonce), seen') \<and>
      seen' nonce = Some (UTC (clock 2))) \<and>
    accept_response c nonce (UTC (cclock 1)) decode (Some (respond h t nonce (Inr answer))) = Inr v"
  using signed_request_authenticated [OF assms(1,2)] response_accepted [OF assms(1,3), of decode, OF assms(4)]
  by (fastforce simp: authenticate_Some)

theorem signed_exchange_authentic_witness:
  "accept_response ex_client ''q1'' (UTC ex_now) Some (Some (respond ex_server ex_now ''q1'' (Inr ''{}''))) = Inr ''{}''"
  using signed_exchange_authentic [OF ex_connected [of "''/v1/issue''"], of "''{}''" "''{}''" Some "''{}''"]
  by (simp add: maxProtocolBody_def)

text \<open>C5: An issue request survives the wire: the strict decoder reads from its text exactly the
  request, with raw JSON rewritten, map entries in the order of their keys and empty optional lists
  as absent; and marshalling what was read gives the same bytes again.\<close>

theorem issue_request_roundtrip:
  assumes "IssueRequest_text q = Inr body" "IssueRequest_good d q" "d < maxNestingDepth"
  shows "decodeStrict issue_fields zero_issue body = Some (IssueRequest_received q) \<and>
    IssueRequest_text (IssueRequest_received q) = Inr body"
  using issue_codec.strict [OF assms] issue_codec.again [OF assms(2,3)] assms(1) by simp

theorem issue_request_roundtrip_witness:
  "\<exists>body. IssueRequest_text ex_issue = Inr body \<and> decodeStrict issue_fields zero_issue body = Some (IssueRequest_received ex_issue)"
proof -
  obtain body where "IssueRequest_text ex_issue = Inr body" using ex_issue_sent by (auto simp: deliverable_def)
  then show ?thesis using issue_request_roundtrip [OF _ ex_issue_good [of 0]] by (simp add: maxNestingDepth_def)
qed

text \<open>C6: An authorization means the same at both ends: what was received of a valid authorization
  is valid, has the same digest, and decides every request alike, whatever operation, resource,
  capability and parameters are asked for. (Escaping must not push an allowed value over the
  decoder's limit of 64 KiB.)\<close>

theorem authorization_survives_wire:
  assumes "Authorization_good d a" "d < maxNestingDepth" "list_all short_rule (au_Rules a)" "Authorization_Validate a = ok"
  shows "Authorization_Validate (Authorization_received a) = ok \<and>
    AuthorizationDigest (Authorization_received a) = AuthorizationDigest a \<and>
    (\<forall>provider operation resource capability parameters.
       ParametersWithinCapabilityRules (au_Rules (Authorization_received a)) provider operation resource capability parameters =
       ParametersWithinCapabilityRules (au_Rules a) provider operation resource capability parameters)"
  using authorization_received [OF assms] by blast

theorem authorization_survives_wire_witness:
  "ParametersWithinCapabilityRules (au_Rules (Authorization_received ex_authorization)) ''db'' ''db.read'' ''orders'' ex_selector
     ex_parameters = Inr True"
proof -
  have "list_all short_rule (au_Rules ex_authorization)" "au_Rules ex_authorization = [ex_rule]"
    using ex_short by (simp_all add: ex_authorization_def)
  then show ?thesis
    using authorization_survives_wire [OF ex_authorization_good [of 0] _ _ ex_authorization_ok] ex_rule_within
    by (simp add: maxNestingDepth_def)
qed

text \<open>C7: The digest of an authorization binds it: two authorizations with the same digest are
  received as the same authorization, in every field and every ceiling, unless their texts are a
  SHA-256 collision.\<close>

theorem authorization_digest_binds:
  assumes "AuthorizationDigest a = Inr digest" "AuthorizationDigest b = Inr digest" "sendable a" "sendable b"
  shows "Authorization_received a = Authorization_received b \<or>
    (\<exists>e e'. Authorization_text a = Inr e \<and> Authorization_text b = Inr e' \<and> sha_collision e e')"
  using authorization_binding.digest_binds [OF assms] by (simp add: authorization_encoding_def)

theorem authorization_digest_binds_witness:
  "\<exists>e. Authorization_text ex_authorization = Inr e \<and>
     (Authorization_received ex_authorization = Authorization_received ex_authorization \<or> sha_collision e e)"
proof -
  obtain e where e: "Authorization_text ex_authorization = Inr e" using ex_authorization_fits by (auto simp: fits_def)
  then have d: "AuthorizationDigest ex_authorization = Inr (sha_digest (TrimSpace e))" by (simp add: AuthorizationDigest_def)
  have "sendable ex_authorization" using ex_authorization_good [of 0] by (auto simp: sendable_def maxNestingDepth_def intro!: exI [of _ 7])
  then show ?thesis using authorization_digest_binds [OF d d] e by auto
qed

text \<open>C8: The digest of a discovery request binds it: two validated requests with the same digest
  agree in every field, exact selection included, and their configurations are equal as parameter
  values (numbers by exact value), unless their canonical texts are a SHA-256 collision.\<close>

theorem discovery_digest_binds:
  assumes "DiscoveryRequestDigest q capability = Inr digest" "DiscoveryRequestDigest q' capability = Inr digest"
    and "whole_minutes (dr_Now q)" "whole_minutes (dr_Now q')"
  shows "same_discovery q q' \<or> (\<exists>e e'. discovery_encoding q e \<and> discovery_encoding q' e' \<and> sha_collision e e')"
  using discovery_binding.digest_binds [OF assms(1,2)] request_digest_valid(1) [OF assms(1)] request_digest_valid(1) [OF assms(2)]
    assms(3,4) by blast

theorem discovery_digest_binds_witness:
  "same_discovery ex_exact ex_exact \<or> (\<exists>e e'. discovery_encoding ex_exact e \<and> discovery_encoding ex_exact e' \<and> sha_collision e e')"
proof -
  have "whole_minutes (dr_Now ex_exact)" by (simp add: ex_exact_def)
  then show ?thesis by (intro discovery_digest_binds [OF ex_exact_digest ex_exact_digest])
qed

section \<open>Dispatches\<close>

text \<open>C9: A dispatched connection verification answers the request that was dispatched: when the
  runtime returns a result for a dispatch that carries the text of a request, the implementation
  was asked what the wire carries of that request, answered before the dispatch expired, and the
  result validates for the original request at that time; its request digest is the digest of the
  dispatch.\<close>

theorem dispatched_connection_verified:
  assumes "VerifyRequest_text q = Inr (di_Request dispatch)" "VerifyRequest_good d q" "d < maxNestingDepth"
    and "Dispatch_VerifyConnection dispatch ctx service now = Inr r"
  shows "\<exists>impl c t. cvs_Implementation service = Some impl \<and> oc_Result (impl c (VerifyRequest_received q)) = Inr r \<and>
    inst t = inst now + oc_Elapsed (impl c (VerifyRequest_received q)) \<and> inst t < inst (di_ExpiresAt dispatch) \<and>
    vr_ConnectionID q = di_ConnectionID dispatch \<and> cv_RequestDigest r = di_RequestDigest dispatch \<and>
    ConnectionVerificationResult_Validate r q t = ok"
  by (rule dispatched_verification [OF assms])

theorem dispatched_connection_verified_witness:
  "\<exists>t. inst t < inst (ex_later 50) \<and> ConnectionVerificationResult_Validate ex_result ex_verify t = ok"
proof -
  obtain body where body: "VerifyRequest_text ex_verify = Inr body"
    "Dispatch_VerifyConnection (ex_dispatch OutboundPhaseVerifyConnection body) ex_context ex_verifier ex_now = Inr ex_result"
    using ex_verify_dispatched by blast
  have d: "di_Request (ex_dispatch p b) = b" "di_ExpiresAt (ex_dispatch p b) = ex_later 50" for p b by (simp_all add: ex_dispatch_def)
  have "VerifyRequest_text ex_verify = Inr (di_Request (ex_dispatch OutboundPhaseVerifyConnection body))" by (simp add: body(1) d)
  moreover have m: "Suc 0 < maxNestingDepth" by (simp add: maxNestingDepth_def)
  ultimately show ?thesis using dispatched_connection_verified [OF _ ex_verify_good [of 0] m body(2)] unfolding d
    by (elim meta_impE exE conjE) (assumption, intro exI conjI)
qed

text \<open>C10: A dispatched discovery answers the request that was dispatched, in the same sense: the page
  validates for the original request and a capability of the service's release, before the
  dispatch expired. The request must not select an explicit empty list, which the wire drops.\<close>

theorem dispatched_discovery_answered:
  assumes "DiscoveryRequest_text q = Inr (di_Request dispatch)" "DiscoveryRequest_good d q" "d < maxNestingDepth"
    and "dr_ResourceIDs q \<noteq> Some []" "length (dr_Configuration q) \<le> 64 * 1024"
    and "Dispatch_DiscoverResources dispatch ctx service now = Inr p"
  shows "\<exists>impl c t. dsv_Implementation service = Some impl \<and> oc_Result (impl c (DiscoveryRequest_received q)) = Inr p \<and>
    inst t = inst now + oc_Elapsed (impl c (DiscoveryRequest_received q)) \<and> inst t < inst (di_ExpiresAt dispatch) \<and>
    dr_ConnectionID q = di_ConnectionID dispatch \<and>
    (\<exists>capability \<in> set (ma_Actions (dsv_Manifest service)). ac_Ref capability = dr_CapabilityRef q \<and>
       DiscoveryPage_Validate p q capability t = ok)"
  by (rule dispatched_discovery [OF assms])

theorem dispatched_discovery_answered_witness:
  "\<exists>t. inst t < inst (ex_later 50) \<and> DiscoveryPage_Validate ex_page ex_exact ex_search t = ok"
proof -
  obtain body where body: "DiscoveryRequest_text ex_exact = Inr body"
    "Dispatch_DiscoverResources (ex_dispatch OutboundPhaseDiscoverResources body) ex_context ex_service ex_now = Inr ex_page"
    using ex_exact_dispatched by blast
  have d: "di_Request (ex_dispatch p b) = b" "di_ExpiresAt (ex_dispatch p b) = ex_later 50" for p b by (simp_all add: ex_dispatch_def)
  have q: "dr_ResourceIDs ex_exact \<noteq> Some []" "length (dr_Configuration ex_exact) \<le> 64 * 1024"
    "ma_Actions (dsv_Manifest ex_service) = [ex_search]" by (simp_all add: ex_exact_def ex_service_def)
  have m: "Suc 0 < maxNestingDepth" by (simp add: maxNestingDepth_def)
  have "DiscoveryRequest_text ex_exact = Inr (di_Request (ex_dispatch OutboundPhaseDiscoverResources body))" by (simp add: body(1) d)
  from dispatched_discovery_answered [OF this ex_exact_good [of 0] m q(1,2) body(2), unfolded d q(3)]
  obtain t where "inst t < inst (ex_later 50)"
    "\<exists>c \<in> set [ex_search]. ac_Ref c = dr_CapabilityRef ex_exact \<and> DiscoveryPage_Validate ex_page ex_exact c t = ok"
    by (elim exE conjE) (rule that)
  then show ?thesis by auto
qed

section \<open>Replay protection of the handler\<close>

text \<open>C11: A nonce is accepted at most once in any three minutes: in every run of the handler, where
  the clock as read under the lock does not pass the second acceptance in between, two requests
  accepted with one nonce are more than three minutes apart.\<close>

theorem nonce_accepted_once:
  assumes "run (auth_step h) s (Accepted r clock # es @ [Accepted r' clock']) s'" "hq_Nonce r' = hq_Nonce r"
    and "\<forall>e \<in> set es. inst (ev_clock e 1) \<le> inst (clock' 1)"
  shows "inst (clock 2) + 3 * Minute < inst (clock' 1)"
  using nonce_cache.reaccepted_late [OF assms(1), of "hq_Nonce r"] assms(2,3) by simp

theorem nonce_accepted_once_witness: "inst (ex_later 0) + 3 * Minute < inst (ex_later 210)"
proof -
  obtain s where "run (auth_step ex_handler) Map.empty ([Accepted ex_ahead (\<lambda>_. ex_later 0), Accepted ex_ahead (\<lambda>_. ex_later 210)]) s"
    by (rule exE [OF ex_ahead_replay])
  then show ?thesis
    using nonce_accepted_once [of ex_handler Map.empty ex_ahead "\<lambda>_. ex_later 0" "[]" ex_ahead "\<lambda>_. ex_later 210" s]
    by simp
qed

text \<open>C12: The cache forgets a nonce after three minutes but the signature of a request with a clock
  two minutes ahead stays acceptable for four: the same request is accepted a second time three
  and a half minutes after the first. Replay is therefore not refused in general.\<close>

theorem early_timestamp_replayed:
  "\<exists>s. run (auth_step ex_handler) Map.empty
     [Accepted ex_ahead (\<lambda>_. ex_later 0), Accepted ex_ahead (\<lambda>_. ex_later 210)] s"
  by (rule ex_ahead_replay)

text \<open>C13: What replay needs: a request can only be accepted again if its timestamp was more than
  a minute ahead of the clock when it was first recorded, less the time the second attempt spends
  between checking the signature and taking the lock. So a request whose timestamp was not ahead
  when it was recorded is accepted again only by an attempt that spends more than a minute
  between the two.\<close>

theorem replay_needs_early_timestamp:
  assumes "run (auth_step h) s (Accepted r clock # es @ [Accepted r clock']) s'"
    and "\<forall>e \<in> set es. inst (ev_clock e 1) \<le> inst (clock' 1)" and "ParseRFC3339 (hq_Timestamp r) = Some p"
  shows "inst (clock 2) + Minute - (inst (clock' 1) - inst (clock' 0)) < inst p \<and>
    (inst p \<le> inst (clock 2) \<longrightarrow> Minute < inst (clock' 1) - inst (clock' 0))"
proof -
  have late: "inst (clock 2) + 3 * Minute < inst (clock' 1)"
    using nonce_cache.reaccepted_late [OF assms(1), of "hq_Nonce r"] assms(2) by simp
  have "run (auth_step h) s ((Accepted r clock # es) @ [Accepted r clock']) s'" using assms(1) by simp
  then obtain s1 where "auth_step h s1 (Accepted r clock') s'" unfolding run_append by (auto simp: run_simps)
  then show ?thesis by (rule accepted_window) (use assms(3) late in auto)
qed

theorem replay_needs_early_timestamp_witness: "inst (ex_later 0) + Minute < inst (ex_later 120)"
proof -
  have "ParseRFC3339 (hq_Timestamp ex_ahead) = Some (ex_later 120)" using ex_ahead_time by (simp add: ex_ahead_def)
  moreover obtain s where "run (auth_step ex_handler) Map.empty ([Accepted ex_ahead (\<lambda>_. ex_later 0), Accepted ex_ahead (\<lambda>_. ex_later 210)]) s"
    by (rule exE [OF ex_ahead_replay])
  ultimately show ?thesis
    using replay_needs_early_timestamp [of ex_handler Map.empty ex_ahead "\<lambda>_. ex_later 0" "[]" "\<lambda>_. ex_later 210" s, THEN conjunct1]
    by simp
qed

text \<open>C14: The cache holds only what was accepted: after any run from an empty cache, each recorded
  nonce belongs to a request that was accepted in the run and carries the time of an acceptance.\<close>

theorem cache_from_acceptances:
  assumes "run (auth_step h) Map.empty es s" "s nonce = Some t"
  shows "\<exists>r clock. Accepted r clock \<in> set es \<and> hq_Nonce r = nonce \<and> t = UTC (clock 2)"
proof -
  have "\<exists>r clock. Accepted r clock \<in> set es \<and> hq_Nonce r = nonce \<and> t = UTC (clock 2)"
    if "run (auth_step h) s0 es s" "s0 nonce \<noteq> Some t" "s nonce = Some t" for s0
    using that
  proof (induction rule: run.induct)
    case (run_Cons s e s1 es s2)
    show ?case
    proof (cases "s1 nonce = Some t")
      case True
      with run_Cons.hyps(1) run_Cons.prems(1) show ?thesis
      proof (cases rule: auth_step.cases)
        case (accept clock r bn)
        then show ?thesis using True run_Cons.prems(1)
          by (cases bn) (auto simp: authenticate_Some purge_Some split: if_splits)
      next
        case (refuse clock r)
        then show ?thesis using True run_Cons.prems(1) authenticate_None [OF refuse(2)] by (auto simp: purge_Some)
      qed
    qed (use run_Cons in auto)
  qed simp
  then show ?thesis using assms by blast
qed

theorem cache_from_acceptances_witness:
  "\<exists>s. run (auth_step ex_handler) Map.empty [Accepted ex_ahead (\<lambda>_. ex_later 0), Accepted ex_ahead (\<lambda>_. ex_later 210)] s \<and>
     s ''other'' = None"
proof -
  obtain s where s: "run (auth_step ex_handler) Map.empty ([Accepted ex_ahead (\<lambda>_. ex_later 0), Accepted ex_ahead (\<lambda>_. ex_later 210)]) s"
    by (rule exE [OF ex_ahead_replay])
  have "hq_Nonce ex_ahead = ''n1''" by (simp add: ex_ahead_def)
  moreover have "hq_Nonce ex_ahead = ''other''" if "s ''other'' = Some t" for t
    using cache_from_acceptances [OF s that] by auto
  ultimately have "s ''other'' = None" by (cases "s ''other''") simp_all
  then show ?thesis by (intro exI [of _ s] conjI s)
qed

text \<open>The handler is live for honest requests: an authentic request whose nonce is not in the
  cache, or was recorded more than three minutes ago, is accepted, and its nonce is recorded with
  the reading of the clock taken for it.\<close>

theorem fresh_request_accepted:
  assumes "authentic h (clock 0) r body"
    and "case seen (hq_Nonce r) of None \<Rightarrow> True | Some t \<Rightarrow> inst t + 3 * Minute < inst (clock 1)"
  shows "\<exists>seen'. authenticate h clock seen r = (Some (body, hq_Nonce r), seen') \<and> seen' (hq_Nonce r) = Some (UTC (clock 2))"
  using assms by (auto simp: authenticate_Some purge_def Before_def AddT_def UTC_def split: option.splits)

theorem fresh_request_accepted_witness:
  "fst (authenticate ex_handler (\<lambda>_. ex_later 0) Map.empty ex_ahead) = Some (''{}'', ''n1'')"
  using fresh_request_accepted [of ex_handler "\<lambda>_. ex_later 0" ex_ahead "''{}''" Map.empty, OF ex_ahead_authentic]
  by (auto simp: ex_ahead_def)

section \<open>Requests and responses\<close>

text \<open>C15: A request that does not authenticate reaches nothing behind the handler: on a route it is
  answered with 401 and off the routes with 404, it adds nothing to the cache, and the answer and
  the cache are those of every other handler of the release, whatever its broker, action and
  discovery implementations (behind the same routes) and in every context.\<close>

theorem unauthorized_not_served:
  assumes "fst (authenticate h clock seen r) = None"
  shows "fst (serve h ctx clock seen r) =
      (if hq_Path r \<in> routes h then http_Error ''unauthorized'' 401 else http_Error ''404 page not found'' 404) \<and>
    snd (serve h ctx clock seen r) \<subseteq>\<^sub>m seen \<and>
    (\<forall>h' ctx'. same_release h h' \<longrightarrow> serve h' ctx' clock seen r = serve h ctx clock seen r)"
proof -
  obtain seen' where a: "authenticate h clock seen r = (None, seen')"
    using assms by (cases "authenticate h clock seen r") auto
  have le: "seen' \<subseteq>\<^sub>m seen" using authenticate_None [OF a] purge_le by auto
  have "serve h' ctx' clock seen r =
      (if hq_Path r \<in> routes h then (http_Error ''unauthorized'' 401, seen') else (http_Error ''404 page not found'' 404, seen))"
    if "same_release h h'" for h' ctx'
    using that a by (simp add: serve_not_found serve_refused same_release_authenticate same_release_routes)
  moreover have "same_release h h" by (simp add: same_release_def)
  ultimately show ?thesis using le by simp
qed

theorem unauthorized_not_served_witness:
  "serve (ex_handler\<lparr>hh_Implementation := Some ex_prepares\<rparr>) ex_context (\<lambda>_. ex_later 241) Map.empty ex_ahead =
     serve ex_handler ex_context (\<lambda>_. ex_later 241) Map.empty ex_ahead \<and>
   fst (serve ex_handler ex_context (\<lambda>_. ex_later 241) Map.empty ex_ahead) = http_Error ''unauthorized'' 401"
proof -
  have "\<not> authentic ex_handler (ex_later 241) ex_ahead body" for body
    by (simp add: authentic_def ex_ahead_def VerifySignature_ok ex_ahead_time UTC_def Minute_def Second_def)
  then have "fst (authenticate ex_handler (\<lambda>_. ex_later 241) Map.empty ex_ahead) = None"
    by (cases "authenticate ex_handler (\<lambda>_. ex_later 241) Map.empty ex_ahead" rule: prod.exhaust)
      (metis authenticate_Some fst_conv option.exhaust surj_pair)
  note refused = unauthorized_not_served [OF this]
  have "same_release ex_handler (ex_handler\<lparr>hh_Implementation := Some ex_prepares\<rparr>)" by (simp add: same_release_def)
  moreover have "hq_Path ex_ahead \<in> routes ex_handler" by (simp add: routes_def ex_ahead_def)
  ultimately show ?thesis using refused by simp
qed

text \<open>C16: A successful response is bound to the request it answers: it is only given to a request
  that authenticated, carries the handler's manifest digest and is signed, with the time of the
  response and its body, over the nonce of that request.\<close>

theorem success_response_bound:
  assumes "hr_Status (fst (serve h ctx clock seen r)) = 200"
  shows "(\<exists>body. authentic h (clock 0) r body) \<and>
    hr_ManifestDigest (fst (serve h ctx clock seen r)) = hh_ManifestDigest h \<and>
    hr_Signature (fst (serve h ctx clock seen r)) =
      Signature (hh_SharedSecret h) (hr_Timestamp (fst (serve h ctx clock seen r))) (hq_Nonce r) (hr_Body (fst (serve h ctx clock seen r)))"
proof (cases "authenticate h clock seen r")
  case (Pair auth seen')
  show ?thesis
  proof (cases auth)
    case None
    then show ?thesis using assms Pair by (simp add: serve_def handlers_refuse http_Error_def split: if_splits)
  next
    case (Some bn)
    then obtain body where a: "authenticate h clock seen r = (Some (body, hq_Nonce r), seen')" and v: "authentic h (clock 0) r body"
      using Pair by (cases bn) (auto simp: authenticate_Some)
    have "\<exists>now value. fst (serve h ctx clock seen r) = respond h now (hq_Nonce r) value"
      using assms serve_answers [OF a] by (simp add: answers_def)
    then show ?thesis using assms v respond_200 by fastforce
  qed
qed

theorem success_response_bound_witness:
  "hr_ManifestDigest (fst (serve (ex_handler\<lparr>hh_Implementation := Some ex_prepares\<rparr>) ex_context (\<lambda>_. ex_now) Map.empty ex_prepare)) = ex_release"
proof -
  have "hr_Status (fst (serve (ex_handler\<lparr>hh_Implementation := Some ex_prepares\<rparr>) ex_context (\<lambda>_. ex_now) Map.empty ex_prepare)) = 200"
    by (rule ex_prepared)
  then show ?thesis using success_response_bound by (fastforce simp: ex_handler_def)
qed

section \<open>What the wire does to values\<close>

text \<open>C17: An explicit empty selection of resources, which validation refuses and which matches no
  resource, does not survive the wire: the member is omitted when it is marshalled, so the
  receiver reads an authorization without a selection, which is valid and matches every resource.
  Sending does not validate, so only the receiver's verdict remains.\<close>

theorem empty_selection_widens:
  assumes "Authorization_text a = Inr t" "Authorization_good d a" "d < maxNestingDepth" "list_all short_rule (au_Rules a)"
    and "au_ResourceIDs a = Some []" "Authorization_Validate (a\<lparr>au_ResourceIDs := None\<rparr>) = ok" "au_ResourcePrefixes a = []"
  shows "Authorization_Validate a \<noteq> ok \<and> \<not> MatchesResources resource (au_ResourcePrefixes a) (au_ResourceIDs a) \<and>
    (\<exists>b. decode_struct authorization_fields t zero_authorization = Some b \<and> Authorization_Validate b = ok \<and>
       MatchesResources resource (au_ResourcePrefixes b) (au_ResourceIDs b))"
proof -
  let ?b = "Authorization_received a"
  have b: "?b = Authorization_received (a\<lparr>au_ResourceIDs := None\<rparr>)"
    using assms(5) by (simp add: Authorization_received_def settle_def)
  have "Authorization_good d (a\<lparr>au_ResourceIDs := None\<rparr>)" using assms(2) by (simp add: Authorization_good_def)
  then have "Authorization_Validate ?b = ok" using authorization_received(1) assms(3,4,6) by (simp add: b)
  moreover have "MatchesResources resource (au_ResourcePrefixes ?b) (au_ResourceIDs ?b)"
    using assms(5,7) by (simp add: Authorization_received_def settle_def MatchesResources_iff)
  moreover have "decode_struct authorization_fields t zero_authorization = Some ?b"
    using authorization_codec.struct [OF assms(1-3)] .
  moreover have "Authorization_Validate a \<noteq> ok" using assms(5) by (simp add: Authorization_Validate_ok ValidateResourceSelection_ok)
  ultimately show ?thesis using assms(5) by (simp add: MatchesResources_iff ValidateResourceSelection_ok)
qed

theorem empty_selection_widens_witness:
  "Authorization_Validate (ex_authorization\<lparr>au_ResourceIDs := Some []\<rparr>) \<noteq> ok \<and>
   (\<exists>b. Authorization_Validate b = ok \<and> MatchesResources ''payroll'' (au_ResourcePrefixes b) (au_ResourceIDs b))"
proof -
  let ?a = "ex_authorization\<lparr>au_ResourceIDs := Some []\<rparr>"
  have f: "au_Rules ex_authorization = [ex_rule]" "au_ResourcePrefixes ex_authorization = []" by (simp_all add: ex_authorization_def)
  obtain t where "Authorization_text ex_authorization = Inr t" using ex_authorization_fits by (auto simp: fits_def)
  then have "\<exists>t. Authorization_text ?a = Inr t" by (auto simp: Authorization_text_def and_then_Inr)
  then obtain t where t: "Authorization_text ?a = Inr t" ..
  have "Authorization_good 7 ?a" using ex_authorization_good [of 0] by (simp add: Authorization_good_def)
  moreover have "Authorization_Validate (?a\<lparr>au_ResourceIDs := None\<rparr>) = ok"
    using ex_authorization_ok [unfolded Authorization_Validate_ok] by (simp add: Authorization_Validate_ok ValidateResourceSelection_ok)
  ultimately show ?thesis using empty_selection_widens [OF t, of 7 "''payroll''"] ex_short f
    by (auto simp: maxNestingDepth_def)
qed

text \<open>C18: A configuration within the decoder's 64 KiB can leave it on the wire: marshalling escapes
  angle brackets and ampersands to six bytes each, so a configuration of 20 KB that the sender
  accepts is refused by the receiver, which decodes the escaped text.\<close>

theorem escaping_exceeds_bounds:
  "let raw = ''{\"a\":\"'' @ replicate 20000 (CHR ''<'') @ ''\"}'' in
     decodeParameterJSON raw = Inr (JObject [(''a'', JString (replicate 20000 (CHR ''<'')))]) \<and>
     raw_text raw = Inr (sent raw) \<and> (\<exists>e. decodeParameterJSON (sent raw) = Inl (Error e))"
proof -
  have scan: "scan_string (replicate n (CHR ''<'') @ CHR 0x22 # r) = Some (replicate n (CHR ''<''), r)" for n r
    by (induction n) (simp_all add: prepend_def Let_def)
  have esc: "compact True (replicate n (CHR ''<'') @ s) = concat (replicate n (ascii_escape (CHR ''<''))) @ compact True s" for n s
    by (induction n) (simp_all add: compact_html)
  define w where "w = replicate 20000 (CHR ''<'')"
  define raw where "raw = ''{\"a\":\"'' @ w @ ''\"}''"
  have "parse_json raw = Some (JObject [(''a'', JString w)])"
    using scan [of 20000 "''}''"] by (simp add: raw_def w_def [symmetric] json_eval)
  moreover have "length w = 20000" by (simp add: w_def)
  ultimately have d: "decodeParameterJSON raw = Inr (JObject [(''a'', JString w)])" "json_Valid raw" "raw \<noteq> []"
    by (simp_all add: decodeParameterJSON_def readParameterValue.simps json_Valid_def raw_def)
  have "sent raw = ''{\"a\":\"'' @ concat (replicate 20000 (ascii_escape (CHR ''<''))) @ ''\"}''"
    using esc [of 20000 "''\"}''"]
    by (simp add: raw_def w_def [symmetric] sent_def compact_open compact_close compact_copied copied_def compact_token is_ws_def)
  moreover have "length (ascii_escape (CHR ''<'')) = 6" by (simp add: ascii_escape_def)
  then have "length (concat (replicate n (ascii_escape (CHR ''<'')))) = 6 * n" for n by (induction n) simp_all
  ultimately have "length (sent raw) > 64 * 1024" by simp
  then have "\<exists>e. decodeParameterJSON (sent raw) = Inl (Error e)" by (simp add: decodeParameterJSON_def)
  then have "decodeParameterJSON raw = Inr (JObject [(''a'', JString w)]) \<and> raw_text raw = Inr (sent raw) \<and>
      (\<exists>e. decodeParameterJSON (sent raw) = Inl (Error e))" using d by (simp add: raw_text_def sent_def)
  then show ?thesis unfolding Let_def raw_def w_def .
qed

section \<open>Exact numbers\<close>

text \<open>C19: The canonical text is a normal form for the equality of parameter values: two decoded
  texts have the same canonical text exactly when the comparison that ceilings use calls them
  equal (numbers by value, objects by members in any order, arrays in order).\<close>

theorem canonical_text_normal_form:
  assumes "decodeParameterJSON r = Inr v" "decodeParameterJSON s = Inr w"
  shows "Marshal_any (canonicalDiscoveryNumbers v) = Marshal_any (canonicalDiscoveryNumbers w) \<longleftrightarrow> parameterEqual v w"
  by (rule canonical_text_same [OF assms])

theorem canonical_text_normal_form_witness:
  "Marshal_any (canonicalDiscoveryNumbers (JNumber ''5'')) = Marshal_any (canonicalDiscoveryNumbers (JNumber ''5''))
     \<longleftrightarrow> parameterEqual (JNumber ''5'') (JNumber ''5'')"
  by (rule canonical_text_normal_form) (rule ex_numbers)+

text \<open>C20: For discovery and connection-verification dispatches the request digest identifies the
  request exactly: if two requests have a digest and it is the same, then both decode strictly and
  are equal as parameter values, unless their canonical texts are a SHA-256 collision; and two
  requests that decode to equal values have a digest, and the same one.\<close>

theorem exact_dispatch_digest:
  assumes "phase \<in> exact_phases"
  shows "(\<forall>d. DispatchRequestDigest phase r = Inr d \<and> DispatchRequestDigest phase s = Inr d \<longrightarrow>
      (\<exists>v w. decodeParameterJSON r = Inr v \<and> decodeParameterJSON s = Inr w \<and> (parameterEqual v w \<or>
         sha_collision (Marshal_any (canonicalDiscoveryNumbers v)) (Marshal_any (canonicalDiscoveryNumbers w))))) \<and>
    (\<forall>v w. decodeParameterJSON r = Inr v \<and> decodeParameterJSON s = Inr w \<and> parameterEqual v w \<longrightarrow>
      (\<exists>d. DispatchRequestDigest phase r = Inr d \<and> DispatchRequestDigest phase s = Inr d))"
proof (intro conjI allI impI)
  fix d assume "DispatchRequestDigest phase r = Inr d \<and> DispatchRequestDigest phase s = Inr d"
  then obtain v w where v: "decodeParameterJSON r = Inr v" "decodeParameterJSON s = Inr w"
    and d: "sha_digest (Marshal_any (canonicalDiscoveryNumbers v)) = sha_digest (Marshal_any (canonicalDiscoveryNumbers w))"
    using assms by (auto simp: DispatchRequestDigest_iff)
  then show "\<exists>v w. decodeParameterJSON r = Inr v \<and> decodeParameterJSON s = Inr w \<and> (parameterEqual v w \<or>
      sha_collision (Marshal_any (canonicalDiscoveryNumbers v)) (Marshal_any (canonicalDiscoveryNumbers w)))"
    using sha_digest_binding [OF d] canonical_text_same [OF v] by blast
next
  fix v w assume "decodeParameterJSON r = Inr v \<and> decodeParameterJSON s = Inr w \<and> parameterEqual v w"
  then show "\<exists>d. DispatchRequestDigest phase r = Inr d \<and> DispatchRequestDigest phase s = Inr d"
    using assms canonical_text_same [of r v s w] by (auto simp: DispatchRequestDigest_iff)
qed

theorem exact_dispatch_digest_witness:
  "\<exists>d. DispatchRequestDigest OutboundPhaseDiscoverResources ''5'' = Inr d \<and>
     DispatchRequestDigest OutboundPhaseDiscoverResources ''5'' = Inr d"
proof -
  have "param_value (JNumber ''5'')" using decode_sound [OF ex_numbers(1)] by blast
  then have "parameterEqual (JNumber ''5'') (JNumber ''5'')" by (rule parameterEqual_refl)
  moreover have "OutboundPhaseDiscoverResources \<in> exact_phases" by (simp add: exact_phases_def)
  ultimately show ?thesis
    using exact_dispatch_digest [of OutboundPhaseDiscoverResources "''5''" "''5''", THEN conjunct2] ex_numbers(1) by blast
qed

text \<open>C21: The digest of a typed action decodes its parameters to doubles before hashing, so it
  does not bind the exact parameters: amounts that differ by one above 2^53 have the same digest
  for every capability, operation, resource and environment, though the exact comparison of
  ceilings tells them apart.\<close>

theorem action_digest_rounds_numbers:
  "ActionDigest c operation resource environment ''{\"amount\":9007199254740993}'' =
     ActionDigest c operation resource environment ''{\"amount\":9007199254740992}'' \<and>
   \<not> parameterEqual (JNumber ''9007199254740993'') (JNumber ''9007199254740992'')"
proof -
  have parse: "parse_json ''{\"amount\":9007199254740993}'' = Some (JObject [(''amount'', JNumber ''9007199254740993'')])"
    "parse_json ''{\"amount\":9007199254740992}'' = Some (JObject [(''amount'', JNumber ''9007199254740992'')])"
    by (simp_all add: json_eval)
  have "ParseFloat ''9007199254740993'' = ParseFloat ''9007199254740992''" by (simp add: float_eval)
  then have "Unmarshal_any ''{\"amount\":9007199254740993}'' = Unmarshal_any ''{\"amount\":9007199254740992}''"
    by (simp add: Unmarshal_any_def parse)
  moreover have "compareNumber ''9007199254740993'' ''9007199254740992'' = Inr 1"
    by (simp add: compareNumber_def value_eval)
  ultimately show ?thesis
    by (simp add: ActionDigest_def parameterEqual.simps [of "JNumber ''9007199254740993''"])
qed

section \<open>Digests of actions and releases\<close>

text \<open>C22: A capability digest binds every field of the capability: two capabilities with the same
  digest agree on reference, operation, lifetime, reversibility, discovery contract and semantics,
  and their schemas have the same JSON value, unless the digested texts are a SHA-256 collision.\<close>

theorem capability_digest_binds:
  assumes "ActionCapabilityDigest a = Inr d" "ActionCapabilityDigest b = Inr d" "wf_schemas a" "wf_schemas b"
  shows "same_capability a b \<or> sha_collision (json_text (ActionCapability_json a)) (json_text (ActionCapability_json b))"
  using capability_binding.digest_binds [OF assms] by (auto simp: capability_encoding_def)

theorem capability_digest_binds_witness:
  "same_capability ex_capability ex_capability \<or>
     sha_collision (json_text (ActionCapability_json ex_capability)) (json_text (ActionCapability_json ex_capability))"
  by (rule capability_digest_binds) simp_all

text \<open>C23: A release digest binds the whole manifest in the same way: publisher, release, provider,
  broker, renderer, credential contract and every published capability.\<close>

theorem release_digest_binds:
  assumes "Digest m = Inr d" "Digest n = Inr d" "manifest_utf8 m" "manifest_utf8 n"
  shows "same_manifest m n \<or> sha_collision (json_text (Manifest_json m)) (json_text (Manifest_json n))"
  using manifest_binding.digest_binds [OF assms] by (auto simp: manifest_encoding_def Canonical_iff)

theorem release_digest_binds_witness: "same_manifest ex_manifest ex_manifest \<or>
    sha_collision (json_text (Manifest_json ex_manifest)) (json_text (Manifest_json ex_manifest))"
  by (rule release_digest_binds) (simp_all add: Digest_iff)

text \<open>C24: Signing and verifying fit together: for an Ed25519 pair, the manifest that a publisher
  signs verifies for the trusted publisher with that identity, key identity and public key.\<close>

theorem signed_release_verifies:
  assumes "signs_for ed25519_Sign ed25519_Verify privateKey publicKey"
    and "Sign ed25519_Sign m privateKey = Inr s"
  shows "Verify ed25519_Verify s
    \<lparr> tp_ID = pu_ID (ma_Publisher m), tp_KeyID = pu_KeyID (ma_Publisher m), tp_PublicKey = publicKey \<rparr> = ok"
  using assms by (auto simp: Sign_iff Verify_iff Digest_iff signs_for_def)

theorem signed_release_verifies_witness:
  "Verify (\<lambda>k m s. s = k @ m)
     \<lparr> sm_Manifest = ex_manifest, sm_Digest = sha_digest (json_text (Manifest_json ex_manifest)),
       sm_Signature = RawURL_EncodeToString (replicate 32 CHR ''k'' @ json_text (Manifest_json ex_manifest)) \<rparr>
     \<lparr> tp_ID = ''acme'', tp_KeyID = ''k1'', tp_PublicKey = replicate 32 CHR ''k'' \<rparr> = ok"
  using signed_release_verifies [of "\<lambda>k m. replicate 32 CHR ''k'' @ m" "\<lambda>k m s. s = k @ m"
      "replicate 64 CHR ''s''" "replicate 32 CHR ''k''" ex_manifest]
  by (simp add: signs_for_def Sign_iff ex_manifest_def [THEN arg_cong, of ma_Publisher])

text \<open>C25: Verification is sound: a verified manifest is valid, comes from the trusted publisher and
  key, and its canonical bytes are signed under the trusted public key; and any two manifests that
  verify with one digest are the same, unless their canonical bytes are a SHA-256 collision.\<close>

theorem verified_release_sound:
  assumes "Verify ed25519_Verify s t = ok"
  shows "Manifest_Validate (sm_Manifest s) = ok \<and>
    ma_Publisher (sm_Manifest s) = \<lparr> pu_ID = tp_ID t, pu_KeyID = tp_KeyID t \<rparr> \<and>
    (\<exists>bytes sig. Canonical (sm_Manifest s) = Inr bytes \<and> sm_Digest s = sha_digest bytes \<and>
       RawURL_DecodeString (sm_Signature s) = Some sig \<and> ed25519_Verify (tp_PublicKey t) bytes sig) \<and>
    (\<forall>s'. Verify ed25519_Verify s' t = ok \<and> sm_Digest s' = sm_Digest s \<and>
       manifest_utf8 (sm_Manifest s) \<and> manifest_utf8 (sm_Manifest s') \<longrightarrow>
       same_manifest (sm_Manifest s) (sm_Manifest s') \<or>
       sha_collision (json_text (Manifest_json (sm_Manifest s))) (json_text (Manifest_json (sm_Manifest s'))))"
proof -
  have "same_manifest m n \<or> sha_collision (json_text (Manifest_json m)) (json_text (Manifest_json n))"
    if "Digest m = Inr d" "Digest n = Inr d" "manifest_utf8 m" "manifest_utf8 n" for m n d
    using manifest_binding.digest_binds [OF that] by (auto simp: manifest_encoding_def Canonical_iff)
  then have two: "\<forall>s'. Verify ed25519_Verify s' t = ok \<and> sm_Digest s' = sm_Digest s \<and>
       manifest_utf8 (sm_Manifest s) \<and> manifest_utf8 (sm_Manifest s') \<longrightarrow>
       same_manifest (sm_Manifest s) (sm_Manifest s') \<or>
       sha_collision (json_text (Manifest_json (sm_Manifest s))) (json_text (Manifest_json (sm_Manifest s')))"
    using assms by (metis Verify_iff)
  have "ma_Publisher (sm_Manifest s) = \<lparr> pu_ID = tp_ID t, pu_KeyID = tp_KeyID t \<rparr>"
    using assms by (intro Publisher.equality) (simp_all add: Verify_iff)
  then show ?thesis using assms two by (auto simp: Verify_iff Digest_iff Canonical_iff Manifest_Validate_ok)
qed

theorem verified_release_sound_witness:
  "Manifest_Validate (sm_Manifest
     \<lparr> sm_Manifest = ex_manifest, sm_Digest = sha_digest (json_text (Manifest_json ex_manifest)),
       sm_Signature = RawURL_EncodeToString ''sig'' \<rparr>) = ok"
  using verified_release_sound [of "\<lambda>k m s. s = ''sig''"
      "\<lparr> sm_Manifest = ex_manifest, sm_Digest = sha_digest (json_text (Manifest_json ex_manifest)),
         sm_Signature = RawURL_EncodeToString ''sig'' \<rparr>"
      "\<lparr> tp_ID = ''acme'', tp_KeyID = ''k1'', tp_PublicKey = replicate 32 CHR ''k'' \<rparr>"]
  by (simp add: Verify_iff Digest_iff ex_manifest_def [THEN arg_cong, of ma_Publisher])

section \<open>Ceilings on parameters\<close>

text \<open>C26: A request lies within the ceilings of a rule list exactly when every rule has a valid
  capability selection (and, where it selects capabilities, the request names one by reference
  and digest), and for every matching rule with a ceiling the ceiling is valid, the parameters
  decode strictly to an object, and that object has only declared fields, all the required ones,
  each of its type, within its bounds and among its allowed values.\<close>

theorem within_capability_rules_iff:
  "ParametersWithinCapabilityRules rules provider operation resource capability raw = Inr True \<longleftrightarrow>
     (\<forall>r \<in> set rules. usable r capability \<and>
        (\<forall>l. ar_ParameterLimits r = Some l \<longrightarrow> MatchesAuthorizationRule r provider operation resource capability \<longrightarrow>
           ParameterLimits_Validate l = ok \<and>
           (\<exists>vals. decodeParameterJSON raw = Inr (JObject vals) \<and> permits (items (pls_Fields l)) vals)))"
  unfolding Within_True Matches_True ..

theorem within_capability_rules_iff_witness:
  "ParametersWithinCapabilityRules [ex_rule] ''db'' ''db.read'' ''orders'' ex_selector ex_parameters = Inr True"
  unfolding within_capability_rules_iff using ex_limits_match [unfolded Matches_True]
  by (simp add: ex_rule_def [THEN arg_cong, of ar_ParameterLimits])

text \<open>C27: Ceilings only accumulate: a request that lies within a rule list lies within every list
  of rules taken from it, in whatever order and however often.\<close>

theorem within_rules_antimono:
  assumes "ParametersWithinCapabilityRules rules provider operation resource capability raw = Inr True"
    and "set fewer \<subseteq> set rules"
  shows "ParametersWithinCapabilityRules fewer provider operation resource capability raw = Inr True"
  using assms unfolding Within_True by blast

theorem within_rules_antimono_witness:
  "ParametersWithinCapabilityRules [ex_rule, ex_rule] ''db'' ''db.read'' ''orders'' ex_selector ex_parameters = Inr True"
  by (rule within_rules_antimono [OF ex_rule_within]) simp

text \<open>A consumer that cannot name capabilities fails closed: the check without capabilities
  refuses any rule list that binds one, and otherwise decides as the full check does, whatever
  capability that is given.\<close>

theorem legacy_within_rules:
  "ParametersWithinRules rules provider operation resource raw =
     (if \<exists>r \<in> set rules. ar_Capabilities r \<noteq> None then Inr False
      else ParametersWithinCapabilityRules rules provider operation resource capability raw)"
proof -
  have "ParametersWithinCapabilityRules rules provider operation resource c raw =
      ParametersWithinCapabilityRules rules provider operation resource d raw"
    if "\<forall>r \<in> set rules. ar_Capabilities r = None" for c d
    using that by (induction rules) (simp_all add: MatchesAuthorizationRule_def MatchesCapabilities_def result_iff cong: if_cong)
  then show ?thesis by (auto simp: ParametersWithinRules_def list_ex_iff)
qed

text \<open>C28: The parameter decoder lets through only values within its bounds: at most sixteen levels
  of nesting, number literals of at most 128 bytes with exponents of at most 128 that denote a
  rational, and objects whose member names are distinct, all from a text of at most 64 KiB.\<close>

theorem decoded_parameters_bounded:
  assumes "decodeParameterJSON raw = Inr v"
  shows "param_value v \<and> levels v \<le> 16 \<and> length raw \<in> {1 .. 65536}"
  using assms decode_sound [OF assms] by (auto simp: decodeParameterJSON_def Suc_le_eq split: if_splits)

theorem decoded_parameters_bounded_witness: "param_value (JObject [(''amount'', JNumber ''5'')])"
  using decoded_parameters_bounded [OF ex_parameters_read] by simp

text \<open>Every explicit value of a ceiling that validation accepts is itself admitted by the
  ceiling: no accepted ceiling lists a value that its own type or bounds refuse.\<close>

theorem allowed_values_usable:
  assumes "ParameterLimits_Validate p = ok" and "(key, l) \<in> set (items (pls_Fields p))"
    and "raw \<in> set (items (pl_AllowedValues l))"
  shows "\<exists>v. decodeParameterJSON raw = Inr v \<and> match_field l (Some v) = Inr True"
proof -
  have "check_limit key l = ok" using assms(1,2) by (auto simp: Validate_ok items_def)
  then show ?thesis using allowed_value_admitted [OF _ assms(3)] by (auto simp: match_field_True)
qed

theorem allowed_values_usable_witness:
  "\<exists>v. decodeParameterJSON ''6e0'' = Inr v \<and> match_field ex_limit (Some v) = Inr True"
  using allowed_values_usable [OF ex_limits_ok, of "''amount''" ex_limit "''6e0''"]
  by (simp add: ex_limits_def ex_limit_def items_def)

text \<open>C29: On ceilings as \<open>encoding/json\<close> decodes them (bounds are number literals), matching
  always returns a verdict: no error, no panic, for any parameter text.\<close>

theorem matching_total:
  assumes "literal_limits p"
  shows "\<exists>b. ParameterLimits_Matches p raw = Inr b"
  by (rule Matches_total [OF assms])

theorem matching_total_witness: "\<exists>b. ParameterLimits_Matches ex_limits ''[1,'' = Inr b"
  by (rule matching_total) simp

text \<open>C30: A ceiling set in Go code with a bound that is padded with a space passes the check of
  the bound itself, since the decoder skips the space, but has no rational: comparing the two
  bounds dereferences nil and the validation panics instead of returning an error.\<close>

theorem padded_bound_panics:
  "check_bound ''number'' (Some '' 1'') = ok \<and>
   check_range \<lparr> pl_Type = ''number'', pl_Optional = False, pl_AllowedValues = None,
     pl_Minimum = Some '' 1'', pl_Maximum = Some ''10'' \<rparr> = Inl Panic"
proof -
  have "decodeParameterJSON '' 1'' = Inr (JNumber ''1'')" "SetString '' 1'' = None"
    by (simp_all add: decode_eval value_eval)
  moreover have "parameterType (JNumber ''1'') ''number''" "parameterType (JNumber ''10'') ''number''"
    by (simp_all add: parameterType_def ex_values)
  ultimately show ?thesis by (simp add: check_range_def check_bound_def ex_numbers compareNumber_def)
qed

section \<open>Selections and authorizations\<close>

text \<open>A selection by exact resource identities matches exactly the listed resources and only if
  the whole list is well formed: nonempty, without duplicates, each identity trimmed and free of
  line breaks, and not mixed with prefixes; then order does not matter. Without exact identities
  an empty prefix list matches every resource and a nonempty one those with a listed prefix.\<close>

theorem resource_selection:
  "MatchesResources r prefixes ids =
     (case ids of
        Some xs \<Rightarrow> xs \<noteq> [] \<and> prefixes = [] \<and> list_all exact_id xs \<and> distinct xs \<and> r \<in> set xs
      | None \<Rightarrow> prefixes = [] \<or> list_ex (HasPrefix r) prefixes)"
  by (auto simp: MatchesResources_iff result_iff list_all_iff list_ex_iff split: option.split)

text \<open>A capability selection binds a reference to one implementation: two capabilities that
  the same selection matches and that have the same reference have the same digest.\<close>

theorem selected_capability_exact:
  assumes "MatchesCapabilities c (Some selected)" "MatchesCapabilities d (Some selected)"
    and "cs_Ref c = cs_Ref d"
  shows "c = d"
  using assms selection_functional [of selected c d] by (auto simp: MatchesCapabilities_iff)

theorem selected_capability_exact_witness:
  "MatchesCapabilities ex_selector (Some [ex_selector]) \<and> ex_selector = \<lparr> cs_Ref = ''db/read'', cs_Digest = ex_digest \<rparr>"
proof -
  have m: "MatchesCapabilities ex_selector (Some [ex_selector])" by (simp add: MatchesCapabilities_iff result_iff)
  then have "MatchesCapabilities \<lparr> cs_Ref = ''db/read'', cs_Digest = ex_digest \<rparr> (Some [ex_selector])"
    by (simp add: ex_selector_def)
  from selected_capability_exact [OF m this] m show ?thesis by (simp add: ex_selector_def)
qed

text \<open>A release supports an authorization exactly when the authorization is valid, the
  declared features are known and not repeated, and every narrowing the authorization uses
  (exact resources, parameter ceilings, capability bindings) is declared.\<close>

theorem support_iff:
  "CheckAuthorizationSupport a features = ok \<longleftrightarrow>
     Authorization_Validate a = ok \<and> set features \<subseteq> known_features \<and> distinct features \<and>
     needed_features a \<subseteq> set features"
  by (auto simp: CheckAuthorizationSupport_ok ValidateAuthorizationFeatures_ok)

text \<open>A release that declares no features is never given an authorization it would enforce
  too widely: what it supports has no exact resources, no parameter ceilings and no capability
  bindings, in its scope or in any rule.\<close>

theorem legacy_release_unnarrowed:
  assumes "CheckAuthorizationSupport a [] = ok" "r \<in> set (au_Rules a)"
  shows "au_ResourceIDs a = None \<and> ar_ResourceIDs r = None \<and> ar_ParameterLimits r = None \<and> ar_Capabilities r = None"
  using assms unfolding CheckAuthorizationSupport_ok needed_features_def by (auto split: if_splits)

theorem legacy_release_unnarrowed_witness: "ar_ParameterLimits ex_plain_rule = None"
proof -
  have "CheckAuthorizationSupport (ex_authorization\<lparr>au_ResourceIDs := None, au_Rules := [ex_plain_rule]\<rparr>) [] = ok"
    unfolding CheckAuthorizationSupport_ok Authorization_Validate_ok needed_features_def
    by (simp add: ex_authorization_def result_iff ex_texts) (simp add: ex_plain_rule_def)
  then show ?thesis using legacy_release_unnarrowed [of _ ex_plain_rule] by simp
qed

text \<open>What authorization validation decides: the identity of the profile and the release, a
  nonempty environment list and rule list without empty matchers, a well formed resource
  selection, rules that are each well formed (a ceiling only on an allow or typed rule, and valid)
  and whose identifiers are distinct. The order of the rules does not change the verdict.\<close>

theorem authorization_valid_iff:
  "Authorization_Validate a = ok \<longleftrightarrow>
     ValidateResourceSelection (au_ResourcePrefixes a) (au_ResourceIDs a) = ok \<and>
     digestPattern (au_ProfileDigest a) \<and> \<not> list_ex blank [au_PolicyRelease a, au_Provider a, au_AccountRef a] \<and>
     au_Environments a \<noteq> [] \<and> au_Rules a \<noteq> [] \<and> \<not> list_ex blank (au_Environments a @ au_ResourcePrefixes a) \<and>
     list_all rule_ok (au_Rules a) \<and> distinct (map ar_ID (au_Rules a))"
  unfolding Authorization_Validate_ok list_ex_iff list_all_iff by auto

section \<open>Assessment of effects\<close>

text \<open>C31: For a known preset and a valid capability, assessment returns the prerequisite that the
  reference reading \<open>required\<close> gives for the capability's declared effects (undeclared effects
  count as unknown), bound to the capability's digest.\<close>

theorem assessment_is_required:
  assumes "preset \<in> presets" "ActionCapabilityDigest c = Inr d"
  shows "snd (AssessCapabilityEffects preset c) = ok \<and>
     ea_Requirement (fst (AssessCapabilityEffects preset c)) = required preset (effects_of c) \<and>
     ea_CapabilityDigest (fst (AssessCapabilityEffects preset c)) = d"
  using Assess_valid [OF assms] by blast

theorem assessment_is_required_witness:
  "ea_Requirement (fst (AssessCapabilityEffects PolicyReadOnly ex_capability)) = RequirementExistingChecks"
proof -
  have "effects_of ex_capability = {EffectRead}" by (simp add: effects_of_def ex_capability_def)
  then show ?thesis
    using assessment_is_required [of PolicyReadOnly ex_capability ex_digest]
    by (simp add: presets_def required_def consequential_effects_def effect_defs)
qed

text \<open>C32: Assessment is monotone: a capability with more declared effects never needs less than
  one with fewer, and a stricter preset never needs less than a laxer one. The order is the
  strictness of the requirements.\<close>

theorem assessment_monotone:
  assumes "ActionCapability_Validate c = ok" "ActionCapability_Validate c' = ok" "effects_of c \<subseteq> effects_of c'"
    and "(p, p') \<in> {(PolicyDelegatedChanges, PolicyDelegatedChanges), (PolicyDelegatedChanges, PolicyReviewChanges),
           (PolicyDelegatedChanges, PolicyReadOnly), (PolicyReviewChanges, PolicyReviewChanges),
           (PolicyReviewChanges, PolicyReadOnly), (PolicyReadOnly, PolicyReadOnly)}"
  shows "ea_Requirement (fst (AssessCapabilityEffects p c)) \<le> ea_Requirement (fst (AssessCapabilityEffects p' c'))"
proof -
  have valid: "p \<in> presets" "p' \<in> presets" using assms(4) by (auto simp: presets_def)
  obtain d d' where d: "ActionCapabilityDigest c = Inr d" "ActionCapabilityDigest c' = Inr d'"
    using assms(1,2) by (simp add: ActionCapabilityDigest_iff)
  have "required p (effects_of c) \<le> required p' (effects_of c)"
    using assms(4) preset_order [of "effects_of c"] by (auto intro: order_trans)
  also have "\<dots> \<le> required p' (effects_of c')" by (rule required_mono) fact+
  finally show ?thesis using Assess_valid(2) valid d by simp
qed

theorem assessment_monotone_witness:
  "ea_Requirement (fst (AssessCapabilityEffects PolicyReviewChanges ex_capability))
     \<le> ea_Requirement (fst (AssessCapabilityEffects PolicyReadOnly ex_capability))"
  by (rule assessment_monotone) simp_all

text \<open>Assessment is no grant and fails closed: whatever the preset and the capability, the
  result never claims authority, it is an error exactly for an unknown preset or an invalid
  capability, and an error always comes with the blocked requirement.\<close>

theorem assessment_fails_closed:
  "\<not> ea_AuthorityGranted (fst (AssessCapabilityEffects preset c)) \<and>
   (snd (AssessCapabilityEffects preset c) = ok \<longleftrightarrow> preset \<in> presets \<and> ActionCapability_Validate c = ok) \<and>
   (snd (AssessCapabilityEffects preset c) = ok \<or>
      ea_Requirement (fst (AssessCapabilityEffects preset c)) = RequirementBlocked)"
  using Assess_authority Assess_ok_iff Assess_error_blocked by blast

section \<open>Releases\<close>

text \<open>Manifest validation decides exactly the declarative contract: protocol and compatibility,
  well formed identities, credential and renderer published together and each within its rules,
  an admissible broker, object schemas, valid capabilities with distinct references, and at least
  a credential or an action.\<close>

theorem manifest_valid_iff:
  "Manifest_Validate m = ok \<longleftrightarrow>
     ma_Protocol m = ManifestProtocol \<and> ma_Compatibility m = \<lparr> co_Protocol = ManifestProtocol, co_Major = 2 \<rparr> \<and>
     list_all identityPattern [pu_ID (ma_Publisher m), pu_KeyID (ma_Publisher m), ma_Release m, ma_Provider m] \<and>
     (case (ma_Credential m, ma_Renderer m) of
        (Some c, Some r) \<Rightarrow> credential_ok c r \<and> schema_ok (cr_PayloadSchema c)
      | (None, None) \<Rightarrow> ma_Actions m \<noteq> []
      | _ \<Rightarrow> False) \<and>
     check_broker (ma_Broker m) = ok \<and> schema_ok (ma_ConfigurationSchema m) \<and>
     list_all (\<lambda>a. ActionCapability_Validate a = ok) (ma_Actions m) \<and> distinct (map ac_Ref (ma_Actions m))"
  unfolding Manifest_Validate_ok manifest_ok_def list_all_iff
  by (cases "ma_Compatibility m") auto

text \<open>A valid release has one transport: either an inbound one with an absolute https endpoint
  without credentials and with no runtime artifact and no connection-verification exchange, or an
  outbound one without endpoint and with at least one artifact, each pinned by a digest and no two
  for the same kind and reference. Its renderer has at most one artifact per platform.\<close>

theorem valid_release_transport:
  assumes "Manifest_Validate m = ok"
  shows "(TransportMode (ma_Broker m) = BrokerTransportInboundHTTPS \<and> br_RuntimeArtifacts (ma_Broker m) = [] \<and>
       br_ConnectionVerification (ma_Broker m) = [] \<and>
       (\<exists>u. url_Parse (br_Endpoint (ma_Broker m)) = Some u \<and> url_Scheme u = ''https'' \<and> url_Host u \<noteq> [] \<and>
          url_User u = None) \<or>
     TransportMode (ma_Broker m) = BrokerTransportOutboundPull \<and> blank (br_Endpoint (ma_Broker m)) \<and>
       br_RuntimeArtifacts (ma_Broker m) \<noteq> [] \<and>
       list_all (\<lambda>a. digestPattern (rt_Digest a)) (br_RuntimeArtifacts (ma_Broker m)) \<and>
       distinct (map (\<lambda>a. (rt_Kind a, rt_Reference a)) (br_RuntimeArtifacts (ma_Broker m)))) \<and>
     (case ma_Renderer m of None \<Rightarrow> True | Some r \<Rightarrow> distinct (map (\<lambda>a. (ra_OS a, ra_Arch a)) (re_Artifacts r)))"
proof -
  have m: "manifest_ok m" using assms by (simp add: Manifest_Validate_ok)
  then have b: "check_broker (ma_Broker m) = ok" by (simp add: manifest_ok_def)
  have "distinct (map (\<lambda>a. rt_Kind a @ [CHR 0x00] @ rt_Reference a) xs) \<Longrightarrow>
      distinct (map (\<lambda>a. (rt_Kind a, rt_Reference a)) xs)" for xs
    by (auto simp: distinct_map inj_on_def)
  moreover have "(case ma_Renderer m of None \<Rightarrow> True | Some r \<Rightarrow> distinct (map (\<lambda>a. (ra_OS a, ra_Arch a)) (re_Artifacts r)))"
    using m by (auto simp: manifest_ok_def credential_ok_def split: option.splits)
  ultimately show ?thesis
    using b unfolding broker_ok by (auto simp: list_all_iff runtime_artifact_ok_def)
qed

theorem valid_release_transport_witness: "TransportMode (ma_Broker ex_manifest) = BrokerTransportOutboundPull"
proof -
  have "br_RuntimeArtifacts (ma_Broker ex_manifest) \<noteq> []" by (simp add: ex_manifest_def ex_broker_def)
  then show ?thesis using valid_release_transport [of ex_manifest] by (auto simp: Manifest_Validate_ok)
qed

text \<open>C33: A root endpoint that ends in a lone question mark or number sign passes the check that
  rejects queries and fragments, because its query and fragment are empty. The client appends the
  path of the protocol to that text, where it becomes the query or the fragment: every call of
  every client configured with it asks for the root path of the host, which no handler routes, and
  fails with status 404, whatever the message, the clocks and the implementations.\<close>

theorem empty_query_endpoint:
  assumes "host \<noteq> []" "list_all plain_char host" "mark \<in> {''?'', ''#''}" "path \<in> protocol_paths"
    and "hc_Endpoint c = ''https://'' @ host @ ''/'' @ mark"
    and "\<not> blank (hc_SharedSecret c)" "digestPattern (hc_ManifestDigest c)" "\<not> blank (hc_Release c)"
  shows "check_inbound \<lparr> br_Protocol = BrokerProtocol, br_Transport = BrokerTransportInboundHTTPS,
      br_Endpoint = hc_Endpoint c, br_RuntimeArtifacts = [], br_ConnectionVerification = [] \<rparr> = ok \<and>
    (\<exists>u. url_Parse (TrimRight (hc_Endpoint c) (CHR ''/'') @ path) = Some u \<and> url_Host u = host \<and> url_Path u = ''/'' \<and>
       url_RawQuery u @ url_Fragment u = path) \<and>
    call c (Inr nonce) cclock (network h ctx clock seen) path (Inr body) decode = fail ''external adapter returned 404''"
  using marked_endpoint_accepted [OF assms(1-3)] marked_endpoint_parsed [OF assms(2-4)]
    marked_endpoint_call [OF assms(2-8)] assms(5) by simp

theorem empty_query_endpoint_witness:
  "call (ex_client\<lparr>hc_Endpoint := ''https://h/?''\<rparr>) (Inr ''q1'') (\<lambda>n. ex_now) (network ex_server ex_context ex_clock Map.empty)
     ''/v1/prepare'' (Inr ''{}'') Some = fail ''external adapter returned 404''"
  by (rule empty_query_endpoint [of "''h''" "''?''", THEN conjunct2, THEN conjunct2])
    (simp_all add: plain_char_def is_lower_def between_def protocol_paths_def ex_client_def ex_blanks)

section \<open>Actions\<close>

text \<open>C34: An accepted execution request recomputes both digests and its authority is for exactly
  this action and capability: the request's digests are those of the capability and of the
  operation, resource, environment and parameters it carries, the authority names the same
  digests, is live, and expires at most the capability's lifetime (at most fifteen minutes) plus a
  second after the request's time.\<close>

theorem accepted_action_bound:
  assumes "ExecuteActionRequest_Validate r c = ok"
  shows "ActionCapabilityDigest c = Inr (ex_CapabilityDigest r) \<and>
    ActionDigest (ex_CapabilityDigest r) (ex_Operation r) (ex_Resource r) (ex_Environment r) (ex_Parameters r)
      = Inr (ex_ActionDigest r) \<and>
    aa_ActionDigest (ex_Authority r) = ex_ActionDigest r \<and> aa_CapabilityDigest (ex_Authority r) = ex_CapabilityDigest r \<and>
    inst (ex_Now r) < inst (aa_ExpiresAt (ex_Authority r)) \<and>
    inst (aa_ExpiresAt (ex_Authority r)) \<le> inst (ex_Now r) + (ac_MaximumTTLSeconds c + 1) * Second \<and>
    ac_MaximumTTLSeconds c \<in> {1 .. 900}"
proof -
  from assms have b: "binds_action c (ex_CapabilityRef r) (ex_CapabilityDigest r) (ex_ActionDigest r) (ex_Operation r)
       (ex_Resource r) (ex_Environment r) (ex_Parameters r)"
    and a: "ActionAuthority_Validate (ex_Authority r) (ex_Now r) (ex_ActionDigest r) (ex_CapabilityDigest r)
       (seconds (ac_MaximumTTLSeconds c)) = ok"
    by (simp_all add: ExecuteActionRequest_Validate_ok)
  then have t: "ac_MaximumTTLSeconds c \<in> {1 .. 900}"
    by (simp add: binds_action_def ActionCapabilityDigest_iff ActionCapability_Validate_ok)
  then have "seconds (ac_MaximumTTLSeconds c) + Second = (ac_MaximumTTLSeconds c + 1) * Second"
    by (simp add: seconds_exact distrib_right)
  moreover have "ActionCapabilityDigest c = Inr (ex_CapabilityDigest r)"
    "ActionDigest (ex_CapabilityDigest r) (ex_Operation r) (ex_Resource r) (ex_Environment r) (ex_Parameters r)
      = Inr (ex_ActionDigest r)"
    using b unfolding binds_action_def by blast+
  ultimately show ?thesis using a t by (simp add: ActionAuthority_Validate_ok add.assoc)
qed

theorem accepted_action_bound_witness: "aa_ActionDigest (ex_Authority ex_execute) = ex_ActionDigest ex_execute"
  using accepted_action_bound [OF ex_execute_ok] by blast

text \<open>C35: An authority cannot be moved to another action: two accepted requests whose authorities
  carry the same action digest are for the same operation, resource, environment, capability
  digest and (as doubles) parameters, unless the two hashed texts are a SHA-256 collision.\<close>

theorem authority_not_transferable:
  assumes "ExecuteActionRequest_Validate r c = ok" "ExecuteActionRequest_Validate r' c' = ok"
    and "aa_ActionDigest (ex_Authority r) = aa_ActionDigest (ex_Authority r')"
    and "list_all ValidString [ex_Operation r, ex_Resource r, ex_Environment r, ex_Operation r', ex_Resource r', ex_Environment r']"
  shows "\<exists>v v'. Unmarshal_any (ex_Parameters r) = Some v \<and> Unmarshal_any (ex_Parameters r') = Some v' \<and>
    (ex_CapabilityDigest r = ex_CapabilityDigest r' \<and> ex_Operation r = ex_Operation r' \<and> ex_Resource r = ex_Resource r' \<and>
       ex_Environment r = ex_Environment r' \<and> Marshal_any v = Marshal_any v' \<or>
     sha_collision (action_text (ex_CapabilityDigest r) (ex_Operation r) (ex_Resource r) (ex_Environment r) v)
       (action_text (ex_CapabilityDigest r') (ex_Operation r') (ex_Resource r') (ex_Environment r') v'))"
proof -
  note same = action_binding_texts [OF _ _ assms(4) [simplified]]
  show ?thesis
    using assms(1-3) by (intro same) (auto simp: ExecuteActionRequest_Validate_ok binds_action_def ActionAuthority_Validate_ok)
qed

theorem authority_not_transferable_witness:
  "\<exists>v. Unmarshal_any (ex_Parameters ex_execute) = Some v"
proof -
  have "list_all ValidString [''db.read'', ''orders'', ''prod'']" by (rule ascii_list) simp
  then show ?thesis
    using authority_not_transferable [OF ex_execute_ok ex_execute_ok] by (auto simp: ex_execute_def)
qed

section \<open>Lifetimes\<close>

text \<open>C36: Material that passes the completion check is live, expires within the lifetime its
  release declares (at most a day) from the time of the request, and never after the deadline of
  the task where the request has one; and a request with a deadline is only ever completed while
  that deadline lies ahead.\<close>

theorem issued_lifetime_bounds:
  assumes "ValidateIssuedLifetime r c m now = ok"
  shows "inst now < inst (mt_ExpiresAt m) \<and>
    inst (mt_ExpiresAt m) \<le> inst (is_Now r) + cr_MaximumTTLSeconds c * Second \<and> cr_MaximumTTLSeconds c \<in> {1 .. 86400} \<and>
    (case is_Lifetime r of
       None \<Rightarrow> cr_LifetimeProtocol c = []
     | Some l \<Rightarrow> cr_LifetimeProtocol c = CredentialLifetimeProtocol \<and> inst now < inst (cl_TaskExpiresAt l) \<and>
         inst (mt_ExpiresAt m) \<le> inst (cl_TaskExpiresAt l) \<and>
         inst (is_Now r) - 30 * Second \<le> inst now \<and> inst now < inst (is_Now r) + Minute)"
  using assms by (auto simp: IssuedLifetime_ok IssueLifetime_ok split: option.split)

theorem issued_lifetime_bounds_witness:
  "inst (mt_ExpiresAt ex_material) \<le> inst (is_Now ex_issue) + cr_MaximumTTLSeconds ex_credential * Second"
  using issued_lifetime_bounds [of ex_issue ex_credential ex_material ex_now]
  by (simp add: ex_issued_ok)

section \<open>Discovery\<close>

text \<open>C37: An accepted answer to an exact revalidation partitions the requested identities: each is
  reported as found or as missing and never both, nothing else is reported, and there is no next
  page.\<close>

theorem page_partitions_request:
  assumes "DiscoveryPage_Validate p r c now = ok" "dr_ResourceIDs r = Some ids"
  shows "mset ids = mset (found p) + mset (dp_MissingResourceIDs p) \<and> distinct ids \<and>
    set (found p) \<inter> set (dp_MissingResourceIDs p) = {} \<and> dp_NextCursor p = []"
proof -
  have v: "distinct (found p @ dp_MissingResourceIDs p)" "length ids = length (found p @ dp_MissingResourceIDs p)"
    "set ids \<subseteq> set (found p @ dp_MissingResourceIDs p)" "dp_NextCursor p = []"
    using assms by (auto simp: DiscoveryPage_Validate_ok)
  have "DiscoveryRequest_Validate r c = ok" using assms(1) request_digest_valid(1) by (auto simp: DiscoveryPage_Validate_ok)
  then have d: "distinct ids" using assms(2) by (auto simp: DiscoveryRequest_Validate_ok check_exact_ok)
  have "card (set ids) = card (set (found p @ dp_MissingResourceIDs p))" using v(1,2) d distinct_card by metis
  then have "set ids = set (found p @ dp_MissingResourceIDs p)" using v(3) by (intro card_subset_eq) simp_all
  then have "mset ids = mset (found p @ dp_MissingResourceIDs p)" using v(1) d set_eq_iff_mset_eq_distinct by blast
  then show ?thesis using v d by simp
qed

theorem page_partitions_request_witness:
  "mset [''orders'', ''users''] = mset (found ex_page) + mset (dp_MissingResourceIDs ex_page)"
  using page_partitions_request [OF ex_page_ok, of "[''orders'', ''users'']"] by (simp add: ex_exact_def)

text \<open>C38: Discovery evidence is short lived whatever the capability declares. A request that is
  accepted at two readings of the clock is accepted within five and a half minutes, never at a
  reading more than thirty seconds before its own time and never once it is as old as the
  capability's declared age. The same holds, by the time of its observation, for a page.\<close>

theorem discovery_evidence_window:
  "(ValidateAt r c now = ok \<and> ValidateAt r c later = ok \<longrightarrow>
      inst later - inst now \<le> 330 * Second \<and> inst (dr_Now r) \<le> inst now + 30 * Second \<and>
      (\<exists>d. ac_Discovery c = Some d \<and> inst later < inst (dr_Now r) + rd_MaximumAgeSeconds d * Second)) \<and>
   (DiscoveryPage_Validate p q c now = ok \<and> DiscoveryPage_Validate p q c later = ok \<longrightarrow>
      inst later - inst now \<le> 330 * Second \<and> inst (dp_ObservedAt p) \<le> inst now + 30 * Second \<and>
      (\<exists>d. ac_Discovery c = Some d \<and> inst later < inst (dp_ObservedAt p) + rd_MaximumAgeSeconds d * Second))"
  using request_span [of r c now later] page_span [of p q c now later] request_age [of r c later] page_age [of p q c later]
  by blast

theorem discovery_evidence_window_witness:
  "inst (ex_later 20) - inst (ex_later 10) \<le> 330 * Second \<and> inst (dr_Now ex_exact) \<le> inst (ex_later 10) + 30 * Second \<and>
   inst (dp_ObservedAt ex_page) \<le> inst (ex_later 10) + 30 * Second"
  using discovery_evidence_window [of ex_exact ex_search "ex_later 10" "ex_later 20" ex_page ex_exact] ex_page_later ex_exact_now_ok
  by simp

text \<open>C39: The discovery service consults its implementation only for requests it admits (an intact
  release, a live context, the release and a capability of the request, a fresh and valid
  request), and what it returns is what the implementation answered and a valid page for the
  request at the time of the answer.\<close>

theorem discovery_service_guarded:
  "(Service_DiscoverResources (s\<lparr>dsv_Implementation := Some i\<rparr>) ctx q now \<noteq>
      Service_DiscoverResources (s\<lparr>dsv_Implementation := Some j\<rparr>) ctx q now \<longrightarrow> discovery_admits s ctx q now) \<and>
   (\<forall>a. Service_DiscoverResources (s\<lparr>dsv_Implementation := Some i\<rparr>) ctx q now = Inr a \<longrightarrow>
      oc_Result (discovery_ask s ctx i q now) = Inr a \<and>
      (\<exists>c \<in> set (ma_Actions (dsv_Manifest s)). ac_Ref c = dr_CapabilityRef q \<and>
         DiscoveryPage_Validate a q c (AddT now (oc_Elapsed (discovery_ask s ctx i q now))) = ok))"
  using discovery_service.consulted_admitted discovery_service.served unfolding discovery_sound_def by blast

theorem discovery_service_guarded_witness: "discovery_admits ex_service ex_context ex_exact ex_now"
proof -
  define silent :: "go_context \<Rightarrow> DiscoveryRequest \<Rightarrow> DiscoveryPage outcome" where
    "silent = (\<lambda>_ _. \<lparr> oc_Result = fail [], oc_Elapsed = 0, oc_Cancelled = False \<rparr>)"
  note guarded = discovery_service_guarded [of ex_answer ex_service ex_context ex_exact ex_now silent]
  have "Service_DiscoverResources (ex_service\<lparr>dsv_Implementation := Some silent\<rparr>) ex_context ex_exact ex_now \<noteq> Inr ex_page"
    using discovery_service_guarded [of silent ex_service ex_context ex_exact ex_now silent]
    by (auto simp: discovery_ask_def silent_def)
  moreover have "ex_service\<lparr>dsv_Implementation := Some ex_answer\<rparr> = ex_service" by (simp add: ex_service_def)
  ultimately show ?thesis using ex_service_answer guarded by metis
qed

section \<open>Outbound runtimes\<close>

text \<open>C40: A runtime that registers against a verified release runs an artifact that the trusted
  publisher signed: its digest is among the runtime artifacts of a manifest whose canonical bytes
  are signed under the publisher's key, and the release is an outbound one.\<close>

theorem registered_runtime_signed:
  assumes "Verify ed25519_Verify s t = ok" "RuntimeRegistration_Validate r (sm_Manifest s) (sm_Digest s) = ok"
  shows "\<exists>bytes sig. Canonical (sm_Manifest s) = Inr bytes \<and> rr_ManifestDigest r = sha_digest bytes \<and>
    ed25519_Verify (tp_PublicKey t) bytes sig \<and>
    rr_RuntimeArtifactDigest r \<in> rt_Digest ` set (br_RuntimeArtifacts (ma_Broker (sm_Manifest s))) \<and>
    rr_Provider r = ma_Provider (sm_Manifest s) \<and> TransportMode (ma_Broker (sm_Manifest s)) = BrokerTransportOutboundPull"
proof -
  from assms(1) obtain sig where m: "manifest_ok (sm_Manifest s)"
      "sm_Digest s = sha_digest (json_text (Manifest_json (sm_Manifest s)))"
      "ed25519_Verify (tp_PublicKey t) (json_text (Manifest_json (sm_Manifest s))) sig"
    unfolding Verify_iff Digest_iff by blast
  show ?thesis using assms(2) m(2) unfolding RuntimeRegistration_Validate_ok Canonical_iff
    by (intro exI [of _ "json_text (Manifest_json (sm_Manifest s))"] exI [of _ sig]) (simp add: m(1,3))
qed

theorem registered_runtime_signed_witness:
  "rr_RuntimeArtifactDigest ex_registration \<in> rt_Digest ` set (br_RuntimeArtifacts (ma_Broker ex_search_manifest))"
proof -
  define s where "s = \<lparr> sm_Manifest = ex_search_manifest, sm_Digest = ex_release, sm_Signature = RawURL_EncodeToString ''sig'' \<rparr>"
  have "Verify (\<lambda>k m s. s = ''sig'') s \<lparr> tp_ID = ''acme'', tp_KeyID = ''k1'', tp_PublicKey = replicate 32 CHR ''k'' \<rparr> = ok"
    by (simp add: Verify_iff s_def ex_search_manifest_def [THEN arg_cong, of ma_Publisher] ex_manifest_def)
  moreover have "RuntimeRegistration_Validate ex_registration (sm_Manifest s) (sm_Digest s) = ok"
    using ex_registration_ok by (simp add: s_def)
  ultimately show ?thesis using registered_runtime_signed by (fastforce simp: s_def)
qed

text \<open>An accepted dispatch result is a failure without a response or a success whose response
  digest is recomputed, never both.\<close>

theorem dispatch_result_exclusive:
  assumes "DispatchResult_Validate r = ok"
  shows "(if blank (do_Failure r) then do_Response r \<noteq> [] \<and> JSONDigest (do_Response r) = Inr (do_ResponseDigest r)
     else do_Response r = [] \<and> blank (do_ResponseDigest r))"
  using assms by (auto simp: DispatchResult_Validate_ok JSONDigest_def split: if_splits)

theorem dispatch_result_exclusive_witness: "blank (do_ResponseDigest ex_failure)"
  using dispatch_result_exclusive [OF ex_failure_ok] by (simp add: ex_failure_def ex_texts)

end
